(* ===== verification/Prelude.thy ===== *)
theory Prelude
  imports Main "HOL-Library.AList" "HOL-Library.Sublist" "HOL-Library.Char_ord"
begin

text \<open>
  Shared vocabulary of the development: JavaScript values as the components see them
  (configuration objects, props, Immutable maps), the JavaScript notion of truthiness,
  the TypeError that a property access on \<open>undefined\<close> raises, and the string
  operations the components use (\<open>split\<close>/\<open>join\<close>, \<open>indexOf\<close>, \<open>startsWith\<close>).
  Strings are HOL strings; a \<open>char\<close> stands for one UTF-16 code unit of the
  Latin-1 range, which is all that the regular expressions and separators of the
  source distinguish.
\<close>

named_theorems js_simps "evaluation rules for the JavaScript value helpers"
named_theorems str_simps "evaluation rules for the string helpers"

section \<open>JavaScript values\<close>

text \<open>
  A JavaScript value as read from a configuration object or a props object. An object
  (plain or an Immutable \<open>Map\<close>) is an association list in insertion order, as
  \<open>Object.keys\<close> and Immutable iterate it. Numbers are integers: no component
  computes with them.
\<close>

datatype jsval =
    JUndef
  | JNull
  | JBool bool
  | JNum int
  | JStr string
  | JObj "(string \<times> jsval) list"

datatype js_error = TypeError string

type_synonym 'a js = "js_error + 'a"
type_synonym jsobj = "(string \<times> jsval) list"

text \<open>\<open>!!v\<close>: the falsy values are \<open>undefined\<close>, \<open>null\<close>, \<open>false\<close>, \<open>0\<close> and \<open>""\<close>.\<close>

fun truthy :: "jsval \<Rightarrow> bool" where
  "truthy JUndef = False"
| "truthy JNull = False"
| "truthy (JBool b) = b"
| "truthy (JNum n) = (n \<noteq> 0)"
| "truthy (JStr s) = (s \<noteq> [])"
| "truthy (JObj _) = True"

text \<open>Property read \<open>o[k]\<close> on an object: a missing key reads as \<open>undefined\<close>.\<close>

definition get_prop :: "jsobj \<Rightarrow> string \<Rightarrow> jsval" where
  "get_prop obj k = (case map_of obj k of Some v \<Rightarrow> v | None \<Rightarrow> JUndef)"

text \<open>\<open>a || b\<close> and \<open>a && b\<close> return one of their operands.\<close>

definition js_or :: "jsval \<Rightarrow> jsval \<Rightarrow> jsval" where
  "js_or a b = (if truthy a then a else b)"

definition js_and :: "jsval \<Rightarrow> jsval \<Rightarrow> jsval" where
  "js_and a b = (if truthy a then b else a)"

text \<open>\<open>typeof v === "object"\<close>: true for objects and, notoriously, for \<open>null\<close>.\<close>

fun typeof_object :: "jsval \<Rightarrow> bool" where
  "typeof_object JNull = True"
| "typeof_object (JObj _) = True"
| "typeof_object _ = False"

text \<open>The decimal text of a number, as \<open>String(n)\<close> writes an integer.\<close>

fun nat_str :: "nat \<Rightarrow> string" where
  "nat_str n = (if n < 10 then [char_of (48 + n)] else nat_str (n div 10) @ [char_of (48 + n mod 10)])"

definition int_str :: "int \<Rightarrow> string" where
  "int_str i = (if i < 0 then CHR ''-'' # nat_str (nat (- i)) else nat_str (nat i))"

text \<open>\<open>String(v)\<close> (ECMAScript \<open>ToString\<close>) of a value; an object that does not
  override \<open>toString\<close> gives \<open>"[object Object]"\<close>.\<close>

fun js_to_string :: "jsval \<Rightarrow> string" where
  "js_to_string JUndef = ''undefined''"
| "js_to_string JNull = ''null''"
| "js_to_string (JBool b) = (if b then ''true'' else ''false'')"
| "js_to_string (JNum i) = int_str i"
| "js_to_string (JStr s) = s"
| "js_to_string (JObj _) = ''[object Object]''"

text \<open>\<open>Object.keys(v)\<close>: a TypeError on \<open>null\<close> and \<open>undefined\<close>.\<close>

fun object_keys :: "jsval \<Rightarrow> string list js" where
  "object_keys JUndef = Inl (TypeError ''Cannot convert undefined or null to object'')"
| "object_keys JNull = Inl (TypeError ''Cannot convert undefined or null to object'')"
| "object_keys (JObj obj) = Inr (map fst obj)"
| "object_keys (JStr s) = Inr (map nat_str [0..<length s])"
| "object_keys _ = Inr []"

section \<open>PropTypes\<close>

text \<open>The checks \<open>PropTypes\<close> declarations make in development builds: a declared
  prop of the wrong type, or a required one that is \<open>undefined\<close> or \<open>null\<close>, is
  reported; rendering goes on either way.\<close>

datatype prop_type = PTString | PTBool

fun prop_type_ok :: "prop_type \<Rightarrow> jsval \<Rightarrow> bool" where
  "prop_type_ok PTString v = (case v of JStr _ \<Rightarrow> True | _ \<Rightarrow> False)"
| "prop_type_ok PTBool v = (case v of JBool _ \<Rightarrow> True | _ \<Rightarrow> False)"

definition prop_types_ok :: "(string \<times> prop_type \<times> bool) list \<Rightarrow> jsobj \<Rightarrow> bool" where
  "prop_types_ok decls props \<longleftrightarrow>
     list_all (\<lambda>(k, t, required).
                 let v = get_prop props k
                 in if v = JUndef \<or> v = JNull then \<not> required else prop_type_ok t v) decls"

section \<open>Strings\<close>

definition is_alpha :: "char \<Rightarrow> bool" where
  "is_alpha c \<longleftrightarrow> (CHR ''a'' \<le> c \<and> c \<le> CHR ''z'') \<or> (CHR ''A'' \<le> c \<and> c \<le> CHR ''Z'')"

definition is_digit :: "char \<Rightarrow> bool" where
  "is_digit c \<longleftrightarrow> CHR ''0'' \<le> c \<and> c \<le> CHR ''9''"

text \<open>\<open>s.split(c)\<close> for a one-character separator, and its inverse \<open>xs.join(c)\<close>.\<close>

fun split_on :: "char \<Rightarrow> string \<Rightarrow> string list" where
  "split_on c [] = [[]]"
| "split_on c (x # xs) =
     (if x = c then [] # split_on c xs
      else (case split_on c xs of ys # yss \<Rightarrow> (x # ys) # yss | [] \<Rightarrow> [[x]]))"

fun join_with :: "string \<Rightarrow> string list \<Rightarrow> string" where
  "join_with sep [] = []"
| "join_with sep [x] = x"
| "join_with sep (x # y # zs) = x @ sep @ join_with sep (y # zs)"

text \<open>\<open>hay.indexOf(needle) >= 0\<close>.\<close>

definition contains :: "string \<Rightarrow> string \<Rightarrow> bool" where
  "contains hay needle = sublist needle hay"

text \<open>The part of a string before and after the first occurrence of a character.\<close>

definition before_char :: "char \<Rightarrow> string \<Rightarrow> string" where
  "before_char c s = takeWhile (\<lambda>x. x \<noteq> c) s"

definition after_char :: "char \<Rightarrow> string \<Rightarrow> string option" where
  "after_char c s = (case dropWhile (\<lambda>x. x \<noteq> c) s of [] \<Rightarrow> None | _ # r \<Rightarrow> Some r)"

section \<open>Lemmas on the JavaScript helpers\<close>

lemma get_prop_Cons [js_simps]:
  "get_prop ((k', v) # obj) k = (if k' = k then v else get_prop obj k)"
  by (simp add: get_prop_def)

lemma get_prop_Nil [js_simps]: "get_prop [] k = JUndef"
  by (simp add: get_prop_def)

lemma js_or_truthy [js_simps]: "truthy a \<Longrightarrow> js_or a b = a"
  and js_or_falsy [js_simps]: "\<not> truthy a \<Longrightarrow> js_or a b = b"
  by (simp_all add: js_or_def)

lemma js_and_truthy [js_simps]: "truthy a \<Longrightarrow> js_and a b = b"
  and js_and_falsy [js_simps]: "\<not> truthy a \<Longrightarrow> js_and a b = a"
  by (simp_all add: js_and_def)

lemma truthy_js_or [js_simps]: "truthy (js_or a b) \<longleftrightarrow> truthy a \<or> truthy b"
  by (simp add: js_or_def)

lemma object_keys_Inl_iff: "(\<exists>e. object_keys v = Inl e) \<longleftrightarrow> v = JUndef \<or> v = JNull"
  by (cases v) auto

section \<open>Lemmas on the string helpers\<close>

lemma split_on_nonempty [simp]: "split_on c s \<noteq> []"
  by (induction s) (auto split: list.splits)

lemma join_with_Cons_nonempty [str_simps]:
  "xs \<noteq> [] \<Longrightarrow> join_with sep (x # xs) = x @ sep @ join_with sep xs"
  by (cases xs) auto

lemma join_with_Cons_Cons [str_simps]:
  "join_with sep ((a # x) # xs) = a # join_with sep (x # xs)"
  by (cases xs) auto

text \<open>Joining the pieces of a split gives the string back: the round trip of
  \<open>s.split(c).join(c)\<close>.\<close>

lemma join_split_on [str_simps]: "join_with [c] (split_on c s) = s"
proof (induction s)
  case Nil
  then show ?case by simp
next
  case (Cons x xs)
  show ?case
  proof (cases "x = c")
    case True
    with Cons.IH show ?thesis by (simp add: join_with_Cons_nonempty)
  next
    case False
    with Cons.IH show ?thesis
      by (cases "split_on c xs") (simp_all add: join_with_Cons_Cons)
  qed
qed

lemma split_on_no_sep: "c \<notin> set s \<Longrightarrow> split_on c s = [s]"
  by (induction s) auto

lemma split_on_append_sep:
  "c \<notin> set x \<Longrightarrow> split_on c (x @ c # s) = x # split_on c s"
proof (induction x)
  case Nil
  then show ?case by simp
next
  case (Cons a x)
  then show ?case by (cases "split_on c s") auto
qed

text \<open>The converse round trip, for pieces free of the separator.\<close>

lemma split_join_with [str_simps]:
  "xs \<noteq> [] \<Longrightarrow> \<forall>x \<in> set xs. c \<notin> set x \<Longrightarrow> split_on c (join_with [c] xs) = xs"
proof (induction "[c]" xs rule: join_with.induct)
  case 1
  then show ?case by simp
next
  case (2 x)
  then show ?case by (simp add: split_on_no_sep)
next
  case (3 x y zs)
  then show ?case by (simp add: split_on_append_sep)
qed

lemma set_split_on_no_sep: "x \<in> set (split_on c s) \<Longrightarrow> c \<notin> set x"
proof (induction s arbitrary: x)
  case Nil
  then show ?case by simp
next
  case (Cons a s)
  then show ?case by (auto split: if_splits list.splits)
qed

lemma join_with_append [str_simps]:
  "xs \<noteq> [] \<Longrightarrow> ys \<noteq> [] \<Longrightarrow> join_with sep (xs @ ys) = join_with sep xs @ sep @ join_with sep ys"
proof (induction sep xs rule: join_with.induct)
  case (1 sep)
  then show ?case by simp
next
  case (2 sep x)
  then show ?case by (cases ys) auto
next
  case (3 sep x y zs)
  then show ?case by simp
qed

lemma contains_Nil_hay [str_simps]: "contains [] n \<longleftrightarrow> n = []"
  by (simp add: contains_def)

lemma contains_Cons_hay [str_simps]:
  "contains (h # hs) n \<longleftrightarrow> prefix n (h # hs) \<or> contains hs n"
  by (simp add: contains_def sublist_Cons_right)

lemma contains_self: "contains (a @ n @ b) n"
  by (auto simp: contains_def sublist_def)

lemma after_char_Some:
  "after_char c s = Some r \<Longrightarrow> s = before_char c s @ c # r"
proof -
  assume a: "after_char c s = Some r"
  then have "dropWhile (\<lambda>x. x \<noteq> c) s = c # r"
    by (auto simp: after_char_def dropWhile_eq_Cons_conv split: list.splits)
  then show ?thesis
    by (metis before_char_def takeWhile_dropWhile_id)
qed

lemma after_char_length: "after_char c s = Some r \<Longrightarrow> length r < length s"
proof -
  assume "after_char c s = Some r"
  then have "s = before_char c s @ c # r" by (rule after_char_Some)
  then have "length s = length (before_char c s) + Suc (length r)" by (metis length_Cons length_append)
  then show ?thesis by simp
qed

lemma after_char_None: "after_char c s = None \<longleftrightarrow> c \<notin> set s"
  by (auto simp: after_char_def dropWhile_eq_Cons_conv split: list.splits)
     (metis Un_iff list.set_intros(1) set_append)

lemma before_char_no_sep: "c \<notin> set (before_char c s)"
  by (auto simp: before_char_def dest: set_takeWhileD)

lemma before_char_after_char_append:
  "c \<notin> set x \<Longrightarrow> before_char c (x @ c # r) = x \<and> after_char c (x @ c # r) = Some r"
  by (induction x) (auto simp: before_char_def after_char_def)

lemma before_char_after_char_none:
  "c \<notin> set x \<Longrightarrow> before_char c x = x \<and> after_char c x = None"
  by (auto simp: before_char_def after_char_None)

end
