(* ===== verification/Url.thy ===== *)
theory Url
  imports Prelude
begin

text \<open>
  URLs as the authorization engine handles them: a URL reference split into scheme,
  authority, path, query and fragment (\<open>parse_url\<close>, \<open>print_url\<close>), the
  configured extra query parameters merged without overwriting (\<open>add_params\<close>),
  resolution of a relative reference against a base (\<open>resolve\<close>, RFC 3986 section
  5.2 with \<open>remove_dot_segments\<close>), and \<open>encodeURIComponent\<close> for the appended
  parameters. The engine's file (\<open>core/plugins/auth/actions.js\<close> with the
  \<open>url-parse\<close> library it calls) is not part of the sources, so this theory follows
  section 4.2 of the specification.
\<close>

section \<open>URL references\<close>

record url =
  u_scheme :: "string option"
  u_authority :: "string option"
  u_path :: string
  u_query :: "string option"
  u_fragment :: "string option"

definition is_scheme_char :: "char \<Rightarrow> bool" where
  "is_scheme_char c \<longleftrightarrow> is_alpha c \<or> is_digit c \<or> c \<in> set ''+-.''"

text \<open>\<open>scheme = ALPHA *( ALPHA / DIGIT / "+" / "-" / "." )\<close>\<close>

definition is_scheme :: "string \<Rightarrow> bool" where
  "is_scheme s \<longleftrightarrow> (case s of [] \<Rightarrow> False | c # cs \<Rightarrow> is_alpha c \<and> list_all is_scheme_char cs)"

definition split_scheme :: "string \<Rightarrow> string option \<times> string" where
  "split_scheme s =
     (case after_char CHR '':'' s of
        Some r \<Rightarrow> if is_scheme (before_char CHR '':'' s) then (Some (before_char CHR '':'' s), r)
                  else (None, s)
      | None \<Rightarrow> (None, s))"

definition split_authority :: "string \<Rightarrow> string option \<times> string" where
  "split_authority s =
     (if take 2 s = ''//'' then
        (Some (takeWhile (\<lambda>c. c \<notin> set ''/?#'') (drop 2 s)),
         dropWhile (\<lambda>c. c \<notin> set ''/?#'') (drop 2 s))
      else (None, s))"

definition split_query :: "string \<Rightarrow> string option \<times> string" where
  "split_query s =
     (case s of
        c # r \<Rightarrow> if c = CHR ''?'' then
                   (Some (takeWhile (\<lambda>c. c \<noteq> CHR ''#'') r), dropWhile (\<lambda>c. c \<noteq> CHR ''#'') r)
                 else (None, s)
      | [] \<Rightarrow> (None, s))"

definition split_fragment :: "string \<Rightarrow> string option" where
  "split_fragment s = (case s of c # r \<Rightarrow> if c = CHR ''#'' then Some r else None | [] \<Rightarrow> None)"

definition parse_url :: "string \<Rightarrow> url" where
  "parse_url s =
     (let (sch, r1) = split_scheme s;
          (auth, r2) = split_authority r1;
          path = takeWhile (\<lambda>c. c \<notin> set ''?#'') r2;
          r3 = dropWhile (\<lambda>c. c \<notin> set ''?#'') r2;
          (q, r4) = split_query r3
      in \<lparr>u_scheme = sch, u_authority = auth, u_path = path, u_query = q,
          u_fragment = split_fragment r4\<rparr>)"

definition opt_str :: "string \<Rightarrow> string \<Rightarrow> string option \<Rightarrow> string" where
  "opt_str pre post x = (case x of None \<Rightarrow> [] | Some s \<Rightarrow> pre @ s @ post)"

definition print_url :: "url \<Rightarrow> string" where
  "print_url u =
     opt_str [] '':'' (u_scheme u) @ opt_str ''//'' [] (u_authority u) @ u_path u @
     opt_str ''?'' [] (u_query u) @ opt_str ''#'' [] (u_fragment u)"

text \<open>
  The references that \<open>parse_url\<close> can produce: the authority stops at the first
  \<open>/ ? #\<close>, so the path after it is empty or absolute; a path without authority does
  not begin with \<open>//\<close>; a reference without scheme does not begin with something that
  reads as one.
\<close>

definition url_wf :: "url \<Rightarrow> bool" where
  "url_wf u \<longleftrightarrow>
     (case u_scheme u of Some s \<Rightarrow> is_scheme s | None \<Rightarrow>
        u_authority u = None \<longrightarrow>
          \<not> (CHR '':'' \<in> set (u_path u) \<and> is_scheme (before_char CHR '':'' (u_path u)))) \<and>
     (case u_authority u of
        Some a \<Rightarrow> (\<forall>c \<in> set a. c \<notin> set ''/?#'') \<and> (u_path u = [] \<or> hd (u_path u) = CHR ''/'')
      | None \<Rightarrow> \<not> prefix ''//'' (u_path u)) \<and>
     (\<forall>c \<in> set (u_path u). c \<notin> set ''?#'') \<and>
     (case u_query u of Some q \<Rightarrow> CHR ''#'' \<notin> set q | None \<Rightarrow> True)"

section \<open>Query strings\<close>

definition query_parts :: "string option \<Rightarrow> string list" where
  "query_parts q = (case q of None \<Rightarrow> [] | Some s \<Rightarrow> split_on CHR ''&'' s)"

definition query_keys :: "string option \<Rightarrow> string list" where
  "query_keys q = map (before_char CHR ''='') (query_parts q)"

definition append_param :: "string \<Rightarrow> string option \<Rightarrow> string option" where
  "append_param p q = (case q of None \<Rightarrow> Some p | Some s \<Rightarrow> Some (s @ ''&'' @ p))"

text \<open>\<open>encodeURIComponent\<close> on a Latin-1 code unit: the unreserved characters stay,
  the others become the percent-encoded bytes of their UTF-8 form.\<close>

definition hex_digit :: "nat \<Rightarrow> char" where
  "hex_digit n = ''0123456789ABCDEF'' ! (n mod 16)"

definition pct :: "nat \<Rightarrow> string" where
  "pct b = [CHR ''%'', hex_digit (b div 16), hex_digit b]"

definition uri_unreserved :: "char \<Rightarrow> bool" where
  "uri_unreserved c \<longleftrightarrow> is_alpha c \<or> is_digit c \<or> c \<in> set ''-_.!~*'()''"

definition encode_char :: "char \<Rightarrow> string" where
  "encode_char c =
     (if uri_unreserved c then [c]
      else if of_char c < (128::nat) then pct (of_char c)
      else pct (192 + of_char c div 64) @ pct (128 + of_char c mod 64))"

definition encode_component :: "string \<Rightarrow> string" where
  "encode_component s = concat (map encode_char s)"

text \<open>
  The configured parameters are appended in order; one whose (encoded) key is
  already in the query is skipped: existing parameters win.
\<close>

definition param_str :: "string \<Rightarrow> string \<Rightarrow> string" where
  "param_str k v = encode_component k @ ''='' @ encode_component v"

fun add_params :: "(string \<times> string) list \<Rightarrow> string option \<Rightarrow> string option" where
  "add_params [] q = q"
| "add_params ((k, v) # ps) q =
     add_params ps
       (if encode_component k \<in> set (query_keys q) then q else append_param (param_str k v) q)"

section \<open>Resolution against a base\<close>

text \<open>\<open>remove_dot_segments\<close> over the segments of a path: \<open>.\<close> is dropped, \<open>..\<close>
  drops the segment before it, and a final \<open>.\<close> or \<open>..\<close> leaves a trailing slash.\<close>

fun rds :: "string list \<Rightarrow> string list \<Rightarrow> string list" where
  "rds acc [] = rev acc"
| "rds acc [s] =
     (if s = ''.'' then rev ([] # acc) else if s = ''..'' then rev ([] # drop 1 acc)
      else rev (s # acc))"
| "rds acc (s # t # ss) =
     (if s = ''.'' then rds acc (t # ss) else if s = ''..'' then rds (drop 1 acc) (t # ss)
      else rds (s # acc) (t # ss))"

definition remove_dot_segments :: "string \<Rightarrow> string" where
  "remove_dot_segments p =
     (if p \<noteq> [] \<and> hd p = CHR ''/'' then CHR ''/'' # join_with ''/'' (rds [] (split_on CHR ''/'' (tl p)))
      else join_with ''/'' (rds [] (split_on CHR ''/'' p)))"

text \<open>Merging a relative path with the base path (RFC 3986 section 5.2.3).\<close>

definition merge_path :: "url \<Rightarrow> string \<Rightarrow> string" where
  "merge_path base p =
     (if u_authority base \<noteq> None \<and> u_path base = [] then CHR ''/'' # p
      else rev (dropWhile (\<lambda>c. c \<noteq> CHR ''/'') (rev (u_path base))) @ p)"

text \<open>An absolute reference ignores the base; the other forms take what they lack
  from it (RFC 3986 section 5.2.2).\<close>

definition resolve :: "url \<Rightarrow> url \<Rightarrow> url" where
  "resolve base r =
     (if u_scheme r \<noteq> None then r
      else if u_authority r \<noteq> None then
        r\<lparr>u_scheme := u_scheme base, u_path := remove_dot_segments (u_path r)\<rparr>
      else if u_path r = [] then
        r\<lparr>u_scheme := u_scheme base, u_authority := u_authority base, u_path := u_path base,
          u_query := (if u_query r \<noteq> None then u_query r else u_query base)\<rparr>
      else if hd (u_path r) = CHR ''/'' then
        r\<lparr>u_scheme := u_scheme base, u_authority := u_authority base,
          u_path := remove_dot_segments (u_path r)\<rparr>
      else
        r\<lparr>u_scheme := u_scheme base, u_authority := u_authority base,
          u_path := remove_dot_segments (merge_path base (u_path r))\<rparr>)"

text \<open>\<open>buildURL(baseURL, relativeOrAbsoluteURL, extraQuery)\<close>.\<close>

definition build_url :: "string \<Rightarrow> string \<Rightarrow> (string \<times> string) list \<Rightarrow> string" where
  "build_url base ref extra =
     (let u = resolve (parse_url base) (parse_url ref)
      in print_url (u\<lparr>u_query := add_params extra (u_query u)\<rparr>))"

section \<open>Printing and parsing are inverse\<close>

lemma split_authority_print:
  assumes "split_authority s = (a, r)"
  shows "opt_str ''//'' [] a @ r = s"
proof (cases "take 2 s = ''//''")
  case True
  let ?P = "\<lambda>c. c \<notin> set ''/?#''"
  from True assms have "a = Some (takeWhile ?P (drop 2 s))" and "r = dropWhile ?P (drop 2 s)"
    by (simp_all add: split_authority_def)
  then have "opt_str ''//'' [] a @ r = take 2 s @ drop 2 s"
    by (simp add: opt_str_def True)
  then show ?thesis by simp
next
  case False
  with assms show ?thesis by (simp add: split_authority_def opt_str_def)
qed

lemma split_scheme_print: "split_scheme s = (sch, r) \<Longrightarrow> opt_str [] '':'' sch @ r = s"
  by (auto simp: split_scheme_def opt_str_def dest: after_char_Some split: option.splits if_splits)

lemma split_query_print:
  "split_query s = (q, r) \<Longrightarrow> opt_str ''?'' [] q @ r = s"
  by (cases s) (auto simp: split_query_def opt_str_def split: if_splits)

lemma dropWhile_neq_hd:
  "dropWhile (\<lambda>x. x \<noteq> c) xs = [] \<or> hd (dropWhile (\<lambda>x. x \<noteq> c) xs) = c"
  using hd_dropWhile [of "\<lambda>x. x \<noteq> c" xs] by auto

lemma split_query_rest:
  assumes "split_query s = (q, r)" and "s = [] \<or> hd s = CHR ''?'' \<or> hd s = CHR ''#''"
  shows "r = [] \<or> hd r = CHR ''#''"
proof (cases s)
  case Nil
  with assms show ?thesis by (simp add: split_query_def)
next
  case (Cons c t)
  show ?thesis
  proof (cases "c = CHR ''?''")
    case True
    with assms(1) Cons have "r = dropWhile (\<lambda>c. c \<noteq> CHR ''#'') t"
      by (simp add: split_query_def)
    then show ?thesis using dropWhile_neq_hd by simp
  next
    case False
    with assms(1) Cons have "r = s" by (simp add: split_query_def)
    with False assms(2) Cons show ?thesis by simp
  qed
qed

lemma split_fragment_print:
  "s = [] \<or> hd s = CHR ''#'' \<Longrightarrow> opt_str ''#'' [] (split_fragment s) = s"
  by (cases s) (auto simp: split_fragment_def opt_str_def)

lemma dropWhile_qh_hd:
  "dropWhile (\<lambda>c. c \<notin> set ''?#'') xs = [] \<or> hd (dropWhile (\<lambda>c. c \<notin> set ''?#'') xs) = CHR ''?''
   \<or> hd (dropWhile (\<lambda>c. c \<notin> set ''?#'') xs) = CHR ''#''"
  using hd_dropWhile [of "\<lambda>c. c \<notin> set ''?#''" xs] by auto

lemma print_parse_url: "print_url (parse_url s) = s"
proof -
  let ?P = "\<lambda>c. c \<notin> set ''?#''"
  obtain sch r1 where 1: "split_scheme s = (sch, r1)" by fastforce
  obtain a r2 where 2: "split_authority r1 = (a, r2)" by fastforce
  define r3 where "r3 = dropWhile ?P r2"
  obtain q r4 where 4: "split_query r3 = (q, r4)" by fastforce
  have f: "opt_str ''#'' [] (split_fragment r4) = r4"
    using split_query_rest [OF 4] dropWhile_qh_hd [of r2] unfolding r3_def
    by (intro split_fragment_print) blast
  have "parse_url s = \<lparr>u_scheme = sch, u_authority = a, u_path = takeWhile ?P r2, u_query = q,
          u_fragment = split_fragment r4\<rparr>"
    unfolding parse_url_def Let_def 1 2 prod.case r3_def [symmetric] 4 by simp
  then have "print_url (parse_url s) = opt_str [] '':'' sch @ opt_str ''//'' [] a @
      takeWhile ?P r2 @ opt_str ''?'' [] q @ r4"
    by (simp add: print_url_def f)
  also have "\<dots> = opt_str [] '':'' sch @ opt_str ''//'' [] a @ takeWhile ?P r2 @ r3"
    using split_query_print [OF 4] by simp
  also have "\<dots> = s"
    using split_scheme_print [OF 1] split_authority_print [OF 2] by (simp add: r3_def)
  finally show ?thesis .
qed

section \<open>Merging the configured query parameters\<close>

lemma split_on_append_Cons_sep:
  "split_on c (s @ c # t) = split_on c s @ split_on c t"
proof (induction s)
  case Nil
  then show ?case by simp
next
  case (Cons a s)
  then show ?case by (cases "split_on c s") (auto split: list.splits)
qed

lemma hex_digit_set: "hex_digit n \<in> set ''0123456789ABCDEF''"
  unfolding hex_digit_def by (rule nth_mem) simp

lemma encode_char_set:
  "x \<in> set (encode_char c) \<Longrightarrow> uri_unreserved x \<or> x = CHR ''%'' \<or> x \<in> set ''0123456789ABCDEF''"
  using hex_digit_set by (auto simp: encode_char_def pct_def split: if_splits)

lemma encode_component_no_amp_eq:
  "CHR ''&'' \<notin> set (encode_component s) \<and> CHR ''='' \<notin> set (encode_component s)"
  using encode_char_set by (fastforce simp: encode_component_def uri_unreserved_def is_alpha_def is_digit_def)

lemma query_parts_append_param:
  "CHR ''&'' \<notin> set p \<Longrightarrow> query_parts (append_param p q) = query_parts q @ [p]"
  by (cases q) (simp_all add: query_parts_def append_param_def split_on_append_Cons_sep split_on_no_sep)

lemma param_str_key: "before_char CHR ''='' (param_str k v) = encode_component k"
  using encode_component_no_amp_eq [of k]
  by (simp add: param_str_def before_char_after_char_append)

lemma param_str_no_amp: "CHR ''&'' \<notin> set (param_str k v)"
  using encode_component_no_amp_eq [of k] encode_component_no_amp_eq [of v]
  by (simp add: param_str_def)

lemma add_params_parts_prefix: "prefix (query_parts q) (query_parts (add_params ps q))"
proof (induction ps arbitrary: q)
  case Nil
  then show ?case by simp
next
  case (Cons p ps)
  obtain k v where p: "p = (k, v)" by fastforce
  let ?q' = "if encode_component k \<in> set (query_keys q) then q else append_param (param_str k v) q"
  have "prefix (query_parts q) (query_parts ?q')"
    by (simp add: query_parts_append_param param_str_no_amp)
  then show ?case
    using Cons.IH [of ?q'] by (metis p add_params.simps(2) prefix_order.trans)
qed

lemma query_keys_mono: "prefix (query_parts q) (query_parts q') \<Longrightarrow> set (query_keys q) \<subseteq> set (query_keys q')"
  by (auto simp: query_keys_def dest: set_mono_prefix)

lemma add_params_keys_present:
  "(k, v) \<in> set ps \<Longrightarrow> encode_component k \<in> set (query_keys (add_params ps q))"
proof (induction ps arbitrary: q)
  case Nil
  then show ?case by simp
next
  case (Cons p ps)
  obtain k' v' where p: "p = (k', v')" by fastforce
  let ?q' = "if encode_component k' \<in> set (query_keys q) then q else append_param (param_str k' v') q"
  have k': "encode_component k' \<in> set (query_keys ?q')"
    by (simp add: query_keys_def query_parts_append_param param_str_no_amp param_str_key)
  show ?case
  proof (cases "(k, v) = p")
    case True
    with k' p query_keys_mono [OF add_params_parts_prefix [of ?q' ps]] show ?thesis
      by (auto simp only: add_params.simps(2))
  next
    case False
    with Cons show ?thesis by (simp only: p add_params.simps(2)) auto
  qed
qed

text \<open>Merging the configured parameters introduces no duplicate parameter name: a
  query without repeated names keeps that property.\<close>

theorem add_params_distinct_keys:
  "distinct (query_keys q) \<Longrightarrow> distinct (query_keys (add_params ps q))"
proof (induction ps arbitrary: q)
  case Nil
  then show ?case by simp
next
  case (Cons p ps)
  obtain k v where p: "p = (k, v)" by fastforce
  let ?q' = "if encode_component k \<in> set (query_keys q) then q else append_param (param_str k v) q"
  have "distinct (query_keys ?q')"
    using Cons.prems
    by (simp add: query_keys_def query_parts_append_param param_str_no_amp param_str_key)
  then show ?case using Cons.IH by (simp only: p add_params.simps(2))
qed

lemma add_params_skip:
  "\<forall>(k, v) \<in> set ps. encode_component k \<in> set (query_keys q) \<Longrightarrow> add_params ps q = q"
  by (induction ps) (auto simp: add_params.simps(2))

lemma add_params_idem: "add_params ps (add_params ps q) = add_params ps q"
  by (rule add_params_skip) (auto intro: add_params_keys_present)

section \<open>Properties of the URL builder\<close>

theorem add_params_distinct_keys_witness:
  "distinct (query_keys (Some ''q=1'')) \<and>
   distinct (query_keys (add_params [(''q'', ''2''), (''a'', ''b''), (''a'', ''c'')] (Some ''q=1'')))"
proof -
  have h: "distinct (query_keys (Some ''q=1''))" by code_simp
  show ?thesis using h add_params_distinct_keys [OF h] by (rule conjI)
qed

text \<open>Parsing a URL loses nothing: two strings parse to the same reference only
  when they are the same string (printing is a left inverse of parsing).\<close>

theorem parse_url_lossless: "parse_url s = parse_url t \<longleftrightarrow> s = t"
  by (metis print_parse_url)

section \<open>Parsing after printing\<close>

text \<open>The converse round trip: each part of a printed well-formed reference is split off
  again by the parser, so \<open>parse_url\<close> and \<open>print_url\<close> are inverse bijections
  between strings and well-formed references.\<close>

lemma take_drop_while_stop:
  assumes "\<forall>c\<in>set x. P c" and "y = [] \<or> \<not> P (hd y)"
  shows "takeWhile P (x @ y) = x \<and> dropWhile P (x @ y) = y"
proof -
  have "takeWhile P y = [] \<and> dropWhile P y = y" using assms(2) by (cases y) auto
  then show ?thesis using assms(1) by (simp add: takeWhile_append2 dropWhile_append2)
qed

lemma split_fragment_opt: "split_fragment (opt_str ''#'' [] f) = f"
  by (cases f) (simp_all add: split_fragment_def opt_str_def)

lemma fragment_head:
  "opt_str ''#'' [] f = [] \<or> hd (opt_str ''#'' [] f) = CHR ''#''"
  by (cases f) (simp_all add: opt_str_def)

lemma query_head:
  "opt_str ''?'' [] q @ opt_str ''#'' [] f = [] \<or>
   hd (opt_str ''?'' [] q @ opt_str ''#'' [] f) \<in> {CHR ''?'', CHR ''#''}"
  using fragment_head [of f] by (cases q) (auto simp: opt_str_def)

lemma split_query_opt:
  assumes "case q of Some x \<Rightarrow> CHR ''#'' \<notin> set x | None \<Rightarrow> True"
  shows "split_query (opt_str ''?'' [] q @ opt_str ''#'' [] f) = (q, opt_str ''#'' [] f)"
proof (cases q)
  case None
  then show ?thesis using fragment_head [of f]
    by (cases "opt_str ''#'' [] f") (auto simp: split_query_def opt_str_def)
next
  case (Some x)
  have "takeWhile (\<lambda>c. c \<noteq> CHR ''#'') (x @ opt_str ''#'' [] f) = x \<and>
        dropWhile (\<lambda>c. c \<noteq> CHR ''#'') (x @ opt_str ''#'' [] f) = opt_str ''#'' [] f"
    using assms Some fragment_head [of f] by (intro take_drop_while_stop) auto
  then show ?thesis using Some by (simp add: split_query_def opt_str_def)
qed

lemma split_path:
  assumes "\<forall>c\<in>set p. c \<notin> set ''?#''"
  shows "takeWhile (\<lambda>c. c \<notin> set ''?#'') (p @ opt_str ''?'' [] q @ opt_str ''#'' [] f) = p \<and>
         dropWhile (\<lambda>c. c \<notin> set ''?#'') (p @ opt_str ''?'' [] q @ opt_str ''#'' [] f) =
           opt_str ''?'' [] q @ opt_str ''#'' [] f"
  using assms query_head [of q f] by (intro take_drop_while_stop) auto

lemma take2_slashes:
  assumes "\<not> prefix ''//'' p" and "r = [] \<or> hd r \<in> {CHR ''?'', CHR ''#''}"
  shows "take 2 (p @ r) \<noteq> ''//''"
proof (cases p)
  case Nil
  then show ?thesis using assms(2) by (cases r) auto
next
  case (Cons c p')
  then show ?thesis using assms by (cases p'; cases r) auto
qed

lemma split_authority_opt:
  assumes "case a of
             Some x \<Rightarrow> (\<forall>c \<in> set x. c \<notin> set ''/?#'') \<and> (p = [] \<or> hd p = CHR ''/'')
           | None \<Rightarrow> \<not> prefix ''//'' p"
    and "r = [] \<or> hd r \<in> {CHR ''?'', CHR ''#''}"
  shows "split_authority (opt_str ''//'' [] a @ p @ r) = (a, p @ r)"
proof (cases a)
  case None
  then show ?thesis using assms take2_slashes [of p r]
    by (simp add: split_authority_def opt_str_def)
next
  case (Some x)
  have "p @ r = [] \<or> \<not> hd (p @ r) \<notin> set ''/?#''"
    using assms Some by (cases p) auto
  then have "takeWhile (\<lambda>c. c \<notin> set ''/?#'') (x @ p @ r) = x \<and>
             dropWhile (\<lambda>c. c \<notin> set ''/?#'') (x @ p @ r) = p @ r"
    using assms(1) Some by (intro take_drop_while_stop) auto
  then show ?thesis using Some by (simp add: split_authority_def opt_str_def)
qed

lemma scheme_char_not_sep: "c \<in> set ''/?#:'' \<Longrightarrow> \<not> is_scheme_char c"
  by (auto simp: is_scheme_char_def is_alpha_def is_digit_def)

lemma is_scheme_chars: "is_scheme b \<Longrightarrow> c \<in> set b \<Longrightarrow> is_scheme_char c"
  by (cases b) (auto simp: is_scheme_def is_scheme_char_def list_all_iff)

lemma is_scheme_no_sep: "is_scheme b \<Longrightarrow> c \<in> set ''/?#:'' \<Longrightarrow> c \<notin> set b"
  using is_scheme_chars scheme_char_not_sep by blast

lemma hd_in_before_char: "s \<noteq> [] \<Longrightarrow> hd s \<noteq> c \<Longrightarrow> hd s \<in> set (before_char c s)"
  by (cases s) (auto simp: before_char_def)

lemma split_scheme_none:
  assumes "\<not> is_scheme (before_char CHR '':'' s)"
  shows "split_scheme s = (None, s)"
  using assms by (simp add: split_scheme_def split: option.split)

lemma split_scheme_opt:
  assumes "case sch of
             Some x \<Rightarrow> is_scheme x
           | None \<Rightarrow> a = None \<longrightarrow> \<not> (CHR '':'' \<in> set p \<and> is_scheme (before_char CHR '':'' p))"
    and "r = [] \<or> hd r \<in> {CHR ''?'', CHR ''#''}"
  shows "split_scheme (opt_str [] '':'' sch @ opt_str ''//'' [] a @ p @ r) = (sch, opt_str ''//'' [] a @ p @ r)"
proof (cases sch)
  case (Some x)
  then have "CHR '':'' \<notin> set x" using assms(1) is_scheme_no_sep by simp
  then show ?thesis using Some assms(1)
    by (simp add: split_scheme_def opt_str_def before_char_after_char_append)
next
  case None
  let ?s = "opt_str ''//'' [] a @ p @ r"
  show ?thesis
  proof (cases "CHR '':'' \<in> set ?s")
    case False
    then have "after_char CHR '':'' ?s = None" by (simp add: after_char_None)
    then show ?thesis using None by (simp add: split_scheme_def opt_str_def)
  next
    case True
    have "\<not> is_scheme (before_char CHR '':'' ?s)"
    proof (cases a)
      case (Some x)
      then have "CHR ''/'' \<in> set (before_char CHR '':'' ?s)"
        using hd_in_before_char [of ?s "CHR '':''"] by (simp add: opt_str_def)
      then show ?thesis using is_scheme_no_sep by auto
    next
      case a: None
      show ?thesis
      proof (cases "CHR '':'' \<in> set p")
        case True
        then have "before_char CHR '':'' (p @ r) = before_char CHR '':'' p"
          by (simp add: before_char_def takeWhile_append1 [where x = "CHR '':''"])
        then show ?thesis using assms(1) None a True by (simp add: opt_str_def)
      next
        case False
        with True a have r: "r \<noteq> []" "hd r \<in> {CHR ''?'', CHR ''#''}"
          using assms(2) by (auto simp: opt_str_def)
        then have "hd r \<in> set (before_char CHR '':'' r)"
          by (intro hd_in_before_char) auto
        moreover have "before_char CHR '':'' (p @ r) = p @ before_char CHR '':'' r"
          using False unfolding before_char_def by (intro takeWhile_append2) auto
        ultimately have "hd r \<in> set (before_char CHR '':'' ?s)" using a by (simp add: opt_str_def)
        then show ?thesis using r(2) is_scheme_no_sep [of _ "hd r"] by auto
      qed
    qed
    then show ?thesis using None by (simp add: split_scheme_none opt_str_def)
  qed
qed

text \<open>Parsing undoes printing on the references that parsing produces, so together with
  \<open>print_parse_url\<close> the two are inverse bijections between strings and
  well-formed references.\<close>

lemma parse_print_url:
  assumes "url_wf u"
  shows "parse_url (print_url u) = u"
proof -
  let ?P = "\<lambda>c. c \<notin> set ''?#''"
  let ?R = "opt_str ''?'' [] (u_query u) @ opt_str ''#'' [] (u_fragment u)"
  let ?A = "opt_str ''//'' [] (u_authority u)"
  have wf: "case u_scheme u of Some s \<Rightarrow> is_scheme s | None \<Rightarrow>
              u_authority u = None \<longrightarrow>
                \<not> (CHR '':'' \<in> set (u_path u) \<and> is_scheme (before_char CHR '':'' (u_path u)))"
    "case u_authority u of
       Some a \<Rightarrow> (\<forall>c \<in> set a. c \<notin> set ''/?#'') \<and> (u_path u = [] \<or> hd (u_path u) = CHR ''/'')
     | None \<Rightarrow> \<not> prefix ''//'' (u_path u)"
    "\<forall>c \<in> set (u_path u). c \<notin> set ''?#''"
    "case u_query u of Some q \<Rightarrow> CHR ''#'' \<notin> set q | None \<Rightarrow> True"
    using assms by (simp_all add: url_wf_def)
  have r: "?R = [] \<or> hd ?R \<in> {CHR ''?'', CHR ''#''}" by (rule query_head)
  have p: "print_url u = opt_str [] '':'' (u_scheme u) @ ?A @ u_path u @ ?R"
    by (simp add: print_url_def)
  have 1: "split_scheme (print_url u) = (u_scheme u, ?A @ u_path u @ ?R)"
    unfolding p using wf(1) r by (rule split_scheme_opt)
  have 2: "split_authority (?A @ u_path u @ ?R) = (u_authority u, u_path u @ ?R)"
    using wf(2) r by (rule split_authority_opt)
  have 3: "takeWhile ?P (u_path u @ ?R) = u_path u \<and> dropWhile ?P (u_path u @ ?R) = ?R"
    using wf(3) by (rule split_path)
  have 4: "split_query ?R = (u_query u, opt_str ''#'' [] (u_fragment u))"
    using wf(4) by (rule split_query_opt)
  show ?thesis
    unfolding parse_url_def Let_def 1 2 prod.case 3 [THEN conjunct1] 3 [THEN conjunct2] 4
    by (simp add: split_fragment_opt)
qed

lemma split_scheme_Some: "split_scheme s = (Some x, r) \<Longrightarrow> is_scheme x"
  by (auto simp: split_scheme_def split: option.splits if_splits)

lemma split_scheme_None:
  assumes "split_scheme s = (None, r)"
  shows "r = s \<and> (CHR '':'' \<in> set s \<longrightarrow> \<not> is_scheme (before_char CHR '':'' s))"
  using assms after_char_None [of "CHR '':''" s]
  by (auto simp: split_scheme_def split: option.splits if_splits)

lemma split_authority_wf:
  assumes "split_authority s = (a, r)"
  shows "case a of
           Some x \<Rightarrow> (\<forall>c \<in> set x. c \<notin> set ''/?#'') \<and>
                     (takeWhile (\<lambda>c. c \<notin> set ''?#'') r = [] \<or>
                      hd (takeWhile (\<lambda>c. c \<notin> set ''?#'') r) = CHR ''/'')
         | None \<Rightarrow> r = s \<and> take 2 s \<noteq> ''//''"
proof (cases "take 2 s = ''//''")
  case True
  let ?Q = "\<lambda>c. c \<notin> set ''/?#''"
  from True assms have a: "a = Some (takeWhile ?Q (drop 2 s))" and r: "r = dropWhile ?Q (drop 2 s)"
    by (simp_all add: split_authority_def)
  have "r = [] \<or> hd r \<in> set ''/?#''"
    unfolding r using hd_dropWhile [of ?Q "drop 2 s"] by auto
  then have "takeWhile (\<lambda>c. c \<notin> set ''?#'') r = [] \<or>
             hd (takeWhile (\<lambda>c. c \<notin> set ''?#'') r) = CHR ''/''"
    by (cases r) auto
  then show ?thesis using a by (auto dest: set_takeWhileD)
next
  case False
  with assms show ?thesis by (simp add: split_authority_def)
qed

lemma split_query_no_hash: "split_query s = (Some x, r) \<Longrightarrow> CHR ''#'' \<notin> set x"
  by (cases s) (auto simp: split_query_def split: if_splits dest: set_takeWhileD)

lemma prefix_takeWhile: "prefix (takeWhile P s) s"
  by (metis prefix_def takeWhile_dropWhile_id)

text \<open>Every string parses to a well-formed reference.\<close>

lemma parse_url_wf: "url_wf (parse_url s)"
proof -
  let ?P = "\<lambda>c. c \<notin> set ''?#''"
  obtain sch r1 where 1: "split_scheme s = (sch, r1)" by fastforce
  obtain a r2 where 2: "split_authority r1 = (a, r2)" by fastforce
  obtain q r4 where 4: "split_query (dropWhile ?P r2) = (q, r4)" by fastforce
  have u: "parse_url s = \<lparr>u_scheme = sch, u_authority = a, u_path = takeWhile ?P r2, u_query = q,
             u_fragment = split_fragment r4\<rparr>"
    unfolding parse_url_def Let_def 1 2 prod.case 4 by simp
  have path: "\<forall>c \<in> set (takeWhile ?P r2). c \<notin> set ''?#''"
    by (auto dest: set_takeWhileD)
  have query: "case q of Some x \<Rightarrow> CHR ''#'' \<notin> set x | None \<Rightarrow> True"
    using 4 split_query_no_hash by (cases q) auto
  have pre: "prefix (takeWhile ?P r2) r2" by (rule prefix_takeWhile)
  have auth: "case a of
       Some x \<Rightarrow> (\<forall>c \<in> set x. c \<notin> set ''/?#'') \<and> (takeWhile ?P r2 = [] \<or> hd (takeWhile ?P r2) = CHR ''/'')
     | None \<Rightarrow> \<not> prefix ''//'' (takeWhile ?P r2)"
  proof (cases a)
    case None
    with split_authority_wf [OF 2] have "r2 = r1" "take 2 r1 \<noteq> ''//''" by simp_all
    then show ?thesis using None pre by (auto simp: prefix_def)
  next
    case (Some x)
    then show ?thesis using split_authority_wf [OF 2] by simp
  qed
  have sch: "case sch of Some x \<Rightarrow> is_scheme x | None \<Rightarrow>
        a = None \<longrightarrow> \<not> (CHR '':'' \<in> set (takeWhile ?P r2) \<and>
                             is_scheme (before_char CHR '':'' (takeWhile ?P r2)))"
  proof (cases sch)
    case None
    then have s: "r1 = s" "CHR '':'' \<in> set s \<longrightarrow> \<not> is_scheme (before_char CHR '':'' s)"
      using split_scheme_None [of s r1] 1 by simp_all
    have "a = None \<longrightarrow> \<not> (CHR '':'' \<in> set (takeWhile ?P r2) \<and>
                             is_scheme (before_char CHR '':'' (takeWhile ?P r2)))"
    proof (intro impI notI)
      assume a: "a = None" and c: "CHR '':'' \<in> set (takeWhile ?P r2) \<and>
                                   is_scheme (before_char CHR '':'' (takeWhile ?P r2))"
      have "r2 = s" using split_authority_wf [OF 2] a s(1) by simp
      then obtain t where st: "s = takeWhile ?P r2 @ t" using pre by (auto simp: prefix_def)
      have "before_char CHR '':'' s = before_char CHR '':'' (takeWhile ?P r2)"
        unfolding st before_char_def using c by (simp add: takeWhile_append1 [where x = "CHR '':''"])
      moreover have "CHR '':'' \<in> set s" using c st by auto
      ultimately show False using s(2) c by simp
    qed
    then show ?thesis using None by simp
  next
    case (Some x)
    then show ?thesis using split_scheme_Some 1 by simp
  qed
  show ?thesis unfolding u url_wf_def url.select_convs using sch auth path query by (intro conjI)
qed

section \<open>Dot segments\<close>

text \<open>The contract of RFC 3986 section 5.2.4: the result of \<open>remove_dot_segments\<close> has
  no \<open>.\<close> or \<open>..\<close> segment; every segment it keeps is one of the input's or the
  empty segment a final dot segment leaves.\<close>

lemma rds_elems:
  "\<forall>y\<in>set acc. y \<noteq> ''.'' \<and> y \<noteq> ''..'' \<Longrightarrow> x \<in> set (rds acc ss) \<Longrightarrow>
   (x \<in> set acc \<or> x \<in> set ss \<or> x = []) \<and> x \<noteq> ''.'' \<and> x \<noteq> ''..''"
proof (induction acc ss rule: rds.induct)
  case (3 acc s t ss)
  then show ?case by (auto split: if_splits dest: in_set_dropD)
qed (auto split: if_splits dest: in_set_dropD)

lemma rds_nonempty: "ss \<noteq> [] \<Longrightarrow> rds acc ss \<noteq> []"
  by (induction acc ss rule: rds.induct) auto

lemma rds_split_segments:
  assumes "x \<in> set (rds [] (split_on c p))"
  shows "c \<notin> set x \<and> x \<noteq> ''.'' \<and> x \<noteq> ''..''"
  using rds_elems [OF _ assms] set_split_on_no_sep [of x c p] by auto

text \<open>The path \<open>remove_dot_segments\<close> returns has no \<open>.\<close> or \<open>..\<close> segment.\<close>

lemma remove_dot_segments_no_dots:
  assumes "x \<in> set (split_on CHR ''/'' (remove_dot_segments p))"
  shows "x \<noteq> ''.'' \<and> x \<noteq> ''..''"
proof -
  have seg: "split_on CHR ''/'' (join_with ''/'' (rds [] (split_on CHR ''/'' q))) = rds [] (split_on CHR ''/'' q)"
    for q using rds_split_segments [of _ "CHR ''/''" q] rds_nonempty [of "split_on CHR ''/'' q" "[]"]
    by (intro split_join_with) auto
  show ?thesis
  proof (cases "p \<noteq> [] \<and> hd p = CHR ''/''")
    case True
    then have "x \<in> set ([] # rds [] (split_on CHR ''/'' (tl p)))"
      using assms by (simp add: remove_dot_segments_def seg)
    then show ?thesis using rds_split_segments by auto
  next
    case False
    then have "remove_dot_segments p = join_with ''/'' (rds [] (split_on CHR ''/'' p))"
      by (simp only: remove_dot_segments_def if_False)
    then have "x \<in> set (rds [] (split_on CHR ''/'' p))"
      using assms by (simp add: seg)
    then show ?thesis using rds_split_segments by auto
  qed
qed

text \<open>An absolute path without dot segments is left as it is, and parses as a path
  reference.\<close>

lemma rds_no_dots:
  "\<forall>x\<in>set ss. x \<noteq> ''.'' \<and> x \<noteq> ''..'' \<Longrightarrow> rds acc ss = rev acc @ ss"
  by (induction acc ss rule: rds.induct) auto

lemma remove_dot_segments_abs_id:
  assumes "p \<noteq> []" and "hd p = CHR ''/''"
    and "list_all (\<lambda>x. x \<noteq> ''.'' \<and> x \<noteq> ''..'') (split_on CHR ''/'' p)"
  shows "remove_dot_segments p = p"
proof -
  obtain q where p: "p = CHR ''/'' # q" using assms(1,2) by (cases p) auto
  then have "\<forall>x\<in>set (split_on CHR ''/'' q). x \<noteq> ''.'' \<and> x \<noteq> ''..''"
    using assms(3) by (simp add: list_all_iff)
  then show ?thesis using p
    by (simp add: remove_dot_segments_def rds_no_dots join_split_on [of "CHR ''/''", simplified])
qed

lemma parse_url_abs_path:
  assumes "p \<noteq> []" and "hd p = CHR ''/''" and "\<not> prefix ''//'' p"
    and "\<forall>c\<in>set p. c \<notin> set ''?#''"
  shows "parse_url p = \<lparr>u_scheme = None, u_authority = None, u_path = p, u_query = None, u_fragment = None\<rparr>"
proof -
  let ?u = "\<lparr>u_scheme = None, u_authority = None, u_path = p, u_query = None, u_fragment = None\<rparr>"
  have "CHR ''/'' \<in> set (before_char CHR '':'' p)"
    using hd_in_before_char [of p "CHR '':''"] assms(1,2) by simp
  then have "\<not> is_scheme (before_char CHR '':'' p)" using is_scheme_no_sep by auto
  then have "url_wf ?u" using assms(3,4) by (simp add: url_wf_def)
  moreover have "print_url ?u = p" by (simp add: print_url_def opt_str_def)
  ultimately show ?thesis using parse_print_url by metis
qed

end
