(* ===== verification/Server.thy ===== *)
theory Server
  imports Url
begin

text \<open>
  The server resolver of specification section 4.1: the base URL against which a
  relative authorization or token URL is resolved. A multi-server (OpenAPI 3)
  description takes the selected server template with its \<open>{variable}\<close>
  placeholders substituted, and the origin of the URL the description was fetched
  from when no server is selected. A legacy (Swagger 2) description resolves against
  that URL itself (\<open>specSelectors.url()\<close>), whatever its \<open>host\<close>: this is what the
  repository's tests of \<open>authorizeRequest\<close> require of the engine (the rows with and
  without a host, and the Swagger 2.0 query case), where section 4.1 of the
  specification says \<open>scheme://host\<close>. The resolver reads the selectors that
  \<open>authorizeRequest\<close> reads (\<open>isOAS3\<close>, \<open>selectedServer\<close>,
  \<open>serverEffectiveValue\<close>, \<open>operationScheme\<close>, \<open>host\<close>, \<open>url\<close>), collected in
  the record \<open>api_ctx\<close>.
\<close>

record api_ctx =
  is_multi_server :: bool
  selected_server :: "string option"
  server_vars :: "(string \<times> string) list"
  op_scheme :: string
  api_host :: "string option"
  spec_url :: string

text \<open>
  The effective value of a server template: each \<open>{name}\<close> with a non-empty name
  (the pattern \<open>{([^}]+)}\<close>) is replaced by the variable's value, and kept as
  written when the variable has none.
\<close>

function subst_vars :: "(string \<times> string) list \<Rightarrow> string \<Rightarrow> string" where
  "subst_vars vs [] = []"
| "subst_vars vs (c # cs) =
     (case after_char CHR ''}'' cs of
        Some r \<Rightarrow>
          if c = CHR ''{'' \<and> before_char CHR ''}'' cs \<noteq> [] then
            (case map_of vs (before_char CHR ''}'' cs) of
               Some v \<Rightarrow> v
             | None \<Rightarrow> CHR ''{'' # before_char CHR ''}'' cs @ ''}'') @ subst_vars vs r
          else c # subst_vars vs cs
      | None \<Rightarrow> c # subst_vars vs cs)"
  by pat_completeness auto
termination
  by (relation "measure (\<lambda>(vs, s). length s)") (auto dest: after_char_length)

text \<open>The origin (\<open>protocol://authority\<close>) of a URL.\<close>

definition origin_of :: "string \<Rightarrow> string" where
  "origin_of s =
     (let u = parse_url s
      in print_url \<lparr>u_scheme = u_scheme u, u_authority = u_authority u, u_path = [],
                    u_query = None, u_fragment = None\<rparr>)"

text \<open>\<open>resolveBaseURL(ctx)\<close>: \<open>serverEffectiveValue(selectedServer())\<close> for OpenAPI 3,
  \<open>specSelectors.url()\<close> for Swagger 2.\<close>

definition resolve_base_url :: "api_ctx \<Rightarrow> string" where
  "resolve_base_url ctx =
     (if is_multi_server ctx then
        (case selected_server ctx of
           Some t \<Rightarrow> subst_vars (server_vars ctx) t
         | None \<Rightarrow> origin_of (spec_url ctx))
      else spec_url ctx)"

section \<open>Template substitution\<close>

lemma subst_vars_no_brace: "CHR ''{'' \<notin> set s \<Longrightarrow> subst_vars vs s = s"
  by (induction vs s rule: subst_vars.induct) (auto split: option.splits)

text \<open>Placeholders whose variable has no value are kept as written.\<close>

lemma subst_vars_unbound: "vs = [] \<Longrightarrow> subst_vars vs s = s"
proof (induction vs s rule: subst_vars.induct)
  case (1 vs)
  then show ?case by simp
next
  case (2 vs c cs)
  show ?case
  proof (cases "after_char CHR ''}'' cs")
    case None
    with "2.IH" "2.prems" show ?thesis by simp
  next
    case (Some r)
    then have cs: "cs = before_char CHR ''}'' cs @ CHR ''}'' # r" by (rule after_char_Some)
    show ?thesis
    proof (cases "c = CHR ''{'' \<and> before_char CHR ''}'' cs \<noteq> []")
      case True
      with Some "2.IH" "2.prems" have "subst_vars vs (c # cs) = c # before_char CHR ''}'' cs @ CHR ''}'' # r"
        by simp
      then show ?thesis using cs by simp
    next
      case False
      with Some "2.IH" "2.prems" show ?thesis by auto
    qed
  qed
qed

section \<open>Origins\<close>

text \<open>The origin of a URL is a prefix of it: the resolver never invents a host.\<close>

lemma origin_of_prefix: "prefix (origin_of s) s"
proof -
  let ?u = "parse_url s"
  have "s = print_url ?u" by (simp add: print_parse_url)
  also have "\<dots> = origin_of s @ u_path ?u @ opt_str ''?'' [] (u_query ?u) @ opt_str ''#'' [] (u_fragment ?u)"
    by (simp add: origin_of_def print_url_def opt_str_def Let_def)
  finally show ?thesis by (metis prefixI)
qed

end
