(* ===== verification/Authorize.thy ===== *)
theory Authorize
  imports Server
begin

text \<open>
  \<open>authorizeRequest(data)(system)\<close>: the single request the engine hands to the
  injected dispatcher (\<open>fn.fetch\<close>) for a token-endpoint call. The URL of
  \<open>data\<close> is resolved against the base URL of the server resolver and the configured
  \<open>additionalQueryStringParams\<close> are merged into its query; body and headers are
  passed through. Besides the operation this theory holds, as data, the scenarios of
  the repository's tests of \<open>authorizeRequest\<close>
  (\<open>test/unit/core/plugins/auth/actions.js\<close>), so that the model can be run on them.
\<close>

datatype http_method = GET | POST

text \<open>The configuration read through \<open>authSelectors.getConfigs()\<close> and \<open>getConfigs()\<close>:
  \<open>additionalQueryStringParams\<close> is applied only when it is an object.\<close>

record auth_config =
  additional_query :: "(string \<times> string) list option"
  persist_authorization :: bool

record auth_data =
  ad_name :: string
  ad_url :: string
  ad_body :: "string option"
  ad_headers :: "(string \<times> string) list"

record request =
  req_method :: http_method
  req_url :: string
  req_body :: "string option"
  req_headers :: "(string \<times> string) list"

definition extra_params :: "auth_config \<Rightarrow> (string \<times> string) list" where
  "extra_params cfg = (case additional_query cfg of Some ps \<Rightarrow> ps | None \<Rightarrow> [])"

definition authorize_request :: "api_ctx \<Rightarrow> auth_config \<Rightarrow> auth_data \<Rightarrow> request" where
  "authorize_request ctx cfg d =
     \<lparr>req_method = POST,
      req_url = build_url (resolve_base_url ctx) (ad_url d) (extra_params cfg),
      req_body = ad_body d,
      req_headers = ad_headers d\<rparr>"

section \<open>The scenarios of the repository's tests\<close>

text \<open>A row of the test: \<open>{oas3, server, effectiveServer, scheme, host, url}\<close>.
  The mocked \<open>serverEffectiveValue\<close> returns \<open>effectiveServer\<close>; the template
  \<open>https://{selected_host}/resource\<close> is given the variable that makes it so.\<close>

definition test_row_ctx ::
  "bool \<Rightarrow> string option \<Rightarrow> (string \<times> string) list \<Rightarrow> string \<Rightarrow> string option \<Rightarrow> string \<Rightarrow> api_ctx" where
  "test_row_ctx oas3 server vars scheme host url =
     \<lparr>is_multi_server = oas3, selected_server = server, server_vars = vars,
      op_scheme = scheme, api_host = host, spec_url = url\<rparr>"

definition no_extra_config :: auth_config where
  "no_extra_config = \<lparr>additional_query = None, persist_authorization = False\<rparr>"

definition authorize_data :: "string \<Rightarrow> auth_data" where
  "authorize_data u = \<lparr>ad_name = [], ad_url = u, ad_body = None, ad_headers = []\<rparr>"

text \<open>"should resolve authorization endpoint against the server URL": the four rows
  with the URL each expects \<open>fetch\<close> to be called with, for \<open>data = {url: "/authorize"}\<close>.\<close>

definition resolve_endpoint_cases :: "(api_ctx \<times> string) list" where
  "resolve_endpoint_cases =
     [(test_row_ctx True (Some ''https://host/resource'') [] ''http'' None ''http://specs/file'',
       ''https://host/authorize''),
      (test_row_ctx True (Some ''https://{selected_host}/resource'') [(''selected_host'', ''host'')]
         ''http'' None ''http://specs/file'',
       ''https://host/authorize''),
      (test_row_ctx False None [] ''https'' None ''https://specs/file'',
       ''https://specs/authorize''),
      (test_row_ctx False None [] ''https'' (Some ''host'') ''http://specs/file'',
       ''http://specs/authorize'')]"

text \<open>"should add additionalQueryStringParams to Swagger 2.0 / OpenAPI 3.0 authorization
  and token URLs".\<close>

definition query_params_config :: auth_config where
  "query_params_config =
     \<lparr>additional_query = Some [(''myCustomParam'', ''abc123'')], persist_authorization = False\<rparr>"

definition swagger2_query_ctx :: api_ctx where
  "swagger2_query_ctx =
     test_row_ctx False None [] ''https'' (Some ''http://google.com'') ''http://google.com/swagger.json''"

definition oas3_query_ctx :: api_ctx where
  "oas3_query_ctx = test_row_ctx True (Some ''http://google.com'') [] [] None []"

section \<open>The model on the tests' scenarios\<close>

text \<open>The model agrees with every scenario of the repository's tests of
  \<open>authorizeRequest\<close>: the four rows of "should resolve authorization endpoint against
  the server URL" and both cases of "should add additionalQueryStringParams".\<close>

lemma authorize_request_test_rows:
  "map (\<lambda>(ctx, e). req_url (authorize_request ctx no_extra_config (authorize_data ''/authorize'')))
     resolve_endpoint_cases = map snd resolve_endpoint_cases \<and>
   req_url (authorize_request swagger2_query_ctx query_params_config (authorize_data ''/authorize?q=1'')) =
     ''http://google.com/authorize?q=1&myCustomParam=abc123'' \<and>
   req_url (authorize_request oas3_query_ctx query_params_config (authorize_data ''/authorize?q=1'')) =
     ''http://google.com/authorize?q=1&myCustomParam=abc123''"
  by code_simp

text \<open>C2: for a legacy description the endpoint is resolved against the URL the
  description was fetched from, whatever host and scheme it declares: an absolute path
  without query, fragment or dot segments goes to the origin of the description's URL
  followed by that path.\<close>

theorem legacy_endpoint_resolves_against_description:
  assumes "\<not> is_multi_server ctx"
    and "p \<noteq> []" and "hd p = CHR ''/''" and "\<not> prefix ''//'' p" and "\<forall>c\<in>set p. c \<notin> set ''?#''"
    and "list_all (\<lambda>x. x \<noteq> ''.'' \<and> x \<noteq> ''..'') (split_on CHR ''/'' p)"
  shows "req_url (authorize_request ctx no_extra_config (authorize_data p)) = origin_of (spec_url ctx) @ p"
  using assms parse_url_abs_path [OF assms(2-5)] remove_dot_segments_abs_id [OF assms(2,3,6)]
  by (simp add: authorize_request_def authorize_data_def no_extra_config_def extra_params_def
      resolve_base_url_def build_url_def resolve_def origin_of_def print_url_def opt_str_def Let_def)

theorem legacy_endpoint_resolves_against_description_witness:
  "\<not> is_multi_server (fst (resolve_endpoint_cases ! 3)) \<and>
   ''/authorize'' \<noteq> [] \<and> hd ''/authorize'' = CHR ''/'' \<and> \<not> prefix ''//'' ''/authorize'' \<and>
   list_all (\<lambda>x. x \<noteq> ''.'' \<and> x \<noteq> ''..'') (split_on CHR ''/'' ''/authorize'') \<and>
   req_url (authorize_request (fst (resolve_endpoint_cases ! 3)) no_extra_config (authorize_data ''/authorize'')) =
     origin_of (spec_url (fst (resolve_endpoint_cases ! 3))) @ ''/authorize''"
proof -
  have h: "\<not> is_multi_server (fst (resolve_endpoint_cases ! 3))"
    by (simp add: resolve_endpoint_cases_def test_row_ctx_def)
  have c: "\<forall>c\<in>set ''/authorize''. c \<notin> set ''?#''" by simp
  have l: "list_all (\<lambda>x. x \<noteq> ''.'' \<and> x \<noteq> ''..'') (split_on CHR ''/'' ''/authorize'')" by simp
  show ?thesis
    using legacy_endpoint_resolves_against_description [OF h _ _ _ c l] h l by simp
qed


end
