(* ===== verification/Grants.thy ===== *)
theory Grants
  imports Authorize
begin

text \<open>
  The grant strategies of specification section 4.3: one request builder per OAuth2
  grant, dispatched on a tagged variant of the grant's inputs. The implicit and
  access-code grants send the browser to the authorization URL (a GET whose query
  carries the grant's parameters); the client-credentials and password grants, and the
  second step of the access-code grant (\<open>authorizeAccessCodeWithFormParams\<close>), post
  a form-encoded body to the token URL through \<open>authorize_request\<close>. A required
  endpoint that the security scheme does not declare is the error
  \<open>InvalidGrantConfiguration\<close>, carrying the scheme's name.
\<close>

datatype flow = Implicit | AccessCode | Application | Password

record security_scheme =
  ss_name :: string
  ss_flow :: flow
  ss_authorization_url :: "string option"
  ss_token_url :: "string option"
  ss_scopes :: "string list"
  ss_form_params :: "(string \<times> string) list"

text \<open>The grant's inputs (section 9: one constructor per grant kind).\<close>

datatype grant =
    GImplicit string string "string list" string
  | GAccessCode string string "string list" string "string option"
  | GApplication string string "string list"
  | GPassword string "string option" string string "string list"

datatype auth_error =
    InvalidGrantConfiguration string
  | NetworkFailure string
  | MalformedPersistedState

text \<open>A form body: \<open>key=value\<close> pairs, each side percent-encoded, joined by \<open>&\<close>.\<close>

definition form_body :: "(string \<times> string) list \<Rightarrow> string" where
  "form_body f = join_with ''&'' (map (\<lambda>(k, v). param_str k v) f)"

text \<open>Scheme-declared form parameters are added after the standard fields and never
  replace one of them.\<close>

definition merge_form :: "(string \<times> string) list \<Rightarrow> (string \<times> string) list \<Rightarrow> (string \<times> string) list" where
  "merge_form std extra = std @ filter (\<lambda>(k, v). k \<notin> set (map fst std)) extra"

definition scope_str :: "string list \<Rightarrow> string" where
  "scope_str sc = join_with '' '' sc"

text \<open>The standard parameters are appended to the authorization URL's query; the
  configured extra parameters follow under the non-overwrite rule of \<open>add_params\<close>.\<close>

definition append_params :: "(string \<times> string) list \<Rightarrow> string option \<Rightarrow> string option" where
  "append_params ps q = fold (\<lambda>(k, v). append_param (param_str k v)) ps q"

definition grant_url ::
  "string \<Rightarrow> string \<Rightarrow> (string \<times> string) list \<Rightarrow> (string \<times> string) list \<Rightarrow> string" where
  "grant_url base ref std extra =
     (let u = resolve (parse_url base) (parse_url ref)
      in print_url (u\<lparr>u_query := add_params extra (append_params std (u_query u))\<rparr>))"

definition pkce_params :: "string option \<Rightarrow> (string \<times> string) list" where
  "pkce_params ch =
     (case ch of None \<Rightarrow> [] | Some c \<Rightarrow> [(''code_challenge'', c), (''code_challenge_method'', ''S256'')])"

definition authorization_params ::
  "string \<Rightarrow> string \<Rightarrow> string \<Rightarrow> string list \<Rightarrow> string \<Rightarrow> (string \<times> string) list" where
  "authorization_params rt cid ru sc st =
     [(''response_type'', rt), (''client_id'', cid), (''redirect_uri'', ru),
      (''scope'', scope_str sc), (''state'', st)]"

definition redirect_request ::
  "api_ctx \<Rightarrow> auth_config \<Rightarrow> security_scheme \<Rightarrow> (string \<times> string) list \<Rightarrow> auth_error + request" where
  "redirect_request ctx cfg s std =
     (case ss_authorization_url s of
        None \<Rightarrow> Inl (InvalidGrantConfiguration (ss_name s))
      | Some au \<Rightarrow> Inr \<lparr>req_method = GET,
                        req_url = grant_url (resolve_base_url ctx) au std (extra_params cfg),
                        req_body = None, req_headers = []\<rparr>)"

definition form_headers :: "(string \<times> string) list" where
  "form_headers = [(''Content-Type'', ''application/x-www-form-urlencoded'')]"

definition token_request ::
  "api_ctx \<Rightarrow> auth_config \<Rightarrow> security_scheme \<Rightarrow> (string \<times> string) list \<Rightarrow> auth_error + request" where
  "token_request ctx cfg s form =
     (case ss_token_url s of
        None \<Rightarrow> Inl (InvalidGrantConfiguration (ss_name s))
      | Some tu \<Rightarrow> Inr (authorize_request ctx cfg
                         \<lparr>ad_name = ss_name s, ad_url = tu, ad_body = Some (form_body form),
                          ad_headers = form_headers\<rparr>))"

text \<open>\<open>buildAuthorizationRequest(scheme, params)\<close>.\<close>

fun build_authorization_request ::
  "api_ctx \<Rightarrow> auth_config \<Rightarrow> security_scheme \<Rightarrow> grant \<Rightarrow> auth_error + request" where
  "build_authorization_request ctx cfg s (GImplicit cid ru sc st) =
     redirect_request ctx cfg s (authorization_params ''token'' cid ru sc st)"
| "build_authorization_request ctx cfg s (GAccessCode cid ru sc st ch) =
     redirect_request ctx cfg s (authorization_params ''code'' cid ru sc st @ pkce_params ch)"
| "build_authorization_request ctx cfg s (GApplication cid sec sc) =
     token_request ctx cfg s
       [(''grant_type'', ''client_credentials''), (''scope'', scope_str sc),
        (''client_id'', cid), (''client_secret'', sec)]"
| "build_authorization_request ctx cfg s (GPassword cid sec user pw sc) =
     token_request ctx cfg s
       ([(''grant_type'', ''password''), (''username'', user), (''password'', pw),
         (''scope'', scope_str sc), (''client_id'', cid)] @
        (case sec of None \<Rightarrow> [] | Some x \<Rightarrow> [(''client_secret'', x)]))"

text \<open>\<open>buildTokenRequest(scheme, code, redirectUri, codeVerifier?)\<close>: the code exchange
  of the access-code grant, with the PKCE verifier when one was used.\<close>

definition token_form ::
  "string \<Rightarrow> string option \<Rightarrow> string \<Rightarrow> string \<Rightarrow> string option \<Rightarrow> (string \<times> string) list" where
  "token_form cid sec code ru verifier =
     [(''grant_type'', ''authorization_code''), (''code'', code), (''client_id'', cid)] @
     (case sec of None \<Rightarrow> [] | Some x \<Rightarrow> [(''client_secret'', x)]) @
     [(''redirect_uri'', ru)] @
     (case verifier of None \<Rightarrow> [] | Some v \<Rightarrow> [(''code_verifier'', v)])"

definition build_token_request ::
  "api_ctx \<Rightarrow> auth_config \<Rightarrow> security_scheme \<Rightarrow> string \<Rightarrow> string option \<Rightarrow> string \<Rightarrow> string
   \<Rightarrow> string option \<Rightarrow> auth_error + request" where
  "build_token_request ctx cfg s cid sec code ru verifier =
     token_request ctx cfg s (merge_form (token_form cid sec code ru verifier) (ss_form_params s))"

text \<open>The endpoint a grant needs (the table of section 4.3): the authorization URL for
  the redirect grants, the token URL for the others.\<close>

fun grant_endpoint :: "security_scheme \<Rightarrow> grant \<Rightarrow> string option" where
  "grant_endpoint s (GImplicit _ _ _ _) = ss_authorization_url s"
| "grant_endpoint s (GAccessCode _ _ _ _ _) = ss_authorization_url s"
| "grant_endpoint s (GApplication _ _ _) = ss_token_url s"
| "grant_endpoint s (GPassword _ _ _ _ _) = ss_token_url s"

section \<open>The scenarios of the repository's tests\<close>

text \<open>The security definition \<open>petstore_auth\<close> of the tests of \<open>SchemesWrapper\<close>
  (\<open>test/components/schemes-wrapper.js\<close>): an implicit flow that declares an
  authorization URL and no token URL.\<close>

definition petstore_auth_scheme :: security_scheme where
  "petstore_auth_scheme =
     \<lparr>ss_name = ''petstore_auth'', ss_flow = Implicit,
      ss_authorization_url = Some ''http://petstore.swagger.io/oauth/dialog'', ss_token_url = None,
      ss_scopes = [''write:pets'', ''read:pets''], ss_form_params = []\<rparr>"

text \<open>"tokenRequest: should send the code verifier when set" and "should send additional
  form params within request body" (\<open>test/mocha/core/plugins/auth/actions.js\<close>): a scheme
  whose token URL is \<open>http://tokenUrl\<close>, the verifier \<open>mock_code_verifier\<close>, the
  redirect URL \<open>http://google.com\<close>; and a scheme declaring \<open>audience=test\<close>.\<close>

definition token_test_scheme :: "(string \<times> string) list \<Rightarrow> security_scheme" where
  "token_test_scheme extra =
     \<lparr>ss_name = [], ss_flow = AccessCode, ss_authorization_url = None,
      ss_token_url = Some ''http://tokenUrl'', ss_scopes = [], ss_form_params = extra\<rparr>"

section \<open>Lemmas\<close>

lemma split_form_body:
  "f \<noteq> [] \<Longrightarrow> split_on CHR ''&'' (form_body f) = map (\<lambda>(k, v). param_str k v) f"
  unfolding form_body_def
  by (rule split_join_with) (auto simp: param_str_no_amp)

lemma token_request_Some:
  "ss_token_url s = Some tu \<Longrightarrow>
   token_request ctx cfg s form =
     Inr (authorize_request ctx cfg \<lparr>ad_name = ss_name s, ad_url = tu, ad_body = Some (form_body form),
                                     ad_headers = form_headers\<rparr>)"
  by (simp add: token_request_def)

section \<open>Properties of the grant strategies\<close>

text \<open>When PKCE was used, the code exchange posts a form body that carries
  \<open>code_verifier\<close> with the stored verifier and \<open>grant_type=authorization_code\<close>,
  whatever parameters the scheme adds.\<close>

lemma build_token_request_verifier:
  assumes "ss_token_url s = Some tu"
  shows "\<exists>r b. build_token_request ctx cfg s cid sec code ru (Some v) = Inr r \<and> req_body r = Some b \<and>
           param_str ''code_verifier'' v \<in> set (split_on CHR ''&'' b) \<and>
           param_str ''grant_type'' ''authorization_code'' \<in> set (split_on CHR ''&'' b)"
proof -
  let ?f = "merge_form (token_form cid sec code ru (Some v)) (ss_form_params s)"
  have ne: "?f \<noteq> []" by (simp add: merge_form_def token_form_def)
  have parts: "split_on CHR ''&'' (form_body ?f) = map (\<lambda>(k, v). param_str k v) ?f"
    using ne by (rule split_form_body)
  have "(''code_verifier'', v) \<in> set ?f" and "(''grant_type'', ''authorization_code'') \<in> set ?f"
    by (simp_all add: merge_form_def token_form_def)
  then have "param_str ''code_verifier'' v \<in> set (split_on CHR ''&'' (form_body ?f))"
    and "param_str ''grant_type'' ''authorization_code'' \<in> set (split_on CHR ''&'' (form_body ?f))"
    unfolding parts by force+
  then show ?thesis
    using assms by (simp add: build_token_request_def token_request_Some authorize_request_def)
qed

text \<open>A grant fails exactly when the scheme does not declare the endpoint the grant
  needs, and the failure is \<open>InvalidGrantConfiguration\<close> naming the scheme: nothing
  is defaulted.\<close>

lemma build_authorization_request_missing_endpoint:
  "build_authorization_request ctx cfg s g = Inl e \<longleftrightarrow>
     grant_endpoint s g = None \<and> e = InvalidGrantConfiguration (ss_name s)"
  by (cases g) (auto simp: redirect_request_def token_request_def split: option.splits)

text \<open>Scheme-declared form parameters never replace a standard field of the token
  request: a standard field keeps its value, any other name takes the declared one.\<close>

lemma merge_form_keeps_standard_fields:
  "map_of (merge_form std extra) k = (case map_of std k of Some v \<Rightarrow> Some v | None \<Rightarrow> map_of extra k)"
proof (cases "map_of std k")
  case None
  then have "k \<notin> set (map fst std)" by (simp add: map_of_eq_None_iff)
  moreover have "map_of (filter (\<lambda>(k', v). k' \<notin> set (map fst std)) extra) k = map_of extra k"
    if "k \<notin> set (map fst std)"
    using that by (induction extra) (auto simp: rev_image_eqI)
  ultimately show ?thesis using None by (simp add: merge_form_def map_of_append map_add_def)
next
  case (Some v)
  then show ?thesis by (simp add: merge_form_def map_of_append)
qed

section \<open>The tests' schemes\<close>

text \<open>C5: the code exchange for the scheme of the tests "tokenRequest" (token URL
  \<open>http://tokenUrl\<close>), whatever form parameters it declares, posts a body that carries
  \<open>code_verifier\<close> with the stored verifier and \<open>grant_type=authorization_code\<close>,
  for every client, code, redirect URL and verifier.\<close>

theorem token_request_sends_verifier:
  "\<exists>r b. build_token_request ctx cfg (token_test_scheme extra) cid sec code ru (Some v) = Inr r \<and>
     req_body r = Some b \<and>
     param_str ''code_verifier'' v \<in> set (split_on CHR ''&'' b) \<and>
     param_str ''grant_type'' ''authorization_code'' \<in> set (split_on CHR ''&'' b)"
  by (rule build_token_request_verifier) (simp add: token_test_scheme_def)

text \<open>C19: on the tests' \<open>petstore_auth\<close> scheme (authorization URL only) the implicit
  and access-code grants build their request, while the client-credentials and password
  grants fail with \<open>InvalidGrantConfiguration\<close> naming \<open>petstore_auth\<close>: a missing
  token URL is reported, never defaulted.\<close>

theorem petstore_auth_grants:
  "build_authorization_request ctx cfg petstore_auth_scheme g = Inl e \<longleftrightarrow>
     (case g of GApplication _ _ _ \<Rightarrow> True | GPassword _ _ _ _ _ \<Rightarrow> True | _ \<Rightarrow> False) \<and>
     e = InvalidGrantConfiguration ''petstore_auth''"
  unfolding build_authorization_request_missing_endpoint
  by (cases g) (simp_all add: petstore_auth_scheme_def)

end
