(* ===== verification/Pkce.thy ===== *)
theory Pkce
  imports Grants "HOL-Library.Word"
begin

text \<open>
  The PKCE module of specification section 4.4 and the per-attempt \<open>GrantState\<close> of
  sections 3 and 5. \<open>generateCodeVerifier()\<close> draws random bytes
  (\<open>crypto.getRandomValues\<close> on a \<open>Uint8Array\<close>) and encodes them in base64url without
  padding; the bytes are the argument of the model, so that each draw is one input.
  \<open>deriveCodeChallenge(verifier)\<close> is the base64url encoding of the SHA-256 digest of
  the verifier's UTF-8 bytes; the digest is a parameter \<open>sha\<close> of 32 bytes. An
  authorization attempt of the access-code grant keeps its \<open>GrantState\<close> under the
  scheme's name from the authorization request to the code exchange, which posts the
  stored verifier and discards the state.
\<close>

unbundle bit_operations_syntax

type_synonym byte = "8 word"
type_synonym digest = "byte list \<Rightarrow> byte list"

section \<open>Base64url without padding\<close>

definition b64url_alphabet :: string where
  "b64url_alphabet = ''ABCDEFGHIJKLMNOPQRSTUVWXYZabcdefghijklmnopqrstuvwxyz0123456789-_''"

text \<open>The character of the low six bits of a byte.\<close>

definition b64_char :: "byte \<Rightarrow> char" where
  "b64_char w = b64url_alphabet ! unat (w AND 63)"

text \<open>Three bytes make four characters; a final group of one or two bytes makes two or
  three characters, and no \<open>=\<close> is appended.\<close>

fun b64url_encode :: "byte list \<Rightarrow> string" where
  "b64url_encode (a # b # c # rest) =
     b64_char (drop_bit 2 a) # b64_char (push_bit 4 a OR drop_bit 4 b) #
     b64_char (push_bit 2 b OR drop_bit 6 c) # b64_char c # b64url_encode rest"
| "b64url_encode [a, b] =
     [b64_char (drop_bit 2 a), b64_char (push_bit 4 a OR drop_bit 4 b), b64_char (push_bit 2 b)]"
| "b64url_encode [a] = [b64_char (drop_bit 2 a), b64_char (push_bit 4 a)]"
| "b64url_encode [] = []"

text \<open>The inverse, used in the proofs only: a character's position in the alphabet.\<close>

fun pos_of :: "char \<Rightarrow> string \<Rightarrow> nat option" where
  "pos_of c [] = None"
| "pos_of c (x # xs) = (if x = c then Some 0 else map_option Suc (pos_of c xs))"

definition b64_byte :: "char \<Rightarrow> byte option" where
  "b64_byte c = map_option word_of_nat (pos_of c b64url_alphabet)"

fun b64url_decode :: "string \<Rightarrow> byte list option" where
  "b64url_decode (c1 # c2 # c3 # c4 # rest) =
     (case (b64_byte c1, b64_byte c2, b64_byte c3, b64_byte c4, b64url_decode rest) of
        (Some a, Some b, Some c, Some d, Some r) \<Rightarrow>
          Some ((push_bit 2 a OR drop_bit 4 b) # (push_bit 4 b OR drop_bit 2 c) #
                (push_bit 6 c OR d) # r)
      | _ \<Rightarrow> None)"
| "b64url_decode [c1, c2, c3] =
     (case (b64_byte c1, b64_byte c2, b64_byte c3) of
        (Some a, Some b, Some c) \<Rightarrow> Some [push_bit 2 a OR drop_bit 4 b, push_bit 4 b OR drop_bit 2 c]
      | _ \<Rightarrow> None)"
| "b64url_decode [c1, c2] =
     (case (b64_byte c1, b64_byte c2) of
        (Some a, Some b) \<Rightarrow> Some [push_bit 2 a OR drop_bit 4 b]
      | _ \<Rightarrow> None)"
| "b64url_decode [_] = None"
| "b64url_decode [] = Some []"

section \<open>Verifier and challenge\<close>

text \<open>\<open>generateCodeVerifier()\<close> on the bytes drawn from the random source.\<close>

definition generate_code_verifier :: "byte list \<Rightarrow> string" where
  "generate_code_verifier rnd = b64url_encode rnd"

text \<open>The UTF-8 bytes of a string of Latin-1 code units, as the digest reads them.\<close>

definition utf8_char :: "char \<Rightarrow> byte list" where
  "utf8_char c =
     (let n = of_char c :: nat in
      if n < 128 then [word_of_nat n]
      else [0xC0 OR word_of_nat (n div 64), 0x80 OR (word_of_nat n AND 63)])"

definition utf8_encode :: "string \<Rightarrow> byte list" where
  "utf8_encode s = concat (map utf8_char s)"

text \<open>\<open>deriveCodeChallenge(verifier)\<close>.\<close>

definition derive_code_challenge :: "digest \<Rightarrow> string \<Rightarrow> string" where
  "derive_code_challenge sha v = b64url_encode (sha (utf8_encode v))"

text \<open>The verifier the specification asks for (RFC 7636, section 4.1): 43 to 128
  characters of the unreserved alphabet \<open>A-Z a-z 0-9 - . _ ~\<close>.\<close>

definition pkce_char :: "char \<Rightarrow> bool" where
  "pkce_char c \<longleftrightarrow> is_alpha c \<or> is_digit c \<or> c \<in> set ''-._~''"

definition code_verifier_ok :: "string \<Rightarrow> bool" where
  "code_verifier_ok v \<longleftrightarrow> 43 \<le> length v \<and> length v \<le> 128 \<and> list_all pkce_char v"

section \<open>The authorization attempt\<close>

text \<open>\<open>GrantState\<close>: owned by one attempt of the access-code grant.\<close>

record grant_state =
  gs_code_verifier :: "string option"
  gs_code_challenge :: "string option"
  gs_state :: string

type_synonym attempts = "string \<Rightarrow> grant_state option"

text \<open>A fresh attempt: with PKCE, a verifier from the random bytes and its challenge.\<close>

definition new_grant_state :: "digest \<Rightarrow> bool \<Rightarrow> byte list \<Rightarrow> string \<Rightarrow> grant_state" where
  "new_grant_state sha use_pkce rnd st =
     (if use_pkce
      then let v = generate_code_verifier rnd
           in \<lparr>gs_code_verifier = Some v, gs_code_challenge = Some (derive_code_challenge sha v),
               gs_state = st\<rparr>
      else \<lparr>gs_code_verifier = None, gs_code_challenge = None, gs_state = st\<rparr>)"

text \<open>The authorization request of the attempt; when it can be built the attempt's state
  is kept under the scheme's name, replacing the state of an earlier attempt.\<close>

definition start_attempt ::
  "api_ctx \<Rightarrow> auth_config \<Rightarrow> security_scheme \<Rightarrow> string \<Rightarrow> string \<Rightarrow> string list \<Rightarrow> grant_state
   \<Rightarrow> attempts \<Rightarrow> (auth_error + request) \<times> attempts" where
  "start_attempt ctx cfg s cid ru sc gs atts =
     (case build_authorization_request ctx cfg s
             (GAccessCode cid ru sc (gs_state gs) (gs_code_challenge gs)) of
        Inl e \<Rightarrow> (Inl e, atts)
      | Inr r \<Rightarrow> (Inr r, atts(ss_name s \<mapsto> gs)))"

text \<open>The code exchange of the scheme's attempt: it posts the stored verifier and
  discards the state; without an attempt there is nothing to exchange.\<close>

definition finish_attempt ::
  "api_ctx \<Rightarrow> auth_config \<Rightarrow> security_scheme \<Rightarrow> string \<Rightarrow> string option \<Rightarrow> string \<Rightarrow> string
   \<Rightarrow> attempts \<Rightarrow> (auth_error + request) option \<times> attempts" where
  "finish_attempt ctx cfg s cid sec code ru atts =
     (case atts (ss_name s) of
        None \<Rightarrow> (None, atts)
      | Some gs \<Rightarrow> (Some (build_token_request ctx cfg s cid sec code ru (gs_code_verifier gs)),
                   atts(ss_name s := None)))"

datatype attempt_event =
    Start security_scheme string string "string list" grant_state
  | Finish security_scheme string "string option" string string

fun event_scheme :: "attempt_event \<Rightarrow> string" where
  "event_scheme (Start s _ _ _ _) = ss_name s"
| "event_scheme (Finish s _ _ _ _) = ss_name s"

fun attempt_step :: "api_ctx \<Rightarrow> auth_config \<Rightarrow> attempts \<Rightarrow> attempt_event \<Rightarrow> attempts" where
  "attempt_step ctx cfg atts (Start s cid ru sc gs) = snd (start_attempt ctx cfg s cid ru sc gs atts)"
| "attempt_step ctx cfg atts (Finish s cid sec code ru) =
     snd (finish_attempt ctx cfg s cid sec code ru atts)"

definition attempt_run :: "api_ctx \<Rightarrow> auth_config \<Rightarrow> attempt_event list \<Rightarrow> attempts \<Rightarrow> attempts" where
  "attempt_run ctx cfg es atts = fold (\<lambda>e a. attempt_step ctx cfg a e) es atts"

section \<open>Lemmas\<close>

subsection \<open>Bytes\<close>

lemma less8: "(n::nat) < 8 \<longleftrightarrow> n = 0 \<or> n = 1 \<or> n = 2 \<or> n = 3 \<or> n = 4 \<or> n = 5 \<or> n = 6 \<or> n = 7"
  by auto

lemma suc_num: "Suc (Suc 0) = 2" "Suc (Suc (Suc 0)) = 3" "Suc (Suc (Suc (Suc 0))) = 4"
  by simp_all

lemmas byte_bits = bit_simps less8 suc_num

text \<open>Reassembling the bytes from the six-bit groups.\<close>

lemma regroup_first:
  "push_bit 2 (drop_bit 2 a AND 63) OR drop_bit 4 ((push_bit 4 a OR drop_bit 4 b) AND 63) = (a::byte)"
  "push_bit 2 (drop_bit 2 a AND 63) OR drop_bit 4 (push_bit 4 a AND 63) = (a::byte)"
  by (rule bit_word_eqI; auto simp: byte_bits)+

lemma regroup_second:
  "push_bit 4 ((push_bit 4 a OR drop_bit 4 b) AND 63) OR drop_bit 2 ((push_bit 2 b OR drop_bit 6 c) AND 63)
     = (b::byte)"
  "push_bit 4 ((push_bit 4 a OR drop_bit 4 b) AND 63) OR drop_bit 2 (push_bit 2 b AND 63) = (b::byte)"
  by (rule bit_word_eqI; auto simp: byte_bits)+

lemma regroup_third: "push_bit 6 ((push_bit 2 b OR drop_bit 6 c) AND 63) OR (c AND 63) = (c::byte)"
  by (rule bit_word_eqI) (auto simp: byte_bits)

lemma unat_and_63: "unat (w AND 63 :: byte) < 64"
proof -
  have "unat (w AND 63) \<le> unat (63 :: byte)"
    by (rule word_and_le1 [THEN word_le_nat_alt [THEN iffD1]])
  then show ?thesis by simp
qed

subsection \<open>The alphabet\<close>

lemma pos_of_nth: "distinct xs \<Longrightarrow> n < length xs \<Longrightarrow> pos_of (xs ! n) xs = Some n"
proof (induction xs arbitrary: n)
  case (Cons x xs)
  then show ?case by (cases n) auto
qed simp

lemma b64url_alphabet_distinct: "distinct b64url_alphabet" "length b64url_alphabet = 64"
  by (simp_all add: b64url_alphabet_def)

lemma b64url_alphabet_chars:
  "list_all pkce_char b64url_alphabet" "list_all uri_unreserved b64url_alphabet"
  by (simp_all add: b64url_alphabet_def pkce_char_def uri_unreserved_def is_alpha_def is_digit_def)

lemma b64_char_alphabet: "b64_char w \<in> set b64url_alphabet"
  using unat_and_63 [of w] b64url_alphabet_distinct(2) by (simp add: b64_char_def)

lemma b64_byte_char: "b64_byte (b64_char w) = Some (w AND 63)"
  using pos_of_nth [of b64url_alphabet] b64url_alphabet_distinct unat_and_63 [of w]
  by (simp add: b64_byte_def b64_char_def)

subsection \<open>Base64url\<close>

text \<open>Decoding undoes encoding, so that different byte strings have different
  encodings.\<close>

lemma b64url_decode_encode: "b64url_decode (b64url_encode bs) = Some bs"
  by (induction bs rule: b64url_encode.induct)
     (simp_all only: b64url_encode.simps b64url_decode.simps b64_byte_char option.case prod.case
        regroup_first regroup_second regroup_third)

lemma b64url_encode_inj: "b64url_encode xs = b64url_encode ys \<Longrightarrow> xs = ys"
  by (metis b64url_decode_encode option.inject)

lemma b64url_encode_length: "length (b64url_encode bs) = (4 * length bs + 2) div 3"
  by (induction bs rule: b64url_encode.induct) simp_all

lemma b64url_encode_alphabet: "set (b64url_encode bs) \<subseteq> set b64url_alphabet"
  by (induction bs rule: b64url_encode.induct) (simp_all add: b64_char_alphabet)

lemma b64url_encode_pkce_chars: "list_all pkce_char (b64url_encode bs)"
  using b64url_encode_alphabet [of bs] b64url_alphabet_chars(1) by (auto simp: list_all_iff)

lemma encode_component_unreserved: "list_all uri_unreserved s \<Longrightarrow> encode_component s = s"
  by (induction s) (simp_all add: encode_component_def encode_char_def)

lemma encode_component_b64url: "encode_component (b64url_encode bs) = b64url_encode bs"
  using b64url_encode_alphabet [of bs] b64url_alphabet_chars(2)
  by (intro encode_component_unreserved) (auto simp: list_all_iff)

subsection \<open>Verifier and challenge\<close>

lemma b64url_length_bounds:
  "32 \<le> length bs \<Longrightarrow> length bs \<le> 96 \<Longrightarrow>
   43 \<le> length (b64url_encode bs) \<and> length (b64url_encode bs) \<le> 128"
  unfolding b64url_encode_length by presburger

lemma generate_code_verifier_ok:
  "32 \<le> length rnd \<Longrightarrow> length rnd \<le> 96 \<Longrightarrow> code_verifier_ok (generate_code_verifier rnd)"
  using b64url_length_bounds b64url_encode_pkce_chars
  by (simp add: code_verifier_ok_def generate_code_verifier_def)

text \<open>A SHA-256 digest has 32 bytes, so every challenge has 43 characters of the
  base64url alphabet, which \<open>encodeURIComponent\<close> leaves as they are.\<close>

lemma derive_code_challenge_bounds:
  assumes "length (sha (utf8_encode v)) = 32"
  shows "length (derive_code_challenge sha v) = 43 \<and>
         list_all pkce_char (derive_code_challenge sha v) \<and>
         encode_component (derive_code_challenge sha v) = derive_code_challenge sha v"
  using assms b64url_encode_pkce_chars encode_component_b64url
  by (simp add: derive_code_challenge_def b64url_encode_length)

subsection \<open>Attempts\<close>

lemma new_grant_state_pkce:
  "gs_code_verifier (new_grant_state sha True rnd st) = Some (generate_code_verifier rnd)"
  "gs_code_challenge (new_grant_state sha True rnd st) =
     Some (derive_code_challenge sha (generate_code_verifier rnd))"
  "gs_state (new_grant_state sha use_pkce rnd st) = st"
  by (simp_all add: new_grant_state_def Let_def)

text \<open>An event of another scheme does not read or write the scheme's attempt.\<close>

lemma attempt_step_other:
  assumes "event_scheme e \<noteq> n"
  shows "attempt_step ctx cfg (atts(n := x)) e = (attempt_step ctx cfg atts e)(n := x)"
proof (cases e)
  case (Start s cid ru sc gs)
  then show ?thesis using assms
    by (auto simp: start_attempt_def fun_upd_twist split: sum.split)
next
  case (Finish s cid sec code ru)
  then show ?thesis using assms
    by (auto simp: finish_attempt_def fun_upd_twist split: option.split)
qed

lemma attempt_run_other:
  "list_all (\<lambda>e. event_scheme e \<noteq> n) es \<Longrightarrow>
   attempt_run ctx cfg es (atts(n := x)) = (attempt_run ctx cfg es atts)(n := x)"
  by (induction es arbitrary: atts) (simp_all add: attempt_run_def attempt_step_other)

lemma finish_attempt_stored:
  "finish_attempt ctx cfg s cid sec code ru (atts(ss_name s \<mapsto> gs)) =
     (Some (build_token_request ctx cfg s cid sec code ru (gs_code_verifier gs)),
      atts(ss_name s := None))"
  by (simp add: finish_attempt_def)

text \<open>A stored attempt survives the events of other schemes, and its exchange leaves
  the attempts exactly as if it had never been started.\<close>

lemma finish_after_other_events:
  assumes "list_all (\<lambda>e. event_scheme e \<noteq> ss_name s) es"
  shows "finish_attempt ctx cfg s cid sec code ru (attempt_run ctx cfg es (atts(ss_name s \<mapsto> gs))) =
           (Some (build_token_request ctx cfg s cid sec code ru (gs_code_verifier gs)),
            (attempt_run ctx cfg es atts)(ss_name s := None))"
  using attempt_run_other [OF assms, of ctx cfg atts "Some gs"] finish_attempt_stored
  by simp

lemma start_attempt_Inr:
  "start_attempt ctx cfg s cid ru sc gs atts = (Inr r, atts') \<Longrightarrow>
   build_authorization_request ctx cfg s (GAccessCode cid ru sc (gs_state gs) (gs_code_challenge gs)) = Inr r \<and>
   atts' = atts(ss_name s \<mapsto> gs)"
  by (auto simp: start_attempt_def split: sum.splits)

text \<open>The PKCE binding: an attempt started with a fresh verifier sends in its
  authorization request the challenge of the very verifier that its code exchange
  posts, whatever events of other schemes come in between.\<close>

lemma pkce_binding:
  assumes "start_attempt ctx cfg s cid ru sc (new_grant_state sha True rnd st) atts = (Inr areq, atts1)"
    and "list_all (\<lambda>e. event_scheme e \<noteq> ss_name s) es"
  shows "build_authorization_request ctx cfg s
           (GAccessCode cid ru sc st (Some (derive_code_challenge sha (generate_code_verifier rnd)))) =
           Inr areq \<and>
         fst (finish_attempt ctx cfg s cid' sec code ru' (attempt_run ctx cfg es atts1)) =
           Some (build_token_request ctx cfg s cid' sec code ru' (Some (generate_code_verifier rnd)))"
  using start_attempt_Inr [OF assms(1)] finish_after_other_events [OF assms(2)]
  by (simp add: new_grant_state_pkce)

section \<open>Properties\<close>

text \<open>C26: a verifier generated from 32 to 96 random bytes has 43 to 128 characters, all
  of the unreserved alphabet, and the code exchange of the tests' scheme posts it as
  \<open>code_verifier=\<close> followed by the verifier unchanged.\<close>

theorem pkce_verifier_bounds:
  assumes "32 \<le> length rnd" and "length rnd \<le> 96"
  shows "code_verifier_ok (generate_code_verifier rnd) \<and>
         (\<exists>r b. build_token_request ctx cfg (token_test_scheme extra) cid sec code ru
                  (gs_code_verifier (new_grant_state sha True rnd st)) = Inr r \<and>
                req_body r = Some b \<and>
                ''code_verifier='' @ generate_code_verifier rnd \<in> set (split_on CHR ''&'' b))"
proof -
  have "encode_component (generate_code_verifier rnd) = generate_code_verifier rnd"
    by (simp add: generate_code_verifier_def encode_component_b64url)
  then have p: "param_str ''code_verifier'' (generate_code_verifier rnd) =
                ''code_verifier='' @ generate_code_verifier rnd"
    by (simp add: param_str_def encode_component_def encode_char_def uri_unreserved_def
                  is_alpha_def)
  have "ss_token_url (token_test_scheme extra) = Some ''http://tokenUrl''"
    by (simp add: token_test_scheme_def)
  then obtain r b where
    "build_token_request ctx cfg (token_test_scheme extra) cid sec code ru
       (Some (generate_code_verifier rnd)) = Inr r"
    and "req_body r = Some b"
    and "param_str ''code_verifier'' (generate_code_verifier rnd) \<in> set (split_on CHR ''&'' b)"
    using build_token_request_verifier by blast
  then show ?thesis
    using p generate_code_verifier_ok [OF assms] by (auto simp: new_grant_state_pkce)
qed

lemma pkce_verifier_bounds_witness:
  "32 \<le> length (replicate 32 (0::byte)) \<and> length (replicate 32 (0::byte)) \<le> 96 \<and>
   code_verifier_ok (generate_code_verifier (replicate 32 0)) \<and>
   (\<exists>r b. build_token_request swagger2_query_ctx no_extra_config (token_test_scheme []) ''c'' None ''x'' ''r''
            (gs_code_verifier (new_grant_state (\<lambda>_. []) True (replicate 32 0) ''s'')) = Inr r \<and>
          req_body r = Some b \<and>
          ''code_verifier='' @ generate_code_verifier (replicate 32 0) \<in> set (split_on CHR ''&'' b))"
  using pkce_verifier_bounds [of "replicate 32 0"] by simp

text \<open>C27: attempts of different schemes do not interfere. Whatever events of other
  schemes come between storing an attempt for the tests' token scheme and its code
  exchange, the exchange posts the verifier of that attempt, and afterwards the
  attempts are exactly those the other events leave: nothing of the finished attempt
  is retained.\<close>

theorem pkce_exchange_after_interleaving:
  assumes "gs_code_verifier gs = Some v"
    and "list_all (\<lambda>e. event_scheme e \<noteq> ss_name (token_test_scheme extra)) es"
  shows "\<exists>r b. fst (finish_attempt ctx cfg (token_test_scheme extra) cid sec code ru
                 (attempt_run ctx cfg es (atts(ss_name (token_test_scheme extra) \<mapsto> gs)))) =
                 Some (Inr r) \<and>
               req_body r = Some b \<and> param_str ''code_verifier'' v \<in> set (split_on CHR ''&'' b) \<and>
               snd (finish_attempt ctx cfg (token_test_scheme extra) cid sec code ru
                 (attempt_run ctx cfg es (atts(ss_name (token_test_scheme extra) \<mapsto> gs)))) =
                 (attempt_run ctx cfg es atts)(ss_name (token_test_scheme extra) := None)"
proof -
  have "ss_token_url (token_test_scheme extra) = Some ''http://tokenUrl''"
    by (simp add: token_test_scheme_def)
  then obtain r b where
    "build_token_request ctx cfg (token_test_scheme extra) cid sec code ru (Some v) = Inr r"
    and "req_body r = Some b"
    and "param_str ''code_verifier'' v \<in> set (split_on CHR ''&'' b)"
    using build_token_request_verifier by blast
  then show ?thesis
    using finish_after_other_events [OF assms(2)] assms(1) by simp
qed

lemma pkce_exchange_after_interleaving_witness:
  "gs_code_verifier \<lparr>gs_code_verifier = Some ''v'', gs_code_challenge = None, gs_state = ''s''\<rparr> =
     Some ''v'' \<and>
   list_all (\<lambda>e. event_scheme e \<noteq> ss_name (token_test_scheme []))
     [Finish petstore_auth_scheme ''c'' None ''x'' ''r''] \<and>
   (\<exists>r b. fst (finish_attempt swagger2_query_ctx no_extra_config (token_test_scheme []) ''c'' None ''x'' ''r''
            (attempt_run swagger2_query_ctx no_extra_config [Finish petstore_auth_scheme ''c'' None ''x'' ''r'']
              (Map.empty(ss_name (token_test_scheme []) \<mapsto>
                 \<lparr>gs_code_verifier = Some ''v'', gs_code_challenge = None, gs_state = ''s''\<rparr>)))) =
            Some (Inr r) \<and>
          req_body r = Some b \<and> param_str ''code_verifier'' ''v'' \<in> set (split_on CHR ''&'' b) \<and>
          snd (finish_attempt swagger2_query_ctx no_extra_config (token_test_scheme []) ''c'' None ''x'' ''r''
            (attempt_run swagger2_query_ctx no_extra_config [Finish petstore_auth_scheme ''c'' None ''x'' ''r'']
              (Map.empty(ss_name (token_test_scheme []) \<mapsto>
                 \<lparr>gs_code_verifier = Some ''v'', gs_code_challenge = None, gs_state = ''s''\<rparr>)))) =
            (attempt_run swagger2_query_ctx no_extra_config [Finish petstore_auth_scheme ''c'' None ''x'' ''r'']
               Map.empty)(ss_name (token_test_scheme []) := None))"
proof -
  have "list_all (\<lambda>e. event_scheme e \<noteq> ss_name (token_test_scheme []))
          [Finish petstore_auth_scheme ''c'' None ''x'' ''r'']"
    by (simp add: petstore_auth_scheme_def token_test_scheme_def)
  then show ?thesis
    using pkce_exchange_after_interleaving [of
      "\<lparr>gs_code_verifier = Some ''v'', gs_code_challenge = None, gs_state = ''s''\<rparr>" "''v''" "[]"
      "[Finish petstore_auth_scheme ''c'' None ''x'' ''r'']"]
    by simp
qed

end
