(* ===== verification/Json.thy ===== *)
theory Json
  imports Prelude
begin

text \<open>
  \<open>JSON.stringify\<close> and \<open>JSON.parse\<close> (ECMA-262 25.5) on the values of the model,
  which the persistence of the authorization store writes and reads back. The values of
  the model have no arrays and only integer numbers: the parser rejects an array and a
  number with a fraction or an exponent, as well as a \<open>\u\<close> escape above the Latin-1
  range, which are text the model cannot represent. A duplicate key keeps the position of
  its first occurrence and the value of its last, as \<open>JSON.parse\<close> builds objects.
  The parser descends with fuel: each call reads at least one character, so the length
  of the text plus one is enough, which the round-trip lemmas show for printed text.
\<close>

section \<open>Printing\<close>

text \<open>\<open>JSON.stringify\<close> of a string: the quote, the backslash and the control characters
  are escaped, the short forms first.\<close>

definition hex_lower :: "nat \<Rightarrow> char" where
  "hex_lower n = ''0123456789abcdef'' ! (n mod 16)"

definition json_escape_char :: "char \<Rightarrow> string" where
  "json_escape_char c =
     (if c = CHR 0x22 then [CHR 0x5C, CHR 0x22]
      else if c = CHR 0x5C then [CHR 0x5C, CHR 0x5C]
      else if of_char c = (8::nat) then [CHR 0x5C, CHR ''b'']
      else if of_char c = (12::nat) then [CHR 0x5C, CHR ''f'']
      else if of_char c = (10::nat) then [CHR 0x5C, CHR ''n'']
      else if of_char c = (13::nat) then [CHR 0x5C, CHR ''r'']
      else if of_char c = (9::nat) then [CHR 0x5C, CHR ''t'']
      else if of_char c < (32::nat) then
        [CHR 0x5C, CHR ''u'', CHR ''0'', CHR ''0'', hex_lower (of_char c div 16), hex_lower (of_char c)]
      else [c])"

definition json_string :: "string \<Rightarrow> string" where
  "json_string s = CHR 0x22 # concat (map json_escape_char s) @ [CHR 0x22]"

text \<open>\<open>JSON.stringify(v)\<close>: \<open>undefined\<close> has no text, and an object member whose
  value is \<open>undefined\<close> is left out.\<close>

fun json_text :: "jsval \<Rightarrow> string option"
  and json_members :: "(string \<times> jsval) list \<Rightarrow> string list" where
  "json_text JUndef = None"
| "json_text JNull = Some ''null''"
| "json_text (JBool b) = Some (if b then ''true'' else ''false'')"
| "json_text (JNum i) = Some (int_str i)"
| "json_text (JStr s) = Some (json_string s)"
| "json_text (JObj kvs) = Some (CHR ''{'' # join_with '','' (json_members kvs) @ ''}'')"
| "json_members [] = []"
| "json_members ((k, v) # kvs) =
     (case json_text v of
        None \<Rightarrow> json_members kvs
      | Some t \<Rightarrow> (json_string k @ CHR '':'' # t) # json_members kvs)"

section \<open>Parsing\<close>

text \<open>JSON white space: space, tab, line feed, carriage return.\<close>

definition is_json_ws :: "char \<Rightarrow> bool" where
  "is_json_ws c \<longleftrightarrow> c \<in> set [CHR 0x20, CHR 0x09, CHR 0x0A, CHR 0x0D]"

definition skip_ws :: "string \<Rightarrow> string" where
  "skip_ws s = dropWhile is_json_ws s"

definition hex_val :: "char \<Rightarrow> nat option" where
  "hex_val c =
     (if is_digit c then Some (of_char c - 48)
      else if CHR ''a'' \<le> c \<and> c \<le> CHR ''f'' then Some (of_char c - 87)
      else if CHR ''A'' \<le> c \<and> c \<le> CHR ''F'' then Some (of_char c - 55)
      else None)"

text \<open>The four hex digits of \<open>\uXXXX\<close>.\<close>

definition hex4 :: "string \<Rightarrow> nat option" where
  "hex4 ds =
     (if length ds = 4 \<and> list_all (\<lambda>d. hex_val d \<noteq> None) ds
      then Some (foldl (\<lambda>a d. 16 * a + the (hex_val d)) 0 ds) else None)"

text \<open>The one-character escapes \<open>\" \\ \/ \b \f \n \r \t\<close>.\<close>

definition unescape :: "char \<Rightarrow> char option" where
  "unescape e =
     (if e = CHR 0x22 then Some (CHR 0x22)
      else if e = CHR 0x5C then Some (CHR 0x5C)
      else if e = CHR ''/'' then Some (CHR ''/'')
      else if e = CHR ''b'' then Some (char_of (8::nat))
      else if e = CHR ''f'' then Some (char_of (12::nat))
      else if e = CHR ''n'' then Some (char_of (10::nat))
      else if e = CHR ''r'' then Some (char_of (13::nat))
      else if e = CHR ''t'' then Some (char_of (9::nat))
      else None)"

text \<open>The rest of a string literal after its opening quote: its characters and the
  text after the closing quote. An unescaped control character is an error.\<close>

function parse_string :: "string \<Rightarrow> (string \<times> string) option" where
  "parse_string [] = None"
| "parse_string (c # r) =
     (if c = CHR 0x22 then Some ([], r)
      else if c = CHR 0x5C then
        (case r of
           [] \<Rightarrow> None
         | e # r' \<Rightarrow>
             if e = CHR ''u'' then
               (case hex4 (take 4 r') of
                  Some n \<Rightarrow>
                    if n < 256 then map_option (\<lambda>(s, rest). (char_of n # s, rest)) (parse_string (drop 4 r'))
                    else None
                | None \<Rightarrow> None)
             else
               (case unescape e of
                  Some ch \<Rightarrow> map_option (\<lambda>(s, rest). (ch # s, rest)) (parse_string r')
                | None \<Rightarrow> None))
      else if of_char c < (32::nat) then None
      else map_option (\<lambda>(s, rest). (c # s, rest)) (parse_string r))"
  by pat_completeness auto
termination
  by (relation "measure length") auto

definition digits_val :: "string \<Rightarrow> nat" where
  "digits_val ds = foldl (\<lambda>a d. 10 * a + (of_char d - 48)) 0 ds"

text \<open>An integer: \<open>0\<close> alone, or a non-zero digit and more digits.\<close>

definition parse_nat :: "string \<Rightarrow> (nat \<times> string) option" where
  "parse_nat s =
     (case s of
        [] \<Rightarrow> None
      | c # r \<Rightarrow>
          if c = CHR ''0'' then Some (0, r)
          else if is_digit c then Some (digits_val (takeWhile is_digit s), dropWhile is_digit s)
          else None)"

definition parse_number :: "string \<Rightarrow> (jsval \<times> string) option" where
  "parse_number s =
     (let neg = (s \<noteq> [] \<and> hd s = CHR ''-'');
          s' = (if neg then tl s else s)
      in case parse_nat s' of
           None \<Rightarrow> None
         | Some (n, r) \<Rightarrow>
             if r \<noteq> [] \<and> hd r \<in> set ''.eE'' then None
             else Some (JNum (if neg then - int n else int n), r))"

text \<open>A value, and the members of an object after its \<open>{\<close>, with the fuel \<open>n\<close>.\<close>

fun parse_value :: "nat \<Rightarrow> string \<Rightarrow> (jsval \<times> string) option"
  and parse_members :: "nat \<Rightarrow> jsobj \<Rightarrow> string \<Rightarrow> (jsval \<times> string) option" where
  "parse_value 0 s = None"
| "parse_value (Suc n) s =
     (case skip_ws s of
        [] \<Rightarrow> None
      | c # r \<Rightarrow>
          if c = CHR ''{'' then
            (if skip_ws r \<noteq> [] \<and> hd (skip_ws r) = CHR ''}'' then Some (JObj [], tl (skip_ws r))
             else parse_members n [] (skip_ws r))
          else if c = CHR 0x22 then map_option (\<lambda>(str, rest). (JStr str, rest)) (parse_string r)
          else if take 4 (c # r) = ''true'' then Some (JBool True, drop 4 (c # r))
          else if take 5 (c # r) = ''false'' then Some (JBool False, drop 5 (c # r))
          else if take 4 (c # r) = ''null'' then Some (JNull, drop 4 (c # r))
          else if c = CHR ''-'' \<or> is_digit c then parse_number (c # r)
          else None)"
| "parse_members 0 acc s = None"
| "parse_members (Suc n) acc s =
     (case s of
        [] \<Rightarrow> None
      | c # r \<Rightarrow>
          if c \<noteq> CHR 0x22 then None
          else
            (case parse_string r of
               None \<Rightarrow> None
             | Some (k, r1) \<Rightarrow>
                 if skip_ws r1 = [] \<or> hd (skip_ws r1) \<noteq> CHR '':'' then None
                 else
                   (case parse_value n (tl (skip_ws r1)) of
                      None \<Rightarrow> None
                    | Some (v, r3) \<Rightarrow>
                        (let acc' = AList.update k v acc; r4 = skip_ws r3
                         in if r4 \<noteq> [] \<and> hd r4 = CHR '','' then parse_members n acc' (skip_ws (tl r4))
                            else if r4 \<noteq> [] \<and> hd r4 = CHR ''}'' then Some (JObj acc', tl r4)
                            else None))))"

text \<open>\<open>JSON.parse(text)\<close>: a value, then only white space; \<open>None\<close> is the
  SyntaxError.\<close>

definition json_parse :: "string \<Rightarrow> jsval option" where
  "json_parse t =
     (case parse_value (Suc (length t)) t of
        Some (v, r) \<Rightarrow> if skip_ws r = [] then Some v else None
      | None \<Rightarrow> None)"


section \<open>Round trip\<close>

text \<open>The values \<open>JSON.stringify\<close> prints and \<open>JSON.parse\<close> reads back as they
  are: no \<open>undefined\<close> anywhere, and distinct keys in every object.\<close>

fun json_wf :: "jsval \<Rightarrow> bool"
  and members_wf :: "jsobj \<Rightarrow> bool" where
  "json_wf JUndef = False"
| "json_wf (JObj kvs) = (distinct (map fst kvs) \<and> members_wf kvs)"
| "json_wf _ = True"
| "members_wf [] = True"
| "members_wf ((k, v) # kvs) = (json_wf v \<and> members_wf kvs)"

text \<open>What may follow a value inside the printed text: nothing, a comma or a brace.\<close>

definition json_stop :: "string \<Rightarrow> bool" where
  "json_stop r \<longleftrightarrow> r = [] \<or> hd r = CHR '','' \<or> hd r = CHR ''}''"

lemma skip_ws_Nil [simp]: "skip_ws [] = []"
  by (simp add: skip_ws_def)

lemma skip_ws_Cons: "\<not> is_json_ws c \<Longrightarrow> skip_ws (c # r) = c # r"
  by (simp add: skip_ws_def)

lemma hex_val_hex_lower: "k < 16 \<Longrightarrow> hex_val (hex_lower k) = Some k"
proof -
  have "list_all (\<lambda>k. hex_val (hex_lower k) = Some k) [0..<16]"
    by code_simp
  then show "k < 16 \<Longrightarrow> hex_val (hex_lower k) = Some k" by (simp add: list_all_iff)
qed

lemma parse_string_Cons:
  "c \<noteq> CHR 0x22 \<Longrightarrow> c \<noteq> CHR 0x5C \<Longrightarrow> \<not> of_char c < (32::nat) \<Longrightarrow>
   parse_string (c # r) = map_option (\<lambda>(s, rest). (c # s, rest)) (parse_string r)"
  by simp

lemma char_of_eq: "of_char c = (n::nat) \<Longrightarrow> char_of n = c"
  by auto

text \<open>Each escaped character reads back as itself.\<close>

lemma parse_string_escape_char:
  "parse_string (json_escape_char c @ r) = map_option (\<lambda>(s, rest). (c # s, rest)) (parse_string r)"
proof -
  have cc: "char_of (of_char c :: nat) = c" by simp
  consider "c = CHR 0x22" | "c = CHR 0x5C"
    | "c \<noteq> CHR 0x22" "c \<noteq> CHR 0x5C" "of_char c \<in> {8, 9, 10, 12, 13 :: nat}"
    | "of_char c < (32::nat)" "of_char c \<notin> {8, 9, 10, 12, 13 :: nat}"
    | "c \<noteq> CHR 0x22" "c \<noteq> CHR 0x5C" "\<not> of_char c < (32::nat)"
    by fastforce
  then show ?thesis
  proof cases
    case 3
    then show ?thesis by (auto simp: json_escape_char_def unescape_def dest: char_of_eq)
  next
    case 4
    let ?n = "of_char c :: nat"
    have d: "?n div 16 < 16" "?n mod 16 < 16" using 4 by auto
    have h0: "hex_val (CHR ''0'') = Some 0" by (simp add: hex_val_def is_digit_def)
    have h1: "hex_val (hex_lower (?n div 16)) = Some (?n div 16)" using d(1) by (rule hex_val_hex_lower)
    have h2: "hex_val (hex_lower ?n) = Some (?n mod 16)"
      using hex_val_hex_lower [of "?n mod 16"] by (simp add: hex_lower_def)
    have "hex4 [CHR ''0'', CHR ''0'', hex_lower (?n div 16), hex_lower ?n] = Some ?n"
      by (simp add: hex4_def h0 h1 h2)
    moreover have "c \<noteq> CHR 0x22" "c \<noteq> CHR 0x5C" using 4 by auto
    ultimately show ?thesis using 4 cc by (auto simp: json_escape_char_def)
  qed (auto simp: json_escape_char_def unescape_def)
qed

lemma parse_json_string:
  "parse_string (concat (map json_escape_char s) @ CHR 0x22 # r) = Some (s, r)"
  by (induction s) (simp_all add: parse_string_escape_char)


text \<open>Integers: the decimal text of a number reads back as the number.\<close>

declare nat_str.simps [simp del]

lemma char_of_48: "char_of (48::nat) = CHR ''0''"
  by (rule of_char_eqI [where ?'a = nat]) simp

lemma nat_str_zero: "nat_str 0 = [CHR ''0'']"
  by (subst nat_str.simps) (simp add: char_of_48)

lemma nat_str_digit: "(k::nat) < 10 \<Longrightarrow> is_digit (char_of (48 + k)) \<and> of_char (char_of (48 + k) :: char) = 48 + k"
  by (simp add: is_digit_def less_eq_char_def)

lemma nat_str_digits: "list_all is_digit (nat_str n)"
  by (induction n rule: nat_str.induct) (subst nat_str.simps, simp add: nat_str_digit)

lemma nat_str_not_Nil: "nat_str n \<noteq> []"
  by (subst nat_str.simps) simp

lemma digits_val_nat_str: "digits_val (nat_str n) = n"
proof (induction n rule: nat_str.induct)
  case (1 n)
  then show ?case
    by (subst nat_str.simps) (simp add: digits_val_def nat_str_digit)
qed

lemma nat_str_hd_zero: "hd (nat_str n) = CHR ''0'' \<Longrightarrow> n = 0"
proof (induction n rule: nat_str.induct)
  case (1 n)
  show ?case
  proof (cases "n < 10")
    case True
    then have "of_char (char_of (48 + n) :: char) = (of_char (CHR ''0'') :: nat)"
      using 1(2) by (simp add: nat_str.simps [of n])
    then show ?thesis using True nat_str_digit [of n] by simp
  next
    case False
    then have "hd (nat_str (n div 10)) = CHR ''0''"
      using 1(2) nat_str_not_Nil [of "n div 10"] by (simp add: nat_str.simps [of n])
    then show ?thesis using 1(1) False by simp
  qed
qed

lemma parse_nat_str:
  assumes "json_stop r"
  shows "parse_nat (nat_str n @ r) = Some (n, r)"
proof -
  have r: "takeWhile is_digit r = [] \<and> dropWhile is_digit r = r"
    using assms by (cases r) (auto simp: json_stop_def is_digit_def)
  have d: "\<And>x. x \<in> set (nat_str n) \<Longrightarrow> is_digit x" using nat_str_digits by (simp add: list_all_iff)
  show ?thesis
  proof (cases "n = 0")
    case True
    then show ?thesis by (simp add: parse_nat_def nat_str_zero)
  next
    case False
    then obtain c cs where c: "nat_str n = c # cs" "c \<noteq> CHR ''0''"
      using nat_str_not_Nil [of n] nat_str_hd_zero [of n] by (cases "nat_str n") auto
    have "takeWhile is_digit (nat_str n @ r) = nat_str n" "dropWhile is_digit (nat_str n @ r) = r"
      using d r by (simp_all add: takeWhile_append2 dropWhile_append2)
    moreover have "is_digit c" using d c by simp
    ultimately show ?thesis using c digits_val_nat_str [of n] by (simp add: parse_nat_def)
  qed
qed

lemma parse_int_str:
  assumes "json_stop r"
  shows "parse_number (int_str i @ r) = Some (JNum i, r)"
proof -
  have stop: "\<not> (r \<noteq> [] \<and> hd r \<in> set ''.eE'')" using assms by (auto simp: json_stop_def)
  show ?thesis
  proof (cases "i < 0")
    case True
    then show ?thesis using parse_nat_str [OF assms, of "nat (- i)"] stop
      by (simp add: parse_number_def int_str_def)
  next
    case False
    have "nat_str (nat i) \<noteq> [] \<and> hd (nat_str (nat i)) \<noteq> CHR ''-''"
      using nat_str_not_Nil nat_str_digits [of "nat i"]
      by (cases "nat_str (nat i)") (auto simp: is_digit_def)
    then show ?thesis using False parse_nat_str [OF assms, of "nat i"] stop
      by (simp add: parse_number_def int_str_def)
  qed
qed


text \<open>Values.\<close>

lemma int_str_start: "int_str i \<noteq> [] \<and> (hd (int_str i) = CHR ''-'' \<or> is_digit (hd (int_str i)))"
  using nat_str_not_Nil [of "nat i"] nat_str_digits [of "nat i"]
  by (cases "nat_str (nat i)") (auto simp: int_str_def)

lemma json_text_wf:
  shows "json_wf v \<Longrightarrow> \<exists>t. json_text v = Some t"
    and "members_wf kvs \<Longrightarrow>
           json_members kvs = map (\<lambda>(k, v). json_string k @ CHR '':'' # the (json_text v)) kvs"
  by (induction v and kvs rule: json_wf_members_wf.induct) auto

lemma update_new: "k \<notin> set (map fst al) \<Longrightarrow> AList.update k v al = al @ [(k, v)]"
  by (induction al) auto

lemma json_string_start: "json_string k = CHR 0x22 # concat (map json_escape_char k) @ [CHR 0x22]"
  by (simp add: json_string_def)

lemma skip_ws_quote: "skip_ws (CHR 0x22 # r) = CHR 0x22 # r"
  by (simp add: skip_ws_Cons is_json_ws_def)

lemma parse_value_atom:
  assumes "json_stop r" and "json_text v = Some t" and "length t \<le> n"
    and "\<forall>kvs. v \<noteq> JObj kvs" and "v \<noteq> JUndef"
  shows "parse_value n (t @ r) = Some (v, r)"
proof -
  have "t \<noteq> []" using assms(2) int_str_start by (cases v) (auto simp: json_string_def split: if_splits)
  then obtain n' where n: "n = Suc n'" using assms(3) by (cases n) auto
  show ?thesis
  proof (cases v)
    case (JNum i)
    obtain c cs where e: "int_str i = c # cs" using int_str_start [of i] by (cases "int_str i") auto
    have cd: "c = CHR ''-'' \<or> is_digit c" using int_str_start [of i] e by simp
    have p: "parse_number (c # cs @ r) = Some (JNum i, r)" using parse_int_str [OF assms(1), of i] e by simp
    have "t = c # cs" using JNum assms(2) e by simp
    moreover have "\<not> is_json_ws c \<and> c \<noteq> CHR ''{'' \<and> c \<noteq> CHR 0x22 \<and> c \<noteq> CHR ''t'' \<and>
                   c \<noteq> CHR ''f'' \<and> c \<noteq> CHR ''n''"
      using cd by (auto simp: is_json_ws_def is_digit_def less_eq_char_def)
    ultimately show ?thesis using JNum n cd p by (simp add: skip_ws_Cons)
  next
    case (JStr x)
    then show ?thesis using assms(2) n
      by (auto simp: json_string_def skip_ws_Cons is_json_ws_def parse_json_string)
  qed (use assms n in \<open>auto simp: skip_ws_Cons is_json_ws_def split: if_splits\<close>)
qed


lemma members_text_start:
  assumes "members_wf kvs" and "kvs \<noteq> []"
  shows "\<exists>J. join_with '','' (json_members kvs) = CHR 0x22 # J"
proof -
  obtain k v rest where "kvs = (k, v) # rest" using assms(2) by (cases kvs) auto
  then show ?thesis using assms(1) json_text_wf(2) [OF assms(1)]
    by (cases "map (\<lambda>(k, v). json_string k @ CHR '':'' # the (json_text v)) rest")
       (auto simp: json_string_def)
qed

lemma skip_ws_brace: "skip_ws (CHR ''}'' # r) = CHR ''}'' # r" and skip_ws_comma: "skip_ws (CHR '','' # r) = CHR '','' # r"
  and skip_ws_colon: "skip_ws (CHR '':'' # r) = CHR '':'' # r"
  by (simp_all add: skip_ws_Cons is_json_ws_def)

text \<open>Printed text parses back, with enough fuel, whatever may follow it.\<close>

lemma parse_json_text:
  shows "json_wf v \<Longrightarrow> json_text v = Some t \<Longrightarrow> length t \<le> n \<Longrightarrow> json_stop r \<Longrightarrow>
           parse_value n (t @ r) = Some (v, r)"
    and "members_wf kvs \<Longrightarrow> kvs \<noteq> [] \<Longrightarrow> distinct (map fst acc @ map fst kvs) \<Longrightarrow>
           Suc (length (join_with '','' (json_members kvs))) \<le> m \<Longrightarrow>
           parse_members m acc (join_with '','' (json_members kvs) @ CHR ''}'' # r) = Some (JObj (acc @ kvs), r)"
proof (induction v and kvs arbitrary: t n r and acc m r rule: json_wf_members_wf.induct)
  case (2 kvs)
  let ?J = "join_with '','' (json_members kvs)"
  have t: "t = CHR ''{'' # ?J @ ''}''" using "2.prems"(2) by simp
  then obtain n' where n: "n = Suc n'" "Suc (length ?J) \<le> n'" using "2.prems"(3) by (cases n) auto
  have sk: "skip_ws (CHR ''{'' # ?J @ ''}'' @ r) = CHR ''{'' # ?J @ ''}'' @ r"
    by (simp add: skip_ws_Cons is_json_ws_def)
  show ?case
  proof (cases "kvs = []")
    case True
    then show ?thesis using t n sk by (simp add: skip_ws_brace)
  next
    case False
    obtain J where J: "?J = CHR 0x22 # J" using members_text_start "2.prems"(1) False by auto
    have "parse_members n' [] (?J @ CHR ''}'' # r) = Some (JObj kvs, r)"
      using "2.IH" [of "[]" n' r] "2.prems"(1) False n(2) by simp
    then show ?thesis using t n sk J by (simp add: skip_ws_quote)
  qed
next
  case (5 k v kvs)
  obtain tv where tv: "json_text v = Some tv" using json_text_wf(1) "5.prems"(1) by auto
  let ?mt = "json_string k @ CHR '':'' # tv"
  let ?J' = "join_with '','' (json_members kvs)"
  let ?X = "if kvs = [] then CHR ''}'' # r else CHR '','' # ?J' @ CHR ''}'' # r"
  have mem: "json_members ((k, v) # kvs) = ?mt # json_members kvs" using tv by simp
  have jm: "json_members kvs = [] \<longleftrightarrow> kvs = []"
    using json_text_wf(2) "5.prems"(1) by auto
  have J: "join_with '','' (json_members ((k, v) # kvs)) @ CHR ''}'' # r = ?mt @ ?X"
    using mem jm by (auto simp: join_with_Cons_nonempty)
  have len: "length tv < length (join_with '','' (json_members ((k, v) # kvs)))"
    "kvs \<noteq> [] \<Longrightarrow> Suc (length ?J') < length (join_with '','' (json_members ((k, v) # kvs)))"
    using mem jm by (auto simp: join_with_Cons_nonempty json_string_def)
  obtain m' where m: "m = Suc m'" using "5.prems"(4) by (cases m) auto
  have stop: "json_stop ?X" by (simp add: json_stop_def)
  have pv: "parse_value m' (tv @ ?X) = Some (v, ?X)"
    using "5.IH"(1) "5.prems"(1,4) tv len(1) m stop by simp
  have new: "AList.update k v acc = acc @ [(k, v)]"
    using "5.prems"(3) by (simp add: update_new)
  have ps: "parse_string (concat (map json_escape_char k) @ CHR 0x22 # CHR '':'' # tv @ ?X) =
            Some (k, CHR '':'' # tv @ ?X)"
    using parse_json_string [of k "CHR '':'' # tv @ ?X"] by simp
  show ?case
  proof (cases "kvs = []")
    case True
    then show ?thesis using J m pv new ps by (simp add: json_string_def skip_ws_colon skip_ws_brace)
  next
    case False
    obtain J0 where J0: "?J' = CHR 0x22 # J0" using members_text_start "5.prems"(1) False by auto
    have "parse_members m' (acc @ [(k, v)]) (?J' @ CHR ''}'' # r) = Some (JObj ((acc @ [(k, v)]) @ kvs), r)"
      using "5.IH"(2) [of "acc @ [(k, v)]" m' r] "5.prems"(1,3,4) False len(2) m by auto
    then show ?thesis using False J m pv new ps J0
      by (simp add: json_string_def skip_ws_colon skip_ws_comma skip_ws_quote)
  qed
qed (auto intro: parse_value_atom)


lemma json_parse_text: "json_wf v \<Longrightarrow> json_text v = Some t \<Longrightarrow> json_parse t = Some v"
  using parse_json_text(1) [of v t "Suc (length t)" "[]"] by (simp add: json_parse_def json_stop_def)

end
