(* ===== verification/Store.thy ===== *)
theory Store
  imports Json
begin

text \<open>
  The authorization state store and its persistence (specification sections 4.5 and
  4.6, and the \<open>wrappedAuthorize\<close>/\<open>wrappedLogout\<close>/\<open>persistAuthorizationIfNeeded\<close>
  actions that the repository's tests exercise). The store maps a security scheme's
  name to the credential granted for it; it is an association list without repeated
  keys, and every change that alters it emits an event for the view layer. Persisting
  writes \<open>JSON.stringify\<close> of the store under the key \<open>"authorized"\<close> of the durable
  key-value store, and only when \<open>persistAuthorization\<close> is set.
\<close>

section \<open>Credentials and the store\<close>

record token =
  access_token :: string
  token_type :: string
  expires_in :: "nat option"
  refresh_token :: "string option"

record granted =
  g_scheme :: string
  g_token :: token
  g_client_id :: "string option"
  g_client_secret :: "string option"

datatype store_event =
    AuthGranted string granted
  | AuthRemoved string

record auth_store =
  st_auths :: "(string \<times> granted) list"
  st_events :: "store_event list"

definition empty_store :: auth_store where
  "empty_store = \<lparr>st_auths = [], st_events = []\<rparr>"

text \<open>\<open>setAuthorization(entry)\<close>: a structurally equal entry is a no-op, without event.\<close>

definition set_authorization :: "granted \<Rightarrow> auth_store \<Rightarrow> auth_store" where
  "set_authorization g st =
     (if map_of (st_auths st) (g_scheme g) = Some g then st
      else st\<lparr>st_auths := AList.update (g_scheme g) g (st_auths st),
              st_events := st_events st @ [AuthGranted (g_scheme g) g]\<rparr>)"

text \<open>\<open>removeAuthorization(schemeName)\<close>: an absent scheme is a no-op.\<close>

definition remove_authorization :: "string \<Rightarrow> auth_store \<Rightarrow> auth_store" where
  "remove_authorization n st =
     (if n \<in> set (map fst (st_auths st))
      then st\<lparr>st_auths := AList.delete n (st_auths st), st_events := st_events st @ [AuthRemoved n]\<rparr>
      else st)"

text \<open>\<open>clearAll()\<close>: one removal event per stored scheme, in store order.\<close>

definition clear_all :: "auth_store \<Rightarrow> auth_store" where
  "clear_all st =
     st\<lparr>st_auths := [], st_events := st_events st @ map (\<lambda>(n, g). AuthRemoved n) (st_auths st)\<rparr>"

definition get_authorization :: "string \<Rightarrow> auth_store \<Rightarrow> granted option" where
  "get_authorization n st = map_of (st_auths st) n"

text \<open>The abstract store the operations promise: a finite map from scheme names.\<close>

definition list_authorized :: "auth_store \<Rightarrow> string \<rightharpoonup> granted" where
  "list_authorized st = map_of (st_auths st)"

definition store_inv :: "auth_store \<Rightarrow> bool" where
  "store_inv st \<longleftrightarrow> distinct (map fst (st_auths st)) \<and> (\<forall>(n, g) \<in> set (st_auths st). g_scheme g = n)"

section \<open>Serialization\<close>

definition opt_member :: "string \<Rightarrow> ('a \<Rightarrow> jsval) \<Rightarrow> 'a option \<Rightarrow> jsobj" where
  "opt_member k f x = (case x of None \<Rightarrow> [] | Some a \<Rightarrow> [(k, f a)])"

definition token_json :: "token \<Rightarrow> jsval" where
  "token_json t =
     JObj ([(''access_token'', JStr (access_token t)), (''token_type'', JStr (token_type t))] @
           opt_member ''expires_in'' (\<lambda>n. JNum (int n)) (expires_in t) @
           opt_member ''refresh_token'' JStr (refresh_token t))"

definition granted_json :: "granted \<Rightarrow> jsval" where
  "granted_json g =
     JObj ([(''name'', JStr (g_scheme g)), (''token'', token_json (g_token g))] @
           opt_member ''clientId'' JStr (g_client_id g) @
           opt_member ''clientSecret'' JStr (g_client_secret g))"

definition store_json :: "auth_store \<Rightarrow> jsval" where
  "store_json st = JObj (map (\<lambda>(n, g). (n, granted_json g)) (st_auths st))"

section \<open>Persistence\<close>

type_synonym kv_store = "string \<rightharpoonup> string"

definition persist_key :: string where
  "persist_key = ''authorized''"

text \<open>\<open>persistAuthorizationIfNeeded()\<close>: \<open>localStorage.setItem("authorized",
  JSON.stringify(authorized.toJS()))\<close> when \<open>persistAuthorization\<close> is set, nothing
  otherwise (the selector is not even read).\<close>

definition persist :: "bool \<Rightarrow> auth_store \<Rightarrow> kv_store \<Rightarrow> kv_store" where
  "persist enabled st kv =
     (if enabled then kv(persist_key := json_text (store_json st)) else kv)"

text \<open>\<open>wrappedAuthorize\<close> and \<open>wrappedLogout\<close>: the store operation, then
  \<open>persistAuthorizationIfNeeded\<close>.\<close>

definition wrapped_authorize :: "bool \<Rightarrow> granted \<Rightarrow> auth_store \<times> kv_store \<Rightarrow> auth_store \<times> kv_store" where
  "wrapped_authorize enabled g sk =
     (let st = set_authorization g (fst sk) in (st, persist enabled st (snd sk)))"

definition wrapped_logout :: "bool \<Rightarrow> string \<Rightarrow> auth_store \<times> kv_store \<Rightarrow> auth_store \<times> kv_store" where
  "wrapped_logout enabled n sk =
     (let st = remove_authorization n (fst sk) in (st, persist enabled st (snd sk)))"

text \<open>A sequence of wrapped store actions, as the view layer dispatches them.\<close>

datatype store_op = OpAuthorize granted | OpLogout string

fun store_step :: "bool \<Rightarrow> auth_store \<times> kv_store \<Rightarrow> store_op \<Rightarrow> auth_store \<times> kv_store" where
  "store_step enabled sk (OpAuthorize g) = wrapped_authorize enabled g sk"
| "store_step enabled sk (OpLogout n) = wrapped_logout enabled n sk"

definition store_run :: "bool \<Rightarrow> store_op list \<Rightarrow> auth_store \<times> kv_store \<Rightarrow> auth_store \<times> kv_store" where
  "store_run enabled ops sk = fold (\<lambda>op sk. store_step enabled sk op) ops sk"

text \<open>The abstract effect of an action on the map of granted credentials.\<close>

fun abs_op :: "(string \<rightharpoonup> granted) \<Rightarrow> store_op \<Rightarrow> (string \<rightharpoonup> granted)" where
  "abs_op m (OpAuthorize g) = m(g_scheme g \<mapsto> g)"
| "abs_op m (OpLogout n) = m(n := None)"

text \<open>A credential for the examples.\<close>

definition example_granted :: granted where
  "example_granted =
     \<lparr>g_scheme = ''petstore_auth'',
      g_token = \<lparr>access_token = ''abc'', token_type = ''bearer'', expires_in = Some 3600,
                 refresh_token = None\<rparr>,
      g_client_id = Some ''client_1'', g_client_secret = None\<rparr>"

definition persisted_in_sync :: "auth_store \<times> kv_store \<Rightarrow> bool" where
  "persisted_in_sync sk \<longleftrightarrow> snd sk persist_key = json_text (store_json (fst sk))"

section \<open>Restoring\<close>

text \<open>Reading a persisted store back: the decoders of the serialized credential, token
  and store. A missing optional member is \<open>None\<close>; a member of the wrong type, a
  missing required one, or an entry filed under another scheme's name makes the data
  malformed.\<close>

definition dec_str :: "jsval \<Rightarrow> string option" where
  "dec_str v = (case v of JStr s \<Rightarrow> Some s | _ \<Rightarrow> None)"

definition dec_nat :: "jsval \<Rightarrow> nat option" where
  "dec_nat v = (case v of JNum i \<Rightarrow> if 0 \<le> i then Some (nat i) else None | _ \<Rightarrow> None)"

definition dec_opt :: "(jsval \<Rightarrow> 'a option) \<Rightarrow> jsobj \<Rightarrow> string \<Rightarrow> 'a option option" where
  "dec_opt f kvs k = (case map_of kvs k of None \<Rightarrow> Some None | Some v \<Rightarrow> map_option Some (f v))"

definition decode_token :: "jsval \<Rightarrow> token option" where
  "decode_token v =
     (case v of
        JObj kvs \<Rightarrow>
          (case (Option.bind (map_of kvs ''access_token'') dec_str,
                 Option.bind (map_of kvs ''token_type'') dec_str,
                 dec_opt dec_nat kvs ''expires_in'', dec_opt dec_str kvs ''refresh_token'') of
             (Some a, Some ty, Some e, Some rf) \<Rightarrow>
               Some \<lparr>access_token = a, token_type = ty, expires_in = e, refresh_token = rf\<rparr>
           | _ \<Rightarrow> None)
      | _ \<Rightarrow> None)"

definition decode_granted :: "jsval \<Rightarrow> granted option" where
  "decode_granted v =
     (case v of
        JObj kvs \<Rightarrow>
          (case (Option.bind (map_of kvs ''name'') dec_str, Option.bind (map_of kvs ''token'') decode_token,
                 dec_opt dec_str kvs ''clientId'', dec_opt dec_str kvs ''clientSecret'') of
             (Some n, Some t, Some ci, Some cs) \<Rightarrow>
               Some \<lparr>g_scheme = n, g_token = t, g_client_id = ci, g_client_secret = cs\<rparr>
           | _ \<Rightarrow> None)
      | _ \<Rightarrow> None)"

fun decode_entries :: "jsobj \<Rightarrow> (string \<times> granted) list option" where
  "decode_entries [] = Some []"
| "decode_entries ((n, gv) # kvs) =
     (case decode_granted gv of
        Some g \<Rightarrow> if g_scheme g = n then map_option (Cons (n, g)) (decode_entries kvs) else None
      | None \<Rightarrow> None)"

definition decode_store :: "jsval \<Rightarrow> auth_store option" where
  "decode_store v =
     (case v of
        JObj kvs \<Rightarrow> map_option (\<lambda>auths. \<lparr>st_auths = auths, st_events = []\<rparr>) (decode_entries kvs)
      | _ \<Rightarrow> None)"

text \<open>\<open>restore()\<close>: the store read from the slot \<open>"authorized"\<close> at start-up; absent or
  malformed data gives the empty store and never an error. Events are not persisted.\<close>

definition restore :: "kv_store \<Rightarrow> auth_store" where
  "restore kv =
     (case kv persist_key of
        None \<Rightarrow> empty_store
      | Some t \<Rightarrow> (case Option.bind (json_parse t) decode_store of Some st \<Rightarrow> st | None \<Rightarrow> empty_store))"

section \<open>Lemmas on the store\<close>

lemma in_set_update: "x \<in> set (AList.update k v al) \<Longrightarrow> x = (k, v) \<or> x \<in> set al"
  by (induction al) (auto split: if_splits)


lemma store_inv_empty: "store_inv empty_store"
  by (simp add: store_inv_def empty_store_def)

lemma set_authorization_inv: "store_inv st \<Longrightarrow> store_inv (set_authorization g st)"
  by (auto simp: store_inv_def set_authorization_def distinct_update dest: in_set_update)

lemma remove_authorization_inv: "store_inv st \<Longrightarrow> store_inv (remove_authorization n st)"
proof -
  assume inv: "store_inv st"
  then have "distinct (map fst (AList.delete n (st_auths st)))"
    by (simp add: store_inv_def distinct_delete)
  moreover have "set (AList.delete n (st_auths st)) \<subseteq> set (st_auths st)"
    by (auto simp: AList.delete_eq)
  ultimately show ?thesis
    using inv by (auto simp: store_inv_def remove_authorization_def)
qed

lemma clear_all_inv: "store_inv (clear_all st)"
  by (simp add: store_inv_def clear_all_def)

lemma list_authorized_set: "list_authorized (set_authorization g st) = (list_authorized st)(g_scheme g \<mapsto> g)"
  by (auto simp: list_authorized_def set_authorization_def update_conv' map_upd_triv)

lemma list_authorized_remove: "list_authorized (remove_authorization n st) = (list_authorized st)(n := None)"
  by (auto simp: list_authorized_def remove_authorization_def delete_conv' map_of_eq_None_iff fun_upd_idem)

lemma list_authorized_clear: "list_authorized (clear_all st) = Map.empty"
  by (simp add: list_authorized_def clear_all_def)

lemma set_authorization_same: "get_authorization (g_scheme g) st = Some g \<Longrightarrow> set_authorization g st = st"
  by (simp add: set_authorization_def get_authorization_def)

lemma set_authorization_events:
  "st_events (set_authorization g st) =
     (if get_authorization (g_scheme g) st = Some g then st_events st else st_events st @ [AuthGranted (g_scheme g) g])"
  by (simp add: set_authorization_def get_authorization_def)

lemma store_run_Nil [simp]: "store_run e [] sk = sk"
  and store_run_Cons [simp]: "store_run e (op # ops) sk = store_run e ops (store_step e sk op)"
  by (simp_all add: store_run_def)

lemma json_text_obj: "json_text (JObj kvs) \<noteq> None"
  by simp

lemma opt_member_map_of:
  "map_of (opt_member k f x @ kvs) k' = (if k' = k \<and> x \<noteq> None then map_option f x else map_of kvs k')"
  by (cases x) (auto simp: opt_member_def)

lemma decode_token_json: "decode_token (token_json t) = Some t"
  by (cases "expires_in t"; cases "refresh_token t")
     (simp_all add: decode_token_def token_json_def opt_member_def dec_opt_def dec_str_def dec_nat_def)

lemma decode_granted_json: "decode_granted (granted_json g) = Some g"
  by (cases "g_client_id g"; cases "g_client_secret g")
     (simp_all add: decode_granted_def granted_json_def opt_member_def dec_opt_def dec_str_def
        decode_token_json)

lemma decode_entries_store:
  "\<forall>(n, g) \<in> set auths. g_scheme g = n \<Longrightarrow>
   decode_entries (map (\<lambda>(n, g). (n, granted_json g)) auths) = Some auths"
  by (induction auths) (auto simp: decode_granted_json)

lemma token_json_wf: "json_wf (token_json t)"
  by (cases "expires_in t"; cases "refresh_token t") (simp_all add: token_json_def opt_member_def)

lemma granted_json_wf: "json_wf (granted_json g)"
  by (cases "g_client_id g"; cases "g_client_secret g")
     (simp_all add: granted_json_def opt_member_def token_json_wf)

lemma members_wf_map: "(\<forall>(k, v) \<in> set kvs. json_wf v) \<Longrightarrow> members_wf kvs"
  by (induction kvs) auto

lemma store_json_wf: "store_inv st \<Longrightarrow> json_wf (store_json st)"
proof -
  assume inv: "store_inv st"
  have "distinct (map fst (map (\<lambda>(n, g). (n, granted_json g)) (st_auths st)))"
    using inv by (simp add: store_inv_def comp_def case_prod_beta')
  moreover have "\<forall>(k, v) \<in> set (map (\<lambda>(n, g). (n, granted_json g)) (st_auths st)). json_wf v"
    by (auto simp: granted_json_wf)
  ultimately show ?thesis by (simp add: store_json_def members_wf_map)
qed

lemma restore_key: "kv persist_key = kv' persist_key \<Longrightarrow> restore kv = restore kv'"
  by (simp add: restore_def)

text \<open>The persisted text restores the store's credentials.\<close>

lemma restore_persist:
  assumes "store_inv st"
  shows "restore (persist True st kv) = \<lparr>st_auths = st_auths st, st_events = []\<rparr>"
proof -
  obtain t where t: "json_text (store_json st) = Some t" by (simp add: store_json_def)
  have "json_parse t = Some (store_json st)" using json_parse_text [OF store_json_wf [OF assms] t] .
  moreover have "decode_store (store_json st) = Some \<lparr>st_auths = st_auths st, st_events = []\<rparr>"
    using assms by (simp add: decode_store_def store_json_def decode_entries_store store_inv_def)
  ultimately show ?thesis using t by (simp add: restore_def persist_def)
qed

lemma store_step_inv: "store_inv (fst sk) \<Longrightarrow> store_inv (fst (store_step e sk op))"
  by (cases op) (simp_all add: wrapped_authorize_def wrapped_logout_def Let_def set_authorization_inv
      remove_authorization_inv)

lemma store_step_abs: "list_authorized (fst (store_step e sk op)) = abs_op (list_authorized (fst sk)) op"
  by (cases op) (simp_all add: wrapped_authorize_def wrapped_logout_def Let_def list_authorized_set
      list_authorized_remove)

lemma store_step_disabled: "snd (store_step False sk op) = snd sk"
  by (cases op) (simp_all add: wrapped_authorize_def wrapped_logout_def Let_def persist_def)

lemma store_step_sync: "persisted_in_sync (store_step True sk op)"
  by (cases op) (simp_all add: wrapped_authorize_def wrapped_logout_def Let_def persist_def persisted_in_sync_def)

section \<open>Properties of the store and its persistence\<close>

text \<open>The store implements a finite map from scheme names: after any sequence of
  wrapped authorize and logout actions, the credentials it lists are those of the
  abstract map updated by each action in turn (a later grant for a scheme replaces the
  earlier one; a logout removes only its scheme; no other scheme is touched).\<close>

theorem store_run_refines_map:
  "list_authorized (fst (store_run e ops sk)) = fold (\<lambda>op m. abs_op m op) ops (list_authorized (fst sk))"
  by (induction ops arbitrary: sk) (simp_all add: store_step_abs)

text \<open>With \<open>persistAuthorization\<close> set, after any non-empty sequence of wrapped actions
  the durable slot \<open>"authorized"\<close> holds exactly the serialization of the current
  store.\<close>

theorem store_run_persisted_in_sync:
  "ops \<noteq> [] \<Longrightarrow> persisted_in_sync (store_run True ops sk)"
proof (induction ops arbitrary: sk)
  case Nil
  then show ?case by simp
next
  case (Cons op ops)
  show ?case
  proof (cases "ops = []")
    case True
    then show ?thesis by (simp add: store_step_sync)
  next
    case False
    then show ?thesis using Cons.IH by simp
  qed
qed

theorem store_run_persisted_in_sync_witness:
  "[OpAuthorize example_granted] \<noteq> [] \<and>
   persisted_in_sync (store_run True [OpAuthorize example_granted] (empty_store, Map.empty))"
proof -
  have h: "[OpAuthorize example_granted] \<noteq> []" by simp
  show ?thesis using h store_run_persisted_in_sync [OF h] by (rule conjI)
qed

text \<open>With \<open>persistAuthorization\<close> off, no sequence of wrapped actions writes the
  durable store.\<close>

theorem store_run_disabled_no_write: "snd (store_run False ops sk) = snd sk"
  by (induction ops arbitrary: sk) (simp_all add: store_step_disabled)

text \<open>Every sequence of wrapped actions keeps the store's invariant: one entry per
  scheme, each filed under its own scheme's name.\<close>

theorem store_run_inv: "store_inv (fst sk) \<Longrightarrow> store_inv (fst (store_run e ops sk))"
  by (induction ops arbitrary: sk) (simp_all add: store_step_inv)

theorem store_run_inv_witness:
  "store_inv (fst (empty_store, Map.empty :: kv_store)) \<and>
   store_inv (fst (store_run True [OpAuthorize example_granted, OpLogout ''api_key'']
                     (empty_store, Map.empty)))"
proof -
  have h: "store_inv (fst (empty_store, Map.empty :: kv_store))" by (simp add: store_inv_empty)
  show ?thesis using h store_run_inv [OF h] by (rule conjI)
qed


text \<open>C24: with \<open>persistAuthorization\<close> set, after any non-empty sequence of wrapped
  authorize and logout actions from a well-formed store, restoring the durable store at
  start-up gives back exactly the credentials held (specification 4.6 and section 8).\<close>

theorem restore_after_run:
  assumes "ops \<noteq> []" and "store_inv (fst sk)"
  shows "restore (snd (store_run True ops sk)) =
           \<lparr>st_auths = st_auths (fst (store_run True ops sk)), st_events = []\<rparr>"
proof -
  let ?st = "fst (store_run True ops sk)"
  have "snd (store_run True ops sk) persist_key = persist True ?st Map.empty persist_key"
    using store_run_persisted_in_sync [OF assms(1), of sk]
    by (simp add: persisted_in_sync_def persist_def)
  then have "restore (snd (store_run True ops sk)) = restore (persist True ?st Map.empty)"
    by (rule restore_key)
  also have "\<dots> = \<lparr>st_auths = st_auths ?st, st_events = []\<rparr>"
    using store_run_inv [OF assms(2)] by (rule restore_persist)
  finally show ?thesis .
qed

theorem restore_after_run_witness:
  "[OpAuthorize example_granted] \<noteq> [] \<and> store_inv (fst (empty_store, Map.empty :: kv_store)) \<and>
   restore (snd (store_run True [OpAuthorize example_granted] (empty_store, Map.empty))) =
     \<lparr>st_auths = [(''petstore_auth'', example_granted)], st_events = []\<rparr>"
proof -
  have h1: "[OpAuthorize example_granted] \<noteq> []" by simp
  have h2: "store_inv (fst (empty_store, Map.empty :: kv_store))" by (simp add: store_inv_empty)
  have "st_auths (fst (store_run True [OpAuthorize example_granted] (empty_store, Map.empty))) =
        [(''petstore_auth'', example_granted)]"
    by (simp add: wrapped_authorize_def set_authorization_def empty_store_def example_granted_def Let_def)
  then show ?thesis using h1 h2 restore_after_run [OF h1 h2] by simp
qed

end
