(* ===== verification/Dispatcher.thy ===== *)
theory Dispatcher
  imports Pkce Store
begin

text \<open>
  The boundary to the Request Dispatcher (specification sections 5 to 7): the engine
  hands the request descriptor to an injected \<open>fetch\<close> and receives either a
  rejection or a response with a status and a body. The code exchange of an
  access-code attempt is the one place where the engine waits for it: the attempt's
  \<open>GrantState\<close> is discarded whatever the outcome; a rejection, a status outside
  2xx or a body that is no token is \<open>NetworkFailure\<close> naming the scheme and changes no
  credential; a token is stored with \<open>setAuthorization\<close> and persisted when
  \<open>persistAuthorization\<close> is set. The engine's state is the attempts, the credential
  store, the durable key-value store and the requests handed to the dispatcher, in
  order.
\<close>

text \<open>The settled promise of \<open>fetch\<close>: \<open>Inl\<close> a rejection with its reason, \<open>Inr\<close> a
  response with its status and body.\<close>

type_synonym response = "string + nat \<times> string"
type_synonym dispatcher = "request \<Rightarrow> response"
type_synonym engine_state = "attempts \<times> auth_store \<times> kv_store \<times> request list"

text \<open>The configuration of the test "should persist authorization data to localStorage"
  (\<open>test/unit/core/plugins/auth/actions.js\<close>): \<open>persistAuthorization: true\<close>.\<close>

definition persist_test_config :: auth_config where
  "persist_test_config = \<lparr>additional_query = None, persist_authorization = True\<rparr>"

text \<open>The code exchange of the scheme's attempt and the handling of the dispatcher's
  answer.\<close>

definition exchange ::
  "dispatcher \<Rightarrow> api_ctx \<Rightarrow> auth_config \<Rightarrow> security_scheme \<Rightarrow> string \<Rightarrow> string option \<Rightarrow> string
   \<Rightarrow> string \<Rightarrow> engine_state \<Rightarrow> (auth_error + granted) option \<times> engine_state" where
  "exchange fetch ctx cfg s cid sec code ru en =
     (case en of (atts, st, kv, sent) \<Rightarrow>
      case finish_attempt ctx cfg s cid sec code ru atts of
        (None, atts') \<Rightarrow> (None, (atts', st, kv, sent))
      | (Some (Inl e), atts') \<Rightarrow> (Some (Inl e), (atts', st, kv, sent))
      | (Some (Inr req), atts') \<Rightarrow>
          (case fetch req of
             Inl _ \<Rightarrow> (Some (Inl (NetworkFailure (ss_name s))), (atts', st, kv, sent @ [req]))
           | Inr (status, body) \<Rightarrow>
               (case (if 200 \<le> status \<and> status < 300
                      then Option.bind (json_parse body) decode_token else None) of
                  None \<Rightarrow> (Some (Inl (NetworkFailure (ss_name s))), (atts', st, kv, sent @ [req]))
                | Some t \<Rightarrow>
                    (let g = \<lparr>g_scheme = ss_name s, g_token = t, g_client_id = Some cid,
                              g_client_secret = sec\<rparr>;
                         (st', kv') = wrapped_authorize (persist_authorization cfg) g (st, kv)
                     in (Some (Inr g), (atts', st', kv', sent @ [req]))))))"

section \<open>Lemmas\<close>

lemma finish_attempt_cases:
  "finish_attempt ctx cfg s cid sec code ru atts = (r, atts') \<Longrightarrow>
   atts' = atts(ss_name s := None) \<and> (r = None \<longleftrightarrow> atts (ss_name s) = None)"
  by (auto simp: finish_attempt_def split: option.splits)

text \<open>Without an attempt there is nothing to exchange: no request, no change.\<close>

lemma exchange_no_attempt:
  "atts (ss_name s) = None \<Longrightarrow>
   exchange fetch ctx cfg s cid sec code ru (atts, st, kv, sent) = (None, (atts, st, kv, sent))"
  by (simp add: exchange_def finish_attempt_def)

text \<open>The code exchange fails only for a scheme without token URL.\<close>

lemma build_token_request_error:
  "build_token_request ctx cfg s cid sec code ru v = Inl e \<Longrightarrow> e = InvalidGrantConfiguration (ss_name s)"
  by (simp add: build_token_request_def token_request_def split: option.splits)

lemma persist_test_config_persists: "persist_authorization persist_test_config"
  by (simp add: persist_test_config_def)

lemma finish_attempt_some:
  "atts (ss_name s) = Some gs \<Longrightarrow>
   finish_attempt ctx cfg s cid sec code ru atts =
     (Some (build_token_request ctx cfg s cid sec code ru (gs_code_verifier gs)), atts(ss_name s := None))"
  by (simp add: finish_attempt_def)

text \<open>The outcomes of the code exchange, for every dispatcher and configuration: the
  attempt is discarded; without an attempt nothing happens; an error names the scheme
  and changes no credential; a granted credential is one wrapped \<open>authorize\<close> step of
  the store, after exactly one dispatched request.\<close>

lemma exchange_result:
  assumes "exchange fetch ctx cfg s cid sec code ru (atts, st, kv, sent) = (res, atts', st', kv', sent')"
  shows "atts' = atts(ss_name s := None) \<and>
    (case res of
       None \<Rightarrow> atts (ss_name s) = None \<and> (st', kv') = (st, kv) \<and> sent' = sent
     | Some (Inl e) \<Rightarrow>
         (e = InvalidGrantConfiguration (ss_name s) \<or> e = NetworkFailure (ss_name s)) \<and>
         (st', kv') = (st, kv) \<and> (sent' = sent \<or> (\<exists>r. sent' = sent @ [r]))
     | Some (Inr g) \<Rightarrow>
         g_scheme g = ss_name s \<and>
         (st', kv') = store_step (persist_authorization cfg) (st, kv) (OpAuthorize g) \<and>
         (\<exists>r. sent' = sent @ [r]))"
proof (cases "atts (ss_name s)")
  case None
  then show ?thesis using assms by (simp add: exchange_no_attempt fun_upd_idem)
next
  case (Some gs)
  let ?b = "build_token_request ctx cfg s cid sec code ru (gs_code_verifier gs)"
  have fin: "finish_attempt ctx cfg s cid sec code ru atts = (Some ?b, atts(ss_name s := None))"
    using Some by (rule finish_attempt_some)
  show ?thesis
  proof (cases ?b)
    case (Inl e)
    then have "e = InvalidGrantConfiguration (ss_name s)" by (rule build_token_request_error)
    then show ?thesis using assms fin Inl by (auto simp: exchange_def)
  next
    case (Inr req)
    show ?thesis
    proof (cases "fetch req")
      case Inl
      then show ?thesis using assms fin \<open>?b = Inr req\<close> by (auto simp: exchange_def)
    next
      case (Inr resp)
      obtain status body where resp: "resp = (status, body)" by (cases resp)
      show ?thesis
      proof (cases "if 200 \<le> status \<and> status < 300
                    then Option.bind (json_parse body) decode_token else None")
        case None
        then show ?thesis using assms fin \<open>?b = Inr req\<close> Inr resp by (auto simp: exchange_def)
      next
        case (Some t)
        then show ?thesis using assms fin \<open>?b = Inr req\<close> Inr resp
          by (auto simp: exchange_def wrapped_authorize_def Let_def)
      qed
    qed
  qed
qed

text \<open>The exchange composes with the store: it keeps the store's invariant and, when
  persisting, keeps the durable copy in sync.\<close>

lemma exchange_preserves:
  assumes "exchange fetch ctx cfg s cid sec code ru (atts, st, kv, sent) = (res, atts', st', kv', sent')"
    and "store_inv st"
  shows "store_inv st' \<and>
         (persist_authorization cfg \<and> persisted_in_sync (st, kv) \<longrightarrow> persisted_in_sync (st', kv'))"
proof (cases res)
  case (Some r)
  show ?thesis
  proof (cases r)
    case (Inr g)
    then have "(st', kv') = store_step (persist_authorization cfg) (st, kv) (OpAuthorize g)"
      using exchange_result [OF assms(1)] Some by simp
    then show ?thesis
      using store_step_inv [of "(st, kv)"] store_step_sync [of "(st, kv)"] assms(2) by (metis fst_conv)
  qed (use exchange_result [OF assms(1)] Some assms(2) in auto)
qed (use exchange_result [OF assms(1)] assms(2) in auto)

section \<open>Properties\<close>

text \<open>C29: the code exchange under the persistence test's configuration, for every
  dispatcher. The attempt's \<open>GrantState\<close> is discarded in every outcome, so a repeated
  exchange dispatches nothing and changes nothing. Without an attempt nothing happens;
  an error names the scheme and leaves the credentials and the durable store as they
  were, with at most one request dispatched; a granted credential is filed under the
  scheme with \<open>setAuthorization\<close> and persisted, after exactly one request.\<close>

theorem exchange_outcome:
  "case exchange fetch ctx persist_test_config s cid sec code ru (atts, st, kv, sent) of
     (res, atts', st', kv', sent') \<Rightarrow>
       atts' = atts(ss_name s := None) \<and>
       exchange fetch' ctx persist_test_config s cid' sec' code' ru' (atts', st', kv', sent') =
         (None, (atts', st', kv', sent')) \<and>
       (case res of
          None \<Rightarrow> st' = st \<and> kv' = kv \<and> sent' = sent
        | Some (Inl e) \<Rightarrow>
            (e = InvalidGrantConfiguration (ss_name s) \<or> e = NetworkFailure (ss_name s)) \<and>
            st' = st \<and> kv' = kv \<and> (sent' = sent \<or> (\<exists>r. sent' = sent @ [r]))
        | Some (Inr g) \<Rightarrow>
            g_scheme g = ss_name s \<and> st' = set_authorization g st \<and> kv' = persist True st' kv \<and>
            (\<exists>r. sent' = sent @ [r]))"
proof -
  obtain res atts' st' kv' sent' where
    e: "exchange fetch ctx persist_test_config s cid sec code ru (atts, st, kv, sent) =
        (res, atts', st', kv', sent')"
    by (metis prod.exhaust)
  note r = exchange_result [OF e]
  then have "exchange fetch' ctx persist_test_config s cid' sec' code' ru' (atts', st', kv', sent') =
               (None, (atts', st', kv', sent'))"
    by (simp add: exchange_no_attempt)
  with e r show ?thesis
    by (auto simp: wrapped_authorize_def persist_test_config_persists Let_def
             split: option.splits sum.splits)
qed
end
