(* ===== verification/Harness.thy ===== *)
theory Harness
  imports Prelude
begin

text \<open>
  The mocha setup of the tests (\<open>test/mocha/setup.js\<close>): \<open>copyProps(src, target)\<close>
  defines on \<open>target\<close> every own property of \<open>src\<close> that reads as \<open>undefined\<close> on
  \<open>target\<close>, and the setup copies the UI's window wrapper onto the jsdom window and
  then the window onto the global object. Objects are association lists of property
  values; prototypes, getters and the jsdom objects themselves are not modelled.
\<close>

text \<open>\<open>Object.getOwnPropertyNames(src)\<close> with each property's value, in order.\<close>

definition own_props :: "jsobj \<Rightarrow> (string \<times> jsval) list" where
  "own_props obj = map (\<lambda>k. (k, get_prop obj k)) (remdups (map fst obj))"

text \<open>The properties are chosen on \<open>target\<close> as it is before any is defined, then
  defined with \<open>Object.defineProperties\<close>.\<close>

definition copy_props :: "jsobj \<Rightarrow> jsobj \<Rightarrow> jsobj" where
  "copy_props src target =
     fold (\<lambda>(k, v) t. AList.update k v t)
       (filter (\<lambda>(k, v). get_prop target k = JUndef) (own_props src)) target"

text \<open>\<open>copyProps(win, window)\<close> followed by \<open>copyProps(window, global)\<close>.\<close>

definition setup_globals :: "jsobj \<Rightarrow> jsobj \<Rightarrow> jsobj \<Rightarrow> jsobj \<times> jsobj" where
  "setup_globals win window global =
     (let window' = copy_props win window in (window', copy_props window' global))"

section \<open>Lemmas\<close>

lemma get_prop_update: "get_prop (AList.update k v t) k' = (if k = k' then v else get_prop t k')"
  by (simp add: get_prop_def update_conv')

lemma get_prop_fold_update:
  "distinct (map fst ps) \<Longrightarrow>
   get_prop (fold (\<lambda>(k, v) t. AList.update k v t) ps t) k =
     (case map_of ps k of Some v \<Rightarrow> v | None \<Rightarrow> get_prop t k)"
proof (induction ps arbitrary: t)
  case (Cons p ps)
  obtain a b where p: "p = (a, b)" by (cases p)
  show ?case
  proof (cases "a = k")
    case True
    with Cons.prems p have "map_of ps k = None" by (auto simp: map_of_eq_None_iff)
    with Cons p True show ?thesis by (simp add: get_prop_update)
  next
    case False
    with Cons p show ?thesis by (simp add: get_prop_update split: option.split)
  qed
qed simp

lemma map_of_own_props:
  "map_of (own_props obj) k = (if k \<in> fst ` set obj then Some (get_prop obj k) else None)"
proof -
  have h: "map_of (map (\<lambda>k. (k, f k)) ks) k = (if k \<in> set ks then Some (f k) else None)" for f ks
    by (induction ks) auto
  show ?thesis unfolding own_props_def h by simp
qed

lemma get_prop_not_key:
  assumes "k \<notin> fst ` set obj"
  shows "get_prop obj k = JUndef"
proof -
  have "map_of obj k = None" using assms by (simp add: map_of_eq_None_iff)
  then show ?thesis by (simp add: get_prop_def)
qed

lemma map_of_filter_key:
  "map_of (filter (\<lambda>(k', v). P k') xs) k = (if P k then map_of xs k else None)"
  by (induction xs) auto

text \<open>A property of the copy reads as on \<open>target\<close> where \<open>target\<close> defines it, and as on
  \<open>src\<close> elsewhere.\<close>

lemma copy_props_get:
  "get_prop (copy_props src target) k =
     (if get_prop target k = JUndef then get_prop src k else get_prop target k)"
proof -
  let ?ps = "filter (\<lambda>(k, v). get_prop target k = JUndef) (own_props src)"
  have d: "distinct (map fst ?ps)"
    by (rule distinct_map_filter) (simp add: own_props_def comp_def)
  have "map_of ?ps k = (if get_prop target k = JUndef then map_of (own_props src) k else None)"
    by (rule map_of_filter_key)
  then show ?thesis
    using get_prop_fold_update [OF d, of target k]
    by (auto simp: copy_props_def map_of_own_props get_prop_not_key)
qed

section \<open>Properties\<close>

text \<open>C28: after the setup, a property reads on the window as the jsdom window defines it,
  or else as the UI's window wrapper does; on the global object as node's global object
  defines it, or else as the window, or else as the wrapper does. The setup fills in
  what is missing and never overwrites a defined property.\<close>

theorem setup_globals_props:
  "get_prop (fst (setup_globals win window global)) k =
     (if get_prop window k = JUndef then get_prop win k else get_prop window k) \<and>
   get_prop (snd (setup_globals win window global)) k =
     (if get_prop global k = JUndef
      then (if get_prop window k = JUndef then get_prop win k else get_prop window k)
      else get_prop global k)"
  by (simp add: setup_globals_def Let_def copy_props_get)

end
