(* ===== verification/Regex.thy ===== *)
theory Regex
  imports Prelude
begin

text \<open>
  The ECMAScript semantics of the regular expressions the sources write as literals
  (ECMA-262, sections 22.2.2 and 22.2.7, without the Unicode and sticky flags): a
  pattern is a \<open>regex\<close>; a \<open>RegExp\<close> object is the record \<open>regexp\<close> of its
  pattern, its \<open>g\<close> and \<open>i\<close> flags and its \<open>lastIndex\<close>. The backtracking matcher
  is given by the list of end positions a pattern can reach from a start position, in
  the order the matcher tries them, so that the first one is the match it finds.
  \<open>exec\<close> scans the start positions from \<open>lastIndex\<close> (only under \<open>g\<close>) and, under
  \<open>g\<close>, stores the end of the match, or 0 after a failure, back into \<open>lastIndex\<close>.
  Strings are sequences of Latin-1 code units.
\<close>

section \<open>Patterns and RegExp objects\<close>

text \<open>A member of a character class \<open>[...]\<close>: a character, a range \<open>a-b\<close>, or the
  escape \<open>\s\<close>.\<close>

datatype class_atom = CChar char | CRange char char | CSpace

datatype regex =
    RChar char
  | RClass "class_atom list"
  | RSeq regex regex
  | RAlt regex regex
  | RPlus regex
  | RBegin
  | REnd

record regexp =
  rx_pattern :: regex
  rx_global :: bool
  rx_ignore_case :: bool
  rx_last_index :: nat

section \<open>Characters\<close>

text \<open>\<open>Canonicalize(ch)\<close> without the Unicode flag: under \<open>i\<close> a character is mapped
  to its upper case, unless that would map a non-ASCII character to an ASCII one. On
  Latin-1 the lower-case letters a-z and the letters 0xE0-0xFE but 0xF7 change;
  0xB5 and 0xFF have their upper case outside Latin-1, where no other Latin-1
  character is mapped, so leaving them unchanged keeps every comparison.\<close>

definition canonicalize :: "bool \<Rightarrow> char \<Rightarrow> char" where
  "canonicalize ic c =
     (if ic \<and> ((CHR ''a'' \<le> c \<and> c \<le> CHR ''z'') \<or> (CHR 0xE0 \<le> c \<and> c \<le> CHR 0xFE \<and> c \<noteq> CHR 0xF7))
      then char_of (of_char c - (32::nat)) else c)"

text \<open>The members of \<open>\s\<close> in Latin-1: the white space and line terminators
  tab, line feed, vertical tab, form feed, carriage return, space, no-break space.\<close>

definition space_chars :: "char list" where
  "space_chars = map char_of [9, 10, 11, 12, 13, 32, 160 :: nat]"

fun atom_members :: "class_atom \<Rightarrow> char list" where
  "atom_members (CChar c) = [c]"
| "atom_members (CRange lo hi) = map char_of [of_char lo..<Suc (of_char hi)]"
| "atom_members CSpace = space_chars"

text \<open>\<open>CharacterSetMatcher\<close>: some member of the class has the canonical form of the
  character.\<close>

definition class_match :: "bool \<Rightarrow> class_atom list \<Rightarrow> char \<Rightarrow> bool" where
  "class_match ic cls c =
     list_ex (\<lambda>a. canonicalize ic a = canonicalize ic c) (concat (map atom_members cls))"

section \<open>The matcher\<close>

text \<open>\<open>RepeatMatcher\<close> for the iterations of \<open>+\<close> after the first (greedy, without
  an upper bound): one more iteration is tried first, and it must end beyond where it
  started; stopping is tried last. A match never ends beyond the string, so the
  iterations from \<open>j\<close> are at most \<open>length s - j\<close>; the fuel \<open>length s\<close> is enough.\<close>

fun rep_ends :: "(nat \<Rightarrow> nat list) \<Rightarrow> nat \<Rightarrow> nat \<Rightarrow> nat list" where
  "rep_ends m 0 j = [j]"
| "rep_ends m (Suc n) j = concat (map (rep_ends m n) (filter (\<lambda>k. j < k) (m j))) @ [j]"

text \<open>The end positions a pattern reaches from position \<open>i\<close> of \<open>s\<close>, in the
  matcher's order of preference; \<open>^\<close> and \<open>$\<close> without the multiline flag.\<close>

primrec match_ends :: "bool \<Rightarrow> regex \<Rightarrow> string \<Rightarrow> nat \<Rightarrow> nat list" where
  "match_ends ic (RChar c) s i =
     (if i < length s \<and> canonicalize ic (s ! i) = canonicalize ic c then [Suc i] else [])"
| "match_ends ic (RClass cls) s i =
     (if i < length s \<and> class_match ic cls (s ! i) then [Suc i] else [])"
| "match_ends ic (RSeq a b) s i = concat (map (match_ends ic b s) (match_ends ic a s i))"
| "match_ends ic (RAlt a b) s i = match_ends ic a s i @ match_ends ic b s i"
| "match_ends ic (RPlus r) s i =
     concat (map (rep_ends (match_ends ic r s) (length s)) (match_ends ic r s i))"
| "match_ends ic RBegin s i = (if i = 0 then [i] else [])"
| "match_ends ic REnd s i = (if i = length s then [i] else [])"

text \<open>The loop of \<open>RegExpBuiltinExec\<close>: try the pattern at each start position from
  \<open>i\<close> until one matches or the position passes the end of the string.\<close>

function scan_match :: "bool \<Rightarrow> regex \<Rightarrow> string \<Rightarrow> nat \<Rightarrow> (nat \<times> nat) option" where
  "scan_match ic r s i =
     (if length s < i then None
      else case match_ends ic r s i of
             e # _ \<Rightarrow> Some (i, e)
           | [] \<Rightarrow> scan_match ic r s (Suc i))"
  by pat_completeness auto
termination
  by (relation "measure (\<lambda>(ic, r, s, i). Suc (length s) - i)") auto

text \<open>\<open>RegExpBuiltinExec(R, S)\<close>: the scan starts at \<open>lastIndex\<close> under \<open>g\<close>, at 0
  otherwise; under \<open>g\<close> a match stores its end in \<open>lastIndex\<close> and a failure stores 0.
  \<open>test\<close> answers whether \<open>exec\<close> found a match.\<close>

definition regexp_exec :: "regexp \<Rightarrow> string \<Rightarrow> (nat \<times> nat) option \<times> regexp" where
  "regexp_exec rx s =
     (let start = (if rx_global rx then rx_last_index rx else 0)
      in case scan_match (rx_ignore_case rx) (rx_pattern rx) s start of
           None \<Rightarrow> (None, if rx_global rx then rx\<lparr>rx_last_index := 0\<rparr> else rx)
         | Some (b, e) \<Rightarrow> (Some (b, e), if rx_global rx then rx\<lparr>rx_last_index := e\<rparr> else rx))"

definition regexp_test :: "regexp \<Rightarrow> string \<Rightarrow> bool \<times> regexp" where
  "regexp_test rx s = (let (m, rx') = regexp_exec rx s in (m \<noteq> None, rx'))"

section \<open>Lemmas\<close>

declare scan_match.simps [simp del]

text \<open>Bounds: the ends of a match lie between its start and the end of the string.\<close>

lemma rep_ends_bounds:
  assumes "\<And>j k. k \<in> set (m j) \<Longrightarrow> k \<le> b"
  shows "k \<in> set (rep_ends m n j) \<Longrightarrow> j \<le> k \<and> k \<le> max j b"
proof (induction n arbitrary: j)
  case (Suc n)
  then show ?case using assms by fastforce
qed simp

text \<open>Termination of \<open>RepeatMatcher\<close>: when no match ends beyond \<open>b\<close>, the fuel
  \<open>b - j\<close> is enough, and more fuel gives the same ends in the same order.\<close>

lemma rep_ends_fuel:
  assumes "\<And>j k. k \<in> set (m j) \<Longrightarrow> k \<le> b"
  shows "b - j \<le> n \<Longrightarrow> rep_ends m (n + d) j = rep_ends m n j"
proof (induction n arbitrary: j)
  case 0
  then have "filter (\<lambda>k. j < k) (m j) = []"
    using assms by (fastforce simp: filter_empty_conv)
  then show ?case by (cases d) simp_all
next
  case (Suc n)
  have h: "rep_ends m (n + d) k = rep_ends m n k" if "k \<in> set (filter (\<lambda>k. j < k) (m j))" for k
    using that assms Suc.prems by (intro Suc.IH) force
  have "map (rep_ends m (n + d)) (filter (\<lambda>k. j < k) (m j)) =
             map (rep_ends m n) (filter (\<lambda>k. j < k) (m j))"
    unfolding map_eq_conv using h by blast
  then show ?case by (simp only: add_Suc rep_ends.simps(2))
qed

lemma match_ends_beyond: "length s < i \<Longrightarrow> match_ends ic r s i = []"
  by (induction r arbitrary: i) auto

lemma match_ends_bounds:
  "k \<in> set (match_ends ic r s i) \<Longrightarrow> i \<le> k \<and> k \<le> length s"
proof (induction r arbitrary: i k)
  case (RSeq a b)
  then show ?case by fastforce
next
  case (RPlus r)
  then obtain j where j: "j \<in> set (match_ends ic r s i)"
    and k: "k \<in> set (rep_ends (match_ends ic r s) (length s) j)"
    by auto
  have "\<And>j' k'. k' \<in> set (match_ends ic r s j') \<Longrightarrow> k' \<le> length s"
    using RPlus.IH by blast
  then have "j \<le> k \<and> k \<le> max j (length s)"
    using rep_ends_bounds [of "match_ends ic r s" "length s" k "length s" j] k by blast
  then show ?case using RPlus.IH [OF j] by simp
qed (auto split: if_splits)

text \<open>A character class under \<open>+\<close>: the iterations reach every position up to the
  first character outside the class, within the fuel.\<close>

lemma ivl_insert_lower: "j < k \<Longrightarrow> {j..<k} = insert j {Suc j..<k}"
  by auto

lemma interval_from_Suc:
  assumes "R j"
  shows "(k = j \<or> (Suc j \<le> k \<and> k \<le> Suc j + n \<and> (\<forall>t\<in>{Suc j..<k}. R t))) \<longleftrightarrow>
   (j \<le> k \<and> k \<le> j + Suc n \<and> (\<forall>t\<in>{j..<k}. R t))"
proof (cases "j < k")
  case True
  then show ?thesis using assms by (simp add: ivl_insert_lower Suc_le_eq)
qed auto

lemma interval_plus:
  "i < n \<Longrightarrow> R i \<Longrightarrow>
   (Suc i \<le> k \<and> k \<le> Suc i + n \<and> (\<forall>t\<in>{Suc i..<k}. t < n \<and> R t)) \<longleftrightarrow>
   (i < k \<and> k \<le> n \<and> (\<forall>t\<in>{i..<k}. R t))"
proof (cases "Suc i < k")
  case True
  then obtain k' where k: "k = Suc k'" "i < k'" by (cases k) auto
  assume "i < n" "R i"
  then show ?thesis using k by (auto simp: ivl_insert_lower less_Suc_eq)
qed auto

lemma rep_ends_class:
  "set (rep_ends (match_ends ic (RClass cls) s) n j) =
     {k. j \<le> k \<and> k \<le> j + n \<and> (\<forall>t\<in>{j..<k}. t < length s \<and> class_match ic cls (s ! t))}"
proof (induction n arbitrary: j)
  case (Suc n)
  show ?case
  proof (cases "j < length s \<and> class_match ic cls (s ! j)")
    case True
    then have "set (rep_ends (match_ends ic (RClass cls) s) (Suc n) j) =
               insert j (set (rep_ends (match_ends ic (RClass cls) s) n (Suc j)))"
      by simp
    then show ?thesis
      unfolding Suc.IH
      using interval_from_Suc [of "\<lambda>t. t < length s \<and> class_match ic cls (s ! t)", OF True]
      by blast
  next
    case False
    then show ?thesis by (auto simp: le_less)
  qed
qed auto

lemma match_ends_plus_class:
  "set (match_ends ic (RPlus (RClass cls)) s i) =
     {k. i < k \<and> k \<le> length s \<and> (\<forall>t\<in>{i..<k}. class_match ic cls (s ! t))}"
proof (cases "i < length s \<and> class_match ic cls (s ! i)")
  case True
  then have "set (match_ends ic (RPlus (RClass cls)) s i) =
             set (rep_ends (match_ends ic (RClass cls) s) (length s) (Suc i))"
    by simp
  then show ?thesis
    unfolding rep_ends_class
    using True interval_plus [of i "length s" "\<lambda>t. class_match ic cls (s ! t)"] by auto
next
  case False
  then show ?thesis by (auto simp: Suc_le_eq)
qed

text \<open>\<open>^r$\<close> matches only from position 0, and only when \<open>r\<close> reaches the end.\<close>

lemma match_ends_anchored:
  "match_ends ic (RSeq RBegin (RSeq r REnd)) s i \<noteq> [] \<longleftrightarrow> i = 0 \<and> length s \<in> set (match_ends ic r s 0)"
  by auto

lemma scan_match_anchored_late:
  "R = RSeq RBegin r \<Longrightarrow> 0 < i \<Longrightarrow> scan_match ic R s i = None"
proof (induction ic R s i rule: scan_match.induct)
  case (1 ic R s i)
  then show ?case by (subst scan_match.simps) simp
qed

lemma scan_match_anchored:
  "scan_match ic (RSeq RBegin r) s 0 =
     (case match_ends ic r s 0 of e # _ \<Rightarrow> Some (0, e) | [] \<Rightarrow> None)"
  by (subst scan_match.simps) (simp add: scan_match_anchored_late split: list.split)

text \<open>\<open>r$\<close> keeps, in order, the ends of \<open>r\<close> at the end of the string.\<close>

lemma match_ends_end:
  "match_ends ic (RSeq r REnd) s i = filter (\<lambda>k. k = length s) (match_ends ic r s i)"
proof -
  have e: "match_ends ic REnd s = (\<lambda>k. if k = length s then [k] else [])"
    by (rule ext) simp
  have "concat (map (\<lambda>k. if k = length s then [k] else []) xs) = filter (\<lambda>k. k = length s) xs" for xs :: "nat list"
    by (induction xs) auto
  then show ?thesis by (simp add: e)
qed

lemma case_filter_end:
  "(case filter (\<lambda>k. k = n) xs of [] \<Rightarrow> None | e # _ \<Rightarrow> Some (i, e)) =
   (if n \<in> set xs then Some (i, n) else None)"
proof (cases "filter (\<lambda>k. k = n) xs")
  case Nil
  then show ?thesis by (auto simp: filter_empty_conv)
next
  case (Cons e es)
  then have "e \<in> set (filter (\<lambda>k. k = n) xs)" by simp
  then have "e = n" "n \<in> set xs" by auto
  then show ?thesis using Cons by simp
qed

text \<open>\<open>exec\<close> of a global \<open>/^r$/\<close>: a match only from \<open>lastIndex\<close> 0, spanning the
  whole string; \<open>lastIndex\<close> becomes the length of the string after a match, 0 after
  a failure.\<close>

lemma regexp_exec_anchored:
  assumes "rx_pattern rx = RSeq RBegin (RSeq r REnd)" and "rx_global rx"
  shows "regexp_exec rx s =
           (if rx_last_index rx = 0 \<and> length s \<in> set (match_ends (rx_ignore_case rx) r s 0)
            then (Some (0, length s), rx\<lparr>rx_last_index := length s\<rparr>)
            else (None, rx\<lparr>rx_last_index := 0\<rparr>))"
proof (cases "rx_last_index rx = 0")
  case True
  then show ?thesis using assms
    by (simp add: regexp_exec_def scan_match_anchored match_ends_end case_filter_end
        del: match_ends.simps(3))
next
  case False
  then show ?thesis using assms
    by (simp add: regexp_exec_def scan_match_anchored_late)
qed

text \<open>Under \<open>g\<close>, \<open>lastIndex\<close> never points beyond the string after \<open>exec\<close>, and a
  match found lies between the start of the scan and the end of the string.\<close>

lemma scan_match_bounds:
  "scan_match ic r s i = Some (b, e) \<Longrightarrow> i \<le> b \<and> b \<le> e \<and> e \<le> length s"
proof (induction ic r s i rule: scan_match.induct)
  case (1 ic r s i)
  show ?case
  proof (cases "length s < i")
    case False
    then show ?thesis using 1 match_ends_bounds [of e ic r s i]
      by (subst (asm) scan_match.simps) (fastforce split: list.splits)
  qed (use 1 in \<open>simp add: scan_match.simps\<close>)
qed

lemma regexp_exec_last_index_bound:
  "rx_global rx \<Longrightarrow> rx_last_index (snd (regexp_exec rx s)) \<le> length s"
  by (auto simp: regexp_exec_def dest: scan_match_bounds split: option.split)

end
