(* ===== verification/Markdown.thy ===== *)
theory Markdown
  imports Regex
begin

text \<open>
  The \<open>Markdown\<close> provider (\<open>core/components/providers/markdown.jsx\<close>): a source
  string that \<open>isPlainText\<close> accepts is rendered verbatim; anything else goes through
  Remarkable, DOMPurify and the deep-linking rewrite of \<open>manipHtmlStr\<close>, whose callback
  drops the \<open>target\<close> attribute of in-page anchors. Remarkable, DOMPurify and
  \<open>manipHtmlStr\<close> are libraries or files outside the sources: they are parameters of
  \<open>markdown_render\<close>, and the rewrite passes the callback's TypeError on, as a
  callback that throws inside it does.
\<close>

section \<open>isPlainText\<close>

text \<open>\<open>\s\<close> of a JavaScript regular expression, on Latin-1 code units: tab, line feed,
  vertical tab, form feed, carriage return, space and no-break space.\<close>

definition is_js_space :: "char \<Rightarrow> bool" where
  "is_js_space c \<longleftrightarrow> of_char c \<in> {9, 10, 11, 12, 13, 32, 160 :: nat}"

text \<open>The class \<open>[A-Z\s0-9!?\.]\<close> under the \<open>i\<close> flag: letters of either case.\<close>

definition is_plain_char :: "char \<Rightarrow> bool" where
  "is_plain_char c \<longleftrightarrow> is_alpha c \<or> is_js_space c \<or> is_digit c \<or> c \<in> set ''!?.''"

text \<open>\<open>/^[A-Z\s0-9!?\.]+$/gi.test(str)\<close>: the literal is evaluated afresh on each call,
  so the \<open>g\<close> flag's \<open>lastIndex\<close> never carries over; \<open>+\<close> needs one character.\<close>

definition is_plain_text :: "string \<Rightarrow> bool" where
  "is_plain_text s \<longleftrightarrow> s \<noteq> [] \<and> list_all is_plain_char s"

text \<open>The same literal as a RegExp object of theory \<open>Regex\<close>: the pattern
  \<open>^[A-Z\s0-9!?\.]+$\<close> with the flags \<open>g\<close> and \<open>i\<close>, and \<open>lastIndex\<close> 0 as
  every evaluation of the literal creates it.\<close>

definition plain_text_class :: "class_atom list" where
  "plain_text_class =
     [CRange CHR ''A'' CHR ''Z'', CSpace, CRange CHR ''0'' CHR ''9'',
      CChar CHR ''!'', CChar CHR ''?'', CChar CHR ''.'']"

definition plain_text_regexp :: regexp where
  "plain_text_regexp =
     \<lparr>rx_pattern = RSeq RBegin (RSeq (RPlus (RClass plain_text_class)) REnd),
      rx_global = True, rx_ignore_case = True, rx_last_index = 0\<rparr>"

section \<open>The deep-linking callback\<close>

record element =
  el_tag :: string
  el_attrs :: "(string \<times> string) list"

text \<open>\<open>const href = elem.attributes.href.value; if (href[0] === '#')
  elem.removeAttribute("target")\<close>. An anchor without \<open>href\<close> makes
  \<open>elem.attributes.href\<close> undefined, and reading \<open>.value\<close> of it throws.\<close>

definition deeplink_fix :: "element \<Rightarrow> element js" where
  "deeplink_fix e =
     (case map_of (el_attrs e) ''href'' of
        None \<Rightarrow> Inl (TypeError ''Cannot read properties of undefined (reading 'value')'')
      | Some href \<Rightarrow>
          if href \<noteq> [] \<and> hd href = CHR ''#'' then Inr (e\<lparr>el_attrs := AList.delete ''target'' (el_attrs e)\<rparr>)
          else Inr e)"

section \<open>Rendering\<close>

text \<open>\<open>cx(...)\<close> (the \<open>classnames\<close> package) on string arguments: the non-empty ones,
  joined by a space.\<close>

definition cx :: "string list \<Rightarrow> string" where
  "cx args = join_with '' '' (filter (\<lambda>a. a \<noteq> []) args)"

datatype md_out =
    MdNull
  | MdText string string
  | MdHtml string string

text \<open>\<open>Markdown({source, className = ""})\<close>. The parameters are Remarkable's
  \<open>render\<close>, \<open>sanitizer\<close> (DOMPurify with \<open>ADD_ATTR: ["target"]\<close>) and
  \<open>manipHtmlStr(html, 'a', callback)\<close>.\<close>

definition markdown_render ::
  "(string \<Rightarrow> string) \<Rightarrow> (string \<Rightarrow> string) \<Rightarrow> (string \<Rightarrow> (element \<Rightarrow> element js) \<Rightarrow> string js)
   \<Rightarrow> string \<Rightarrow> string \<Rightarrow> md_out js" where
  "markdown_render remarkable sanitizer manip source className =
     (if is_plain_text source then Inr (MdText ''markdown'' source)
      else
        (let html = remarkable source;
             sanitized = sanitizer html
         in case manip sanitized deeplink_fix of
              Inl err \<Rightarrow> Inl err
            | Inr linked \<Rightarrow>
                if source = [] \<or> html = [] \<or> linked = [] then Inr MdNull
                else Inr (MdHtml (cx [className, ''markdown'']) linked)))"

section \<open>The component on its props\<close>

text \<open>The options the component gives \<open>new Remarkable({...})\<close>.\<close>

record remarkable_options =
  rm_html :: bool
  rm_typographer :: bool
  rm_breaks :: bool
  rm_linkify :: bool
  rm_link_target :: string

definition markdown_remarkable_options :: remarkable_options where
  "markdown_remarkable_options =
     \<lparr>rm_html = True, rm_typographer = True, rm_breaks = True, rm_linkify = True,
      rm_link_target = ''_blank''\<rparr>"

text \<open>The exported \<open>sanitizer(str)\<close>: \<open>DomPurify.sanitize(str, {ADD_ATTR: ["target"]})\<close>,
  with DOMPurify a parameter taking its configuration.\<close>

record purify_config =
  add_attr :: "string list"

definition markdown_sanitizer :: "(purify_config \<Rightarrow> string \<Rightarrow> string) \<Rightarrow> string \<Rightarrow> string" where
  "markdown_sanitizer purify str = purify \<lparr>add_attr = [''target'']\<rparr> str"

text \<open>\<open>Markdown.propTypes\<close>: \<open>source\<close> a required string, \<open>className\<close> a string.\<close>

definition markdown_prop_types :: "(string \<times> prop_type \<times> bool) list" where
  "markdown_prop_types = [(''source'', PTString, True), (''className'', PTString, False)]"

text \<open>What React shows for a child value: a string or a number as text; \<open>undefined\<close>,
  \<open>null\<close> and booleans show nothing.\<close>

fun react_text :: "jsval \<Rightarrow> string" where
  "react_text (JStr s) = s"
| "react_text (JNum i) = int_str i"
| "react_text _ = []"

text \<open>One argument of \<open>cx\<close>: a string or a non-zero number is a class, an object
  gives its keys with truthy values, anything else is skipped.\<close>

fun cx_arg :: "jsval \<Rightarrow> string list" where
  "cx_arg (JStr s) = [s]"
| "cx_arg (JNum i) = (if i = 0 then [] else [int_str i])"
| "cx_arg (JObj kvs) = map fst (filter (\<lambda>(k, v). truthy v) kvs)"
| "cx_arg _ = []"

text \<open>\<open>Markdown({source, className = ""})\<close> on its props object: \<open>isPlainText\<close> runs
  the literal's \<open>test\<close> on \<open>String(source)\<close>, the plain path shows \<open>source\<close> as a
  React child, Remarkable (a parameter, which may throw) renders \<open>source\<close>, and the
  default \<open>""\<close> replaces only an \<open>undefined\<close> class name. The class name a
  string-typed prop gives \<open>cx\<close> is \<open>md_class_name\<close>.\<close>

definition markdown ::
  "(remarkable_options \<Rightarrow> jsval \<Rightarrow> string js) \<Rightarrow> (purify_config \<Rightarrow> string \<Rightarrow> string)
   \<Rightarrow> (string \<Rightarrow> (element \<Rightarrow> element js) \<Rightarrow> string js) \<Rightarrow> jsobj \<Rightarrow> md_out js" where
  "markdown remarkable purify manip props =
     (let source = get_prop props ''source'';
          className = (case get_prop props ''className'' of JUndef \<Rightarrow> JStr [] | c \<Rightarrow> c)
      in if fst (regexp_test plain_text_regexp (js_to_string source))
         then Inr (MdText ''markdown'' (react_text source))
         else
           (case remarkable markdown_remarkable_options source of
              Inl err \<Rightarrow> Inl err
            | Inr html \<Rightarrow>
                (case manip (markdown_sanitizer purify html) deeplink_fix of
                   Inl err \<Rightarrow> Inl err
                 | Inr linked \<Rightarrow>
                     if \<not> truthy source \<or> html = [] \<or> linked = [] then Inr MdNull
                     else Inr (MdHtml (cx (cx_arg className @ [''markdown''])) linked))))"

definition md_class_name :: "jsobj \<Rightarrow> string" where
  "md_class_name props = (case get_prop props ''className'' of JStr c \<Rightarrow> c | _ \<Rightarrow> [])"

text \<open>A deep-linking rewrite for the examples: it hands the callback one anchor and
  keeps the markup when the callback returns.\<close>

definition manip_one_anchor :: "element \<Rightarrow> string \<Rightarrow> (element \<Rightarrow> element js) \<Rightarrow> string js" where
  "manip_one_anchor a html cb = (case cb a of Inl err \<Rightarrow> Inl err | Inr _ \<Rightarrow> Inr html)"

definition in_page_anchor :: element where
  "in_page_anchor = \<lparr>el_tag = ''a'', el_attrs = [(''href'', ''#/pet/addPet''), (''target'', ''_blank'')]\<rparr>"

definition named_anchor :: element where
  "named_anchor = \<lparr>el_tag = ''a'', el_attrs = [(''name'', ''models'')]\<rparr>"

section \<open>Lemmas\<close>

lemma is_plain_text_Nil [simp]: "\<not> is_plain_text []"
  by (simp add: is_plain_text_def)

text \<open>Characters that start Markdown or HTML syntax are never plain.\<close>

lemma is_plain_char_markup:
  "c \<in> set ''*_#[]()<>`|~-+=&'' \<Longrightarrow> \<not> is_plain_char c"
  by (auto simp: is_plain_char_def is_alpha_def is_digit_def is_js_space_def)

lemma is_plain_text_no_markup:
  "is_plain_text s \<Longrightarrow> c \<in> set ''*_#[]()<>`|~-+=&'' \<Longrightarrow> c \<notin> set s"
  using is_plain_char_markup by (auto simp: is_plain_text_def list_all_iff)

text \<open>The class of the literal, under \<open>i\<close>, is \<open>is_plain_char\<close>: checked on each of
  the 256 Latin-1 characters.\<close>

lemma plain_text_class_all:
  "list_all (\<lambda>c. class_match True plain_text_class c = is_plain_char c) (Enum.enum :: char list)"
  by code_simp

lemma plain_text_class_match: "class_match True plain_text_class c = is_plain_char c"
  using plain_text_class_all by (simp add: list_all_iff enum_UNIV)

lemma plain_text_regexp_reset: "plain_text_regexp\<lparr>rx_last_index := 0\<rparr> = plain_text_regexp"
  by (simp add: plain_text_regexp_def)

text \<open>\<open>test\<close> of the literal's object from any \<open>lastIndex\<close>.\<close>

lemma regexp_test_plain_text:
  "regexp_test (plain_text_regexp\<lparr>rx_last_index := n\<rparr>) s =
     (n = 0 \<and> is_plain_text s,
      plain_text_regexp\<lparr>rx_last_index := if n = 0 \<and> is_plain_text s then length s else 0\<rparr>)"
proof -
  have "length s \<in> set (match_ends True (RPlus (RClass plain_text_class)) s 0) \<longleftrightarrow> is_plain_text s"
    unfolding match_ends_plus_class
    by (auto simp: plain_text_class_match is_plain_text_def list_all_length)
  then show ?thesis
    by (simp add: regexp_test_def regexp_exec_anchored plain_text_regexp_def)
qed

lemma cx_markdown:
  "cx [className, ''markdown''] = (if className = [] then ''markdown'' else className @ '' markdown'')"
  by (simp add: cx_def)

section \<open>Properties of the Markdown provider\<close>

text \<open>C1: text that \<open>isPlainText\<close> accepts is rendered verbatim in a
  \<open>div.markdown\<close>, without Remarkable, DOMPurify or the deep-link rewrite, and with the
  caller's \<open>className\<close> left out.\<close>

theorem markdown_plain_text_verbatim:
  "is_plain_text source \<Longrightarrow>
   markdown_render remarkable sanitizer manip source className = Inr (MdText ''markdown'' source)"
  by (simp add: markdown_render_def)

theorem markdown_plain_text_verbatim_witness:
  "is_plain_text ''Returns 42 pets.'' \<and>
   markdown_render (\<lambda>_. []) (\<lambda>_. []) (\<lambda>h cb. Inr h) ''Returns 42 pets.'' ''opblock-description'' =
     Inr (MdText ''markdown'' ''Returns 42 pets.'')"
proof -
  have h: "is_plain_text ''Returns 42 pets.''"
    by (simp add: is_plain_text_def is_plain_char_def is_alpha_def is_digit_def is_js_space_def)
  show ?thesis using h markdown_plain_text_verbatim [OF h] by (rule conjI)
qed

text \<open>C6: the deep-link callback removes \<open>target\<close> from an anchor whose \<open>href\<close>
  starts with \<open>#\<close> (an in-page link then opens in place) and leaves every other anchor
  with an \<open>href\<close> as it was.\<close>

theorem deeplink_fix_anchor:
  "map_of (el_attrs e) ''href'' = Some href \<Longrightarrow>
   deeplink_fix e =
     Inr (if prefix ''#'' href then e\<lparr>el_attrs := AList.delete ''target'' (el_attrs e)\<rparr> else e) \<and>
   (prefix ''#'' href \<longrightarrow> map_of (AList.delete ''target'' (el_attrs e)) ''target'' = None)"
  by (cases href) (auto simp: deeplink_fix_def delete_conv')

theorem deeplink_fix_anchor_witness:
  "map_of (el_attrs in_page_anchor) ''href'' = Some ''#/pet/addPet'' \<and>
   deeplink_fix in_page_anchor =
     Inr (if prefix ''#'' ''#/pet/addPet''
          then in_page_anchor\<lparr>el_attrs := AList.delete ''target'' (el_attrs in_page_anchor)\<rparr>
          else in_page_anchor) \<and>
   map_of (AList.delete ''target'' (el_attrs in_page_anchor)) ''target'' = None"
proof -
  have h: "map_of (el_attrs in_page_anchor) ''href'' = Some ''#/pet/addPet''"
    by (simp add: in_page_anchor_def)
  have p: "prefix ''#'' ''#/pet/addPet''" by simp
  show ?thesis using h p deeplink_fix_anchor [OF h] by blast
qed

text \<open>C7: an anchor without \<open>href\<close> (e.g. \<open><a name="x">\<close>, which survives
  sanitizing) makes the callback throw a TypeError, and the Markdown provider's render
  fails with it.\<close>

theorem deeplink_fix_missing_href:
  assumes "map_of (el_attrs a) ''href'' = None" and "\<not> is_plain_text source"
  shows "\<exists>err. deeplink_fix a = Inl err \<and>
           markdown_render remarkable sanitizer (manip_one_anchor a) source className = Inl err"
  using assms by (simp add: deeplink_fix_def markdown_render_def manip_one_anchor_def Let_def)

theorem deeplink_fix_missing_href_witness:
  "map_of (el_attrs named_anchor) ''href'' = None \<and> \<not> is_plain_text ''<a name=\"models\"></a>'' \<and>
   (\<exists>err. deeplink_fix named_anchor = Inl err \<and>
      markdown_render (\<lambda>s. s) (\<lambda>s. s) (manip_one_anchor named_anchor) ''<a name=\"models\"></a>'' [] = Inl err)"
proof -
  have h1: "map_of (el_attrs named_anchor) ''href'' = None" by (simp add: named_anchor_def)
  have h2: "\<not> is_plain_text ''<a name=\"models\"></a>''"
    by (simp add: is_plain_text_def is_plain_char_def is_alpha_def is_digit_def is_js_space_def)
  show ?thesis using h1 h2 deeplink_fix_missing_href [OF h1 h2] by blast
qed

text \<open>C16: an empty source renders nothing (\<open>null\<close>) once the rewrite has run: the
  empty string is not plain text, and the final guard \<open>!source\<close> catches it.\<close>

theorem markdown_empty_source_null:
  "manip (sanitizer (remarkable [])) deeplink_fix = Inr linked \<Longrightarrow>
   markdown_render remarkable sanitizer manip [] className = Inr MdNull"
  by (simp add: markdown_render_def Let_def)

theorem markdown_empty_source_null_witness:
  "markdown_render (\<lambda>s. ''<p></p>'') (\<lambda>s. s) (\<lambda>h cb. Inr h) [] ''x'' = Inr MdNull"
  by (rule markdown_empty_source_null [where linked = "''<p></p>''"]) simp

text \<open>C17: rendered Markdown carries the caller's class followed by \<open>markdown\<close> (only
  \<open>markdown\<close> when no class is given), and is never empty.\<close>

theorem markdown_html_class:
  "markdown_render remarkable sanitizer manip source className = Inr (MdHtml cls html) \<Longrightarrow>
   cls = (if className = [] then ''markdown'' else className @ '' markdown'') \<and> html \<noteq> [] \<and>
   \<not> is_plain_text source"
  by (auto simp: markdown_render_def Let_def cx_markdown split: if_splits sum.splits)

theorem markdown_html_class_witness:
  "markdown_render (\<lambda>s. ''<p><em>x</em></p>'') (\<lambda>s. s) (\<lambda>h cb. Inr h) ''*x*'' ''opblock''
     = Inr (MdHtml ''opblock markdown'' ''<p><em>x</em></p>'') \<and>
   ''opblock markdown'' = (if ''opblock'' = [] then ''markdown'' else ''opblock'' @ '' markdown'') \<and>
   ''<p><em>x</em></p>'' \<noteq> [] \<and> \<not> is_plain_text ''*x*''"
proof -
  have np: "\<not> is_plain_text ''*x*''"
    by (simp add: is_plain_text_def is_plain_char_def is_alpha_def is_digit_def is_js_space_def)
  have h: "markdown_render (\<lambda>s. ''<p><em>x</em></p>'') (\<lambda>s. s) (\<lambda>h cb. Inr h) ''*x*'' ''opblock''
     = Inr (MdHtml ''opblock markdown'' ''<p><em>x</em></p>'')"
    using np by (simp add: markdown_render_def cx_markdown)
  show ?thesis using h markdown_html_class [OF h] by (rule conjI)
qed


text \<open>C20: \<open>isPlainText\<close> read directly (a non-empty string of letters, \<open>\s\<close>
  characters, digits and \<open>!?.\<close>) is what ECMAScript's \<open>test\<close> answers for the literal
  \<open>/^[A-Z\s0-9!?\.]+$/gi\<close> of line 9, for every string.\<close>

theorem plain_text_regexp_test:
  "fst (regexp_test plain_text_regexp s) = is_plain_text s"
  using regexp_test_plain_text [of 0 s] by (simp add: plain_text_regexp_reset)

text \<open>C23: when \<open>source\<close> is \<open>undefined\<close> or \<open>null\<close>, which \<open>Markdown.propTypes\<close>
  reports, \<open>isPlainText\<close> tests the text \<open>"undefined"\<close> or \<open>"null"\<close>, which is plain,
  and the component renders an empty \<open>div.markdown\<close>: the guard \<open>!source\<close> that
  returns \<open>null\<close> is never reached for them.\<close>

theorem markdown_missing_source:
  assumes "get_prop props ''source'' = JUndef \<or> get_prop props ''source'' = JNull"
  shows "\<not> prop_types_ok markdown_prop_types props \<and>
         markdown remarkable purify manip props = Inr (MdText ''markdown'' [])"
proof -
  have p: "is_plain_text ''undefined''" "is_plain_text ''null''"
    by (simp_all add: is_plain_text_def is_plain_char_def is_alpha_def)
  have t: "fst (regexp_test plain_text_regexp (js_to_string (get_prop props ''source'')))"
    using assms p regexp_test_plain_text [of 0] by (auto simp: plain_text_regexp_reset)
  show ?thesis
    using assms t by (auto simp: markdown_def prop_types_ok_def markdown_prop_types_def Let_def)
qed


theorem markdown_missing_source_witness:
  "get_prop [(''className'', JStr ''opblock'')] ''source'' = JUndef \<and>
   \<not> prop_types_ok markdown_prop_types [(''className'', JStr ''opblock'')] \<and>
   markdown (\<lambda>_ _. Inr ''<p></p>'') (\<lambda>_ h. h) (\<lambda>h cb. Inr h) [(''className'', JStr ''opblock'')] =
     Inr (MdText ''markdown'' [])"
proof -
  have h: "get_prop [(''className'', JStr ''opblock'')] ''source'' = JUndef \<or>
           get_prop [(''className'', JStr ''opblock'')] ''source'' = JNull"
    by (simp add: get_prop_def)
  have u: "get_prop [(''className'', JStr ''opblock'')] ''source'' = JUndef"
    by (simp add: get_prop_def)
  show ?thesis using u markdown_missing_source [OF h] by blast
qed

end
