(* ===== verification/Badge.thy ===== *)
theory Badge
  imports Prelude
begin

text \<open>
  The online validator badge (\<open>core/components/online-validator-badge.jsx\<close>, lines
  1-61): the component \<open>OnlineValidatorBadge\<close>, whose state holds the definition URL
  and the validator URL. \<open>new URL(specSelectors.url(), win.location).toString()\<close> and
  \<open>sanitizeUrl\<close> (\<open>core/utils\<close>) are outside the sources and are parameters. The
  image it renders, \<open>ValidatorImage\<close>, is the theory \<open>ValidatorImage\<close>.
\<close>

section \<open>OnlineValidatorBadge\<close>

text \<open>What the component reads through its props when a method runs:
  \<open>specSelectors.url()\<close>, and \<open>validatorUrl\<close> and \<open>spec\<close> of \<open>getConfigs()\<close>.
  The plugin system binds \<open>specSelectors\<close> and \<open>getConfigs\<close> to its store, so a
  call returns the store's current value, whether it is made through \<open>this.props\<close>
  or through \<open>nextProps\<close>; a record holds the values of the calls made at one
  moment.\<close>

record badge_props =
  bp_spec_url :: string
  bp_validator_url :: jsval
  bp_spec :: jsval

record badge_state =
  bs_url :: string
  bs_validator_url :: jsval

definition default_validator_url :: string where
  "default_validator_url = ''https://online.swagger.io/validator''"

text \<open>\<open>validatorUrl === undefined ? "https://online.swagger.io/validator" : validatorUrl\<close>:
  only \<open>undefined\<close> selects the default; \<open>null\<close> is kept, and disables the badge.\<close>

definition validator_or_default :: "jsval \<Rightarrow> jsval" where
  "validator_or_default v = (if v = JUndef then JStr default_validator_url else v)"

text \<open>\<open>getDefinitionUrl\<close>: \<open>new URL(specSelectors.url(), win.location).toString()\<close>.\<close>

definition get_definition_url :: "(string \<Rightarrow> string) \<Rightarrow> badge_props \<Rightarrow> string" where
  "get_definition_url resolve_loc props = resolve_loc (bp_spec_url props)"

definition badge_init :: "(string \<Rightarrow> string) \<Rightarrow> badge_props \<Rightarrow> badge_state" where
  "badge_init resolve_loc props =
     \<lparr>bs_url = get_definition_url resolve_loc props,
      bs_validator_url = validator_or_default (bp_validator_url props)\<rparr>"

text \<open>\<open>componentWillReceiveProps(nextProps)\<close>: \<open>getDefinitionUrl()\<close> calls
  \<open>this.props.specSelectors.url()\<close>, bound to the same store as
  \<open>nextProps.specSelectors\<close>, and the validator URL comes from
  \<open>nextProps.getConfigs()\<close>: both are the system's current values \<open>sys\<close>.\<close>

definition badge_receive_props ::
  "(string \<Rightarrow> string) \<Rightarrow> badge_props \<Rightarrow> badge_state \<Rightarrow> badge_state" where
  "badge_receive_props resolve_loc sys st =
     st\<lparr>bs_url := get_definition_url resolve_loc sys,
        bs_validator_url := validator_or_default (bp_validator_url sys)\<rparr>"

datatype badge_out =
    BadgeNull
  | BadgeLink string string string

definition badge_alt :: string where
  "badge_alt = ''Online validator badge''"

text \<open>\<open>render()\<close>: nothing when a spec object with keys was passed in the configuration,
  nothing for an empty URL, a falsy validator URL or a URL naming \<open>localhost\<close> or
  \<open>127.0.0.1\<close>; otherwise a link to \<open>validator/debug?url=...\<close> around the image
  \<open>validator?url=...\<close>. \<open>Object.keys(spec)\<close> throws when \<open>spec\<close> is \<open>null\<close>
  (whose \<open>typeof\<close> is \<open>"object"\<close>).\<close>

definition badge_render :: "(jsval \<Rightarrow> string) \<Rightarrow> badge_props \<Rightarrow> badge_state \<Rightarrow> badge_out js" where
  "badge_render sanitize_url props st =
     (let sanitized = sanitize_url (bs_validator_url st);
          url = bs_url st;
          rest = (if url = [] \<or> \<not> truthy (bs_validator_url st) \<or> contains url ''localhost''
                     \<or> contains url ''127.0.0.1'' then Inr BadgeNull
                  else Inr (BadgeLink (sanitized @ ''/debug?url='' @ url) (sanitized @ ''?url='' @ url) badge_alt))
      in if typeof_object (bp_spec props) then
           (case object_keys (bp_spec props) of
              Inl err \<Rightarrow> Inl err
            | Inr ks \<Rightarrow> if ks \<noteq> [] then Inr BadgeNull else rest)
         else rest)"

text \<open>Props for the examples: a spec loaded from a public URL, no inline spec.\<close>

definition public_props :: badge_props where
  "public_props =
     \<lparr>bp_spec_url = ''https://petstore.swagger.io/v2/swagger.json'', bp_validator_url = JUndef,
      bp_spec = JObj []\<rparr>"

section \<open>Lemmas\<close>

lemma badge_render_rest:
  "\<not> typeof_object (bp_spec props) \<or> bp_spec props = JObj [] \<Longrightarrow>
   badge_render sanitize_url props st =
     (if bs_url st = [] \<or> \<not> truthy (bs_validator_url st) \<or> contains (bs_url st) ''localhost''
         \<or> contains (bs_url st) ''127.0.0.1'' then Inr BadgeNull
      else Inr (BadgeLink (sanitize_url (bs_validator_url st) @ ''/debug?url='' @ bs_url st)
                          (sanitize_url (bs_validator_url st) @ ''?url='' @ bs_url st) badge_alt))"
  by (auto simp: badge_render_def Let_def)

section \<open>Properties of the badge\<close>

text \<open>C3: the badge links to the validator only for a non-empty definition URL that names
  neither \<open>localhost\<close> nor \<open>127.0.0.1\<close>, with a truthy validator URL, and the link and
  the image both pass that URL to the sanitized validator address.\<close>

theorem badge_link_only_for_public_urls:
  "badge_render sanitize_url props st = Inr (BadgeLink href src alt) \<Longrightarrow>
   bs_url st \<noteq> [] \<and> truthy (bs_validator_url st) \<and>
   \<not> contains (bs_url st) ''localhost'' \<and> \<not> contains (bs_url st) ''127.0.0.1'' \<and>
   href = sanitize_url (bs_validator_url st) @ ''/debug?url='' @ bs_url st \<and>
   src = sanitize_url (bs_validator_url st) @ ''?url='' @ bs_url st"
  by (auto simp: badge_render_def Let_def split: if_splits sum.splits)

theorem badge_link_only_for_public_urls_witness:
  "badge_render (\<lambda>v. case v of JStr s \<Rightarrow> s | _ \<Rightarrow> []) public_props (badge_init (\<lambda>u. u) public_props) =
     Inr (BadgeLink ''https://online.swagger.io/validator/debug?url=https://petstore.swagger.io/v2/swagger.json''
                    ''https://online.swagger.io/validator?url=https://petstore.swagger.io/v2/swagger.json'' badge_alt) \<and>
   bs_url (badge_init (\<lambda>u. u) public_props) \<noteq> [] \<and>
   truthy (bs_validator_url (badge_init (\<lambda>u. u) public_props)) \<and>
   \<not> contains (bs_url (badge_init (\<lambda>u. u) public_props)) ''localhost'' \<and>
   \<not> contains (bs_url (badge_init (\<lambda>u. u) public_props)) ''127.0.0.1'' \<and>
   ''https://online.swagger.io/validator/debug?url=https://petstore.swagger.io/v2/swagger.json'' =
     (\<lambda>v. case v of JStr s \<Rightarrow> s | _ \<Rightarrow> []) (bs_validator_url (badge_init (\<lambda>u. u) public_props)) @
       ''/debug?url='' @ bs_url (badge_init (\<lambda>u. u) public_props) \<and>
   ''https://online.swagger.io/validator?url=https://petstore.swagger.io/v2/swagger.json'' =
     (\<lambda>v. case v of JStr s \<Rightarrow> s | _ \<Rightarrow> []) (bs_validator_url (badge_init (\<lambda>u. u) public_props)) @
       ''?url='' @ bs_url (badge_init (\<lambda>u. u) public_props)"
proof -
  have h: "badge_render (\<lambda>v. case v of JStr s \<Rightarrow> s | _ \<Rightarrow> []) public_props (badge_init (\<lambda>u. u) public_props) =
     Inr (BadgeLink ''https://online.swagger.io/validator/debug?url=https://petstore.swagger.io/v2/swagger.json''
                    ''https://online.swagger.io/validator?url=https://petstore.swagger.io/v2/swagger.json'' badge_alt)"
    by (simp add: badge_render_def public_props_def badge_init_def get_definition_url_def
        validator_or_default_def default_validator_url_def Let_def) code_simp
  show ?thesis using h badge_link_only_for_public_urls [OF h] by (rule conjI)
qed

text \<open>C9: a configuration whose \<open>spec\<close> is \<open>null\<close> makes the badge's render throw:
  \<open>typeof null\<close> is \<open>"object"\<close> and \<open>Object.keys(null)\<close> raises a TypeError.\<close>

theorem badge_null_spec_throws:
  "bp_spec props = JNull \<Longrightarrow> \<exists>err. badge_render sanitize_url props st = Inl err"
  by (simp add: badge_render_def Let_def)

theorem badge_null_spec_throws_witness:
  "bp_spec (public_props\<lparr>bp_spec := JNull\<rparr>) = JNull \<and>
   (\<exists>err. badge_render (\<lambda>_. []) (public_props\<lparr>bp_spec := JNull\<rparr>) (badge_init (\<lambda>u. u) public_props) = Inl err)"
proof -
  have h: "bp_spec (public_props\<lparr>bp_spec := JNull\<rparr>) = JNull" by simp
  show ?thesis using h badge_null_spec_throws [OF h] by (rule conjI)
qed

text \<open>C11: only an \<open>undefined\<close> validator URL selects the public validator; a
  \<open>null\<close> one is kept and hides the badge.\<close>

theorem badge_validator_url_default:
  assumes "\<not> typeof_object (bp_spec props') \<or> bp_spec props' = JObj []"
  shows "bs_validator_url (badge_init resolve_loc (props\<lparr>bp_validator_url := JUndef\<rparr>)) =
           JStr default_validator_url \<and>
         bs_validator_url (badge_init resolve_loc (props\<lparr>bp_validator_url := JNull\<rparr>)) = JNull \<and>
         badge_render sanitize_url props' (badge_init resolve_loc (props\<lparr>bp_validator_url := JNull\<rparr>)) =
           Inr BadgeNull"
  using badge_render_rest [OF assms] by (simp add: badge_init_def validator_or_default_def)

theorem badge_validator_url_default_witness:
  "bp_spec public_props = JObj [] \<and>
   bs_validator_url (badge_init (\<lambda>u. u) (public_props\<lparr>bp_validator_url := JUndef\<rparr>)) =
     JStr default_validator_url \<and>
   bs_validator_url (badge_init (\<lambda>u. u) (public_props\<lparr>bp_validator_url := JNull\<rparr>)) = JNull \<and>
   badge_render (\<lambda>_. []) public_props (badge_init (\<lambda>u. u) (public_props\<lparr>bp_validator_url := JNull\<rparr>)) =
     Inr BadgeNull"
proof -
  have h: "\<not> typeof_object (bp_spec public_props) \<or> bp_spec public_props = JObj []"
    by (simp add: public_props_def)
  have s: "bp_spec public_props = JObj []" by (simp add: public_props_def)
  show ?thesis using s badge_validator_url_default [OF h] by (rule conjI)
qed

end
