(* ===== verification/ValidatorImage.thy ===== *)
theory ValidatorImage
  imports Prelude
begin

text \<open>
  \<open>ValidatorImage\<close> (\<open>core/components/online-validator-badge.jsx\<close>, lines 63-120):
  the image the validator badge shows. Its state records whether the browser reported
  an image loaded or failed; \<open>onload\<close>/\<open>onerror\<close> are events the browser delivers
  later, one per created image, in any order. The handlers are the step function
  \<open>image_step\<close>, a run is a list of events (\<open>image_run\<close>), and the states the
  component can reach are the inductive \<open>image_reach\<close>. The abstract machine of the
  three phases waiting, shown and failed is refined by the component.
\<close>

section \<open>State and handlers\<close>

text \<open>State: the props \<open>src\<close> and \<open>alt\<close>, the flags \<open>loaded\<close> and \<open>error\<close>, and
  the images created and not yet reported on by the browser (each by its \<open>src\<close>).\<close>

record image_state =
  img_src :: string
  img_alt :: string
  img_loaded :: bool
  img_error :: bool
  img_pending :: "string list"

datatype image_event =
    ImgLoad nat
  | ImgFail nat
  | ImgProps string string

text \<open>\<open>ValidatorImage.propTypes\<close>: \<open>src\<close> and \<open>alt\<close> strings, not required.\<close>

definition image_prop_types :: "(string \<times> prop_type \<times> bool) list" where
  "image_prop_types = [(''src'', PTString, False), (''alt'', PTString, False)]"

text \<open>The constructor.\<close>

definition image_init :: "string \<Rightarrow> string \<Rightarrow> image_state" where
  "image_init src alt =
     \<lparr>img_src = src, img_alt = alt, img_loaded = False, img_error = False, img_pending = []\<rparr>"

text \<open>\<open>componentDidMount\<close>, which React calls once, right after the constructor
  and the first render: it creates an image for \<open>props.src\<close>.\<close>

definition image_mount :: "image_state \<Rightarrow> image_state" where
  "image_mount s = s\<lparr>img_pending := img_pending s @ [img_src s]\<rparr>"

text \<open>The events of a mounted component: \<open>onload\<close> sets \<open>loaded\<close>, \<open>onerror\<close> sets
  \<open>error\<close>, whichever image fires; \<open>componentWillReceiveProps\<close> creates a new image
  when \<open>src\<close> changes and resets neither flag. The browser reports on the \<open>i\<close>-th
  pending image.\<close>

fun image_step :: "image_state \<Rightarrow> image_event \<Rightarrow> image_state" where
  "image_step s (ImgLoad i) =
     (if i < length (img_pending s)
      then s\<lparr>img_loaded := True, img_pending := take i (img_pending s) @ drop (Suc i) (img_pending s)\<rparr>
      else s)"
| "image_step s (ImgFail i) =
     (if i < length (img_pending s)
      then s\<lparr>img_error := True, img_pending := take i (img_pending s) @ drop (Suc i) (img_pending s)\<rparr>
      else s)"
| "image_step s (ImgProps src alt) =
     (if src \<noteq> img_src s
      then s\<lparr>img_src := src, img_alt := alt, img_pending := img_pending s @ [src]\<rparr>
      else s\<lparr>img_src := src, img_alt := alt\<rparr>)"

definition image_run :: "image_state \<Rightarrow> image_event list \<Rightarrow> image_state" where
  "image_run s evs = fold (\<lambda>e s. image_step s e) evs s"

datatype image_out =
    ImgNothing
  | ImgBroken string
  | ImgShown string string

text \<open>\<open>render()\<close>: the alt text "Error" after a failure, nothing before a load, the
  image otherwise.\<close>

definition image_render :: "image_state \<Rightarrow> image_out" where
  "image_render s =
     (if img_error s then ImgBroken ''Error''
      else if \<not> img_loaded s then ImgNothing
      else ImgShown (img_src s) (img_alt s))"

definition is_load :: "image_event \<Rightarrow> bool" where
  "is_load e \<longleftrightarrow> (case e of ImgLoad _ \<Rightarrow> True | _ \<Rightarrow> False)"

section \<open>Reachable states\<close>

text \<open>The states of a component mounted with the props \<open>src\<close> and \<open>alt\<close>: the one
  the constructor and \<open>componentDidMount\<close> leave, and every state one handler leads to
  from a reachable one.\<close>

inductive image_reach :: "string \<Rightarrow> string \<Rightarrow> image_state \<Rightarrow> bool" for src alt where
  reach_init: "image_reach src alt (image_mount (image_init src alt))"
| reach_step: "image_reach src alt s \<Longrightarrow> image_reach src alt (image_step s e)"

inductive_cases image_reach_cases: "image_reach src alt s"

section \<open>The abstract machine\<close>

text \<open>What the component promises to show: waiting (nothing), shown (the image of the
  current props) or failed (the Error image); the browser's report on an image in
  flight is the only signal. A failure is final and a load shows the image.\<close>

datatype img_phase = Waiting | Shown | Failed

datatype img_signal = SigLoad | SigFail | SigNone

fun phase_step :: "img_phase \<Rightarrow> img_signal \<Rightarrow> img_phase" where
  "phase_step Failed _ = Failed"
| "phase_step _ SigFail = Failed"
| "phase_step Waiting SigLoad = Shown"
| "phase_step p _ = p"

fun phase_render :: "img_phase \<Rightarrow> string \<Rightarrow> string \<Rightarrow> image_out" where
  "phase_render Waiting src alt = ImgNothing"
| "phase_render Shown src alt = ImgShown src alt"
| "phase_render Failed src alt = ImgBroken ''Error''"

text \<open>The abstraction of a concrete state, and the signal an event carries: a report
  counts only for an image in flight.\<close>

definition image_phase :: "image_state \<Rightarrow> img_phase" where
  "image_phase s = (if img_error s then Failed else if img_loaded s then Shown else Waiting)"

fun image_signal :: "image_state \<Rightarrow> image_event \<Rightarrow> img_signal" where
  "image_signal s (ImgLoad i) = (if i < length (img_pending s) then SigLoad else SigNone)"
| "image_signal s (ImgFail i) = (if i < length (img_pending s) then SigFail else SigNone)"
| "image_signal s _ = SigNone"


section \<open>Lemmas\<close>

lemma image_run_Nil [simp]: "image_run s [] = s"
  and image_run_Cons [simp]: "image_run s (e # es) = image_run (image_step s e) es"
  by (simp_all add: image_run_def)

lemma image_reach_run: "image_reach src alt (image_run (image_mount (image_init src alt)) evs)"
proof (induction evs rule: rev_induct)
  case (snoc e evs)
  then show ?case using image_reach.reach_step by (simp add: image_run_def)
qed (simp add: image_reach.reach_init)

lemma image_reach_iff_run:
  "image_reach src alt s \<longleftrightarrow> (\<exists>evs. s = image_run (image_mount (image_init src alt)) evs)"
proof
  assume "image_reach src alt s"
  then show "\<exists>evs. s = image_run (image_mount (image_init src alt)) evs"
  proof (induction rule: image_reach.induct)
    case reach_init
    then show ?case by (metis image_run_Nil)
  next
    case (reach_step s e)
    then obtain evs where "s = image_run (image_mount (image_init src alt)) evs" by blast
    then have "image_step s e = image_run (image_mount (image_init src alt)) (evs @ [e])"
      by (simp add: image_run_def)
    then show ?case by blast
  qed
next
  assume "\<exists>evs. s = image_run (image_mount (image_init src alt)) evs"
  then show "image_reach src alt s" using image_reach_run by blast
qed

lemma image_run_append: "image_run s (xs @ ys) = image_run (image_run s xs) ys"
  by (simp add: image_run_def)

text \<open>Frame facts of one step: no handler clears a flag.\<close>

lemma image_step_error_mono: "img_error s \<Longrightarrow> img_error (image_step s e)"
  by (cases e) auto

lemma image_step_loaded_mono: "img_loaded s \<Longrightarrow> img_loaded (image_step s e)"
  by (cases e) auto

lemma image_step_loaded_only_by_load:
  "\<not> is_load e \<Longrightarrow> img_loaded (image_step s e) = img_loaded s"
  by (cases e) (auto simp: is_load_def)

lemma image_run_error_mono: "img_error s \<Longrightarrow> img_error (image_run s evs)"
  by (induction evs arbitrary: s) (auto intro: image_step_error_mono)

lemma image_run_no_load:
  "\<forall>e \<in> set evs. \<not> is_load e \<Longrightarrow> img_loaded (image_run s evs) = img_loaded s"
  by (induction evs arbitrary: s) (auto simp: image_step_loaded_only_by_load)

text \<open>The invariant of the mounted component: until the browser has reported on an
  image, an image is in flight and the newest one is for the current \<open>src\<close>.\<close>

lemma image_reach_in_flight:
  "image_reach src alt s \<Longrightarrow>
   img_loaded s \<or> img_error s \<or> (img_pending s \<noteq> [] \<and> last (img_pending s) = img_src s)"
proof (induction rule: image_reach.induct)
  case reach_init
  then show ?case by (simp add: image_mount_def image_init_def)
next
  case (reach_step s e)
  then show ?case by (cases e) auto
qed

section \<open>Properties of the validator image\<close>

text \<open>C4: once the browser reports a failed image, the component shows the "Error"
  image for ever: no later event, a new \<open>src\<close> and its successful load included, clears
  the flag.\<close>

theorem image_error_is_sticky:
  "img_error s \<Longrightarrow> image_render (image_run s evs) = ImgBroken ''Error''"
  by (simp add: image_render_def image_run_error_mono)

theorem image_error_is_sticky_witness:
  "img_error (image_run (image_mount (image_init ''a.png'' ''badge'')) [ImgFail 0]) \<and>
   image_render (image_run (image_run (image_mount (image_init ''a.png'' ''badge'')) [ImgFail 0])
                   [ImgProps ''b.png'' ''badge'', ImgLoad 0]) = ImgBroken ''Error''"
proof -
  have h: "img_error (image_run (image_mount (image_init ''a.png'' ''badge'')) [ImgFail 0])"
    by (simp add: image_mount_def image_init_def)
  show ?thesis using h image_error_is_sticky [OF h] by (rule conjI)
qed

text \<open>C8: the image is never shown before the browser has reported a load: from a state
  that has not loaded, a run without load events renders nothing or the error image.\<close>

theorem image_not_shown_before_load:
  assumes "\<not> img_loaded s" and "\<forall>e \<in> set evs. \<not> is_load e"
  shows "image_render (image_run s evs) = ImgNothing \<or> image_render (image_run s evs) = ImgBroken ''Error''"
  using assms image_run_no_load [OF assms(2)] by (simp add: image_render_def)

theorem image_not_shown_before_load_witness:
  "\<not> img_loaded (image_mount (image_init ''a.png'' ''badge'')) \<and>
   \<not> is_load (ImgFail 0) \<and> \<not> is_load (ImgProps ''b.png'' ''badge'') \<and>
   (image_render (image_run (image_mount (image_init ''a.png'' ''badge'')) [ImgProps ''b.png'' ''badge'', ImgFail 0]) =
      ImgNothing \<or>
    image_render (image_run (image_mount (image_init ''a.png'' ''badge'')) [ImgProps ''b.png'' ''badge'', ImgFail 0]) =
      ImgBroken ''Error'')"
proof -
  have h1: "\<not> img_loaded (image_mount (image_init ''a.png'' ''badge''))"
    by (simp add: image_mount_def image_init_def)
  have h2: "\<forall>e \<in> set [ImgProps ''b.png'' ''badge'', ImgFail 0]. \<not> is_load e" by (simp add: is_load_def)
  show ?thesis using h1 image_not_shown_before_load [OF h1 h2] by (simp add: is_load_def)
qed

text \<open>C15: \<open>loaded\<close> is not reset when \<open>src\<close> changes: in any state that has shown an
  image, a new \<open>src\<close> is rendered at once, although the image just created for it is
  still in flight and the browser has reported on no image of it.\<close>

theorem image_stale_load_shows_new_src:
  assumes "img_loaded s" and "\<not> img_error s" and "src' \<noteq> img_src s"
  shows "image_render (image_step s (ImgProps src' alt')) = ImgShown src' alt' \<and>
         img_pending (image_step s (ImgProps src' alt')) = img_pending s @ [src']"
  using assms by (simp add: image_render_def)

theorem image_stale_load_shows_new_src_witness:
  "img_loaded (image_step (image_mount (image_init ''a.png'' ''badge'')) (ImgLoad 0)) \<and>
   \<not> img_error (image_step (image_mount (image_init ''a.png'' ''badge'')) (ImgLoad 0)) \<and>
   ''b.png'' \<noteq> img_src (image_step (image_mount (image_init ''a.png'' ''badge'')) (ImgLoad 0)) \<and>
   image_render (image_step (image_step (image_mount (image_init ''a.png'' ''badge'')) (ImgLoad 0))
     (ImgProps ''b.png'' ''badge'')) = ImgShown ''b.png'' ''badge'' \<and>
   img_pending (image_step (image_step (image_mount (image_init ''a.png'' ''badge'')) (ImgLoad 0))
     (ImgProps ''b.png'' ''badge'')) =
     img_pending (image_step (image_mount (image_init ''a.png'' ''badge'')) (ImgLoad 0)) @ [''b.png'']"
proof -
  have h1: "img_loaded (image_step (image_mount (image_init ''a.png'' ''badge'')) (ImgLoad 0))"
    by (simp add: image_mount_def image_init_def)
  have h2: "\<not> img_error (image_step (image_mount (image_init ''a.png'' ''badge'')) (ImgLoad 0))"
    by (simp add: image_mount_def image_init_def)
  have h3: "''b.png'' \<noteq> img_src (image_step (image_mount (image_init ''a.png'' ''badge'')) (ImgLoad 0))"
    by (simp add: image_mount_def image_init_def)
  show ?thesis using h1 h2 h3 image_stale_load_shows_new_src [OF h1 h2 h3] by blast
qed

text \<open>C21: the component refines the abstract machine: the phase after a handler is
  the abstract step on the signal the event carries, and the rendering is the
  phase's, with the current props.\<close>

theorem image_refines_phase:
  "image_phase (image_step s e) = phase_step (image_phase s) (image_signal s e) \<and>
   image_render s = phase_render (image_phase s) (img_src s) (img_alt s)"
  by (cases e) (auto simp: image_phase_def image_render_def)



text \<open>C25: a mounted component that has neither shown an image nor failed can still show
  the image of its current props: the newest image in flight is for the current
  \<open>src\<close>, and the browser's load of it shows it.\<close>

theorem image_can_still_show:
  assumes "image_reach src alt s" and "\<not> img_error s" and "\<not> img_loaded s"
  shows "img_pending s \<noteq> [] \<and> last (img_pending s) = img_src s \<and>
         image_render (image_step s (ImgLoad (length (img_pending s) - 1))) = ImgShown (img_src s) (img_alt s)"
  using image_reach_in_flight [OF assms(1)] assms(2,3) by (simp add: image_render_def)

theorem image_can_still_show_witness:
  "image_reach ''a.png'' ''badge'' (image_run (image_mount (image_init ''a.png'' ''badge'')) [ImgProps ''b.png'' ''badge'']) \<and>
   \<not> img_error (image_run (image_mount (image_init ''a.png'' ''badge'')) [ImgProps ''b.png'' ''badge'']) \<and>
   \<not> img_loaded (image_run (image_mount (image_init ''a.png'' ''badge'')) [ImgProps ''b.png'' ''badge'']) \<and>
   img_pending (image_run (image_mount (image_init ''a.png'' ''badge'')) [ImgProps ''b.png'' ''badge'']) \<noteq> [] \<and>
   last (img_pending (image_run (image_mount (image_init ''a.png'' ''badge'')) [ImgProps ''b.png'' ''badge''])) =
     img_src (image_run (image_mount (image_init ''a.png'' ''badge'')) [ImgProps ''b.png'' ''badge'']) \<and>
   image_render (image_step (image_run (image_mount (image_init ''a.png'' ''badge'')) [ImgProps ''b.png'' ''badge''])
     (ImgLoad (length (img_pending (image_run (image_mount (image_init ''a.png'' ''badge'')) [ImgProps ''b.png'' ''badge''])) - 1))) =
   ImgShown (img_src (image_run (image_mount (image_init ''a.png'' ''badge'')) [ImgProps ''b.png'' ''badge'']))
            (img_alt (image_run (image_mount (image_init ''a.png'' ''badge'')) [ImgProps ''b.png'' ''badge'']))"
proof -
  have h1: "image_reach ''a.png'' ''badge''
              (image_run (image_mount (image_init ''a.png'' ''badge'')) [ImgProps ''b.png'' ''badge''])"
    by (rule image_reach_run)
  have h2: "\<not> img_error (image_run (image_mount (image_init ''a.png'' ''badge'')) [ImgProps ''b.png'' ''badge''])"
    by (simp add: image_mount_def image_init_def)
  have h3: "\<not> img_loaded (image_run (image_mount (image_init ''a.png'' ''badge'')) [ImgProps ''b.png'' ''badge''])"
    by (simp add: image_mount_def image_init_def)
  show ?thesis using h1 h2 h3 image_can_still_show [OF h1 h2 h3] by blast
qed

end
