(* ===== verification/Ui.thy ===== *)
theory Ui
  imports Prelude
begin

text \<open>
  The small view components and selectors of the sources: the selectors of the
  preview-features plugin (\<open>core/plugins/features/selectors.js\<close>) over an Immutable
  state, the \<open>AuthorizeBtn\<close> (\<open>core/components/auth/authorize-btn.jsx\<close>) and the
  layout \<open>Container\<close> (\<open>core/components/layout-utils/container.jsx\<close>), and the
  registry of the OpenAPI 3 plugin's components (\<open>core/plugins/oas3/components/index.js\<close>). Immutable
  maps are \<open>JObj\<close> values; Immutable's \<open>get\<close> and \<open>getIn\<close> (version 3) are modelled
  on them; \<open>xclass\<close> of \<open>core/utils\<close>, outside the sources, is a parameter.
\<close>

section \<open>Preview-feature selectors\<close>

text \<open>\<open>v.get(k)\<close> on an Immutable map; any other receiver has no \<open>get\<close>.\<close>

fun imm_get :: "jsval \<Rightarrow> string \<Rightarrow> jsval js" where
  "imm_get (JObj m) k = Inr (get_prop m k)"
| "imm_get JUndef k = Inl (TypeError ''Cannot read properties of undefined (reading 'get')'')"
| "imm_get JNull k = Inl (TypeError ''Cannot read properties of null (reading 'get')'')"
| "imm_get _ k = Inl (TypeError ''get is not a function'')"

text \<open>Immutable's \<open>getIn(path)\<close>: a step from a value without \<open>get\<close> gives the
  not-set value \<open>undefined\<close>.\<close>

fun imm_get_in :: "jsval \<Rightarrow> string list \<Rightarrow> jsval" where
  "imm_get_in v [] = v"
| "imm_get_in (JObj m) (k # ks) = imm_get_in (get_prop m k) ks"
| "imm_get_in _ (k # ks) = JUndef"

text \<open>\<open>getPreviewFeatures = (state) => state.get("presets") || Map()\<close>\<close>

definition get_preview_features :: "jsval \<Rightarrow> jsval js" where
  "get_preview_features state =
     (case imm_get state ''presets'' of Inl e \<Rightarrow> Inl e | Inr v \<Rightarrow> Inr (js_or v (JObj [])))"

text \<open>\<open>getFeaturesState = (state) => state || Map()\<close>\<close>

definition get_features_state :: "jsval \<Rightarrow> jsval" where
  "get_features_state state = js_or state (JObj [])"

text \<open>\<open>isFeatureEnabled = (state, key) => getPreviewFeatures(state).getIn([key, "enabled"])\<close>;
  a truthy \<open>presets\<close> value that is not a map has no \<open>getIn\<close>.\<close>

definition is_feature_enabled :: "jsval \<Rightarrow> string \<Rightarrow> jsval js" where
  "is_feature_enabled state key =
     (case get_preview_features state of
        Inl e \<Rightarrow> Inl e
      | Inr (JObj m) \<Rightarrow> Inr (imm_get_in (JObj m) [key, ''enabled''])
      | Inr _ \<Rightarrow> Inl (TypeError ''getIn is not a function''))"

section \<open>AuthorizeBtn\<close>

record btn_props =
  bp_is_authorized :: jsval
  bp_show_popup :: jsval

text \<open>A JSX child expression as React renders it: booleans, \<open>null\<close> and
  \<open>undefined\<close> render nothing, strings and numbers render as text.\<close>

datatype child = ChildNone | ChildText string | ChildPopup

datatype btn_out = AuthBtn string bool child

text \<open>\<open>{ showPopup && <AuthorizationPopup /> }\<close>: the popup when \<open>showPopup\<close> is
  truthy, otherwise the falsy value itself (\<open>0\<close> and \<open>""\<close> are the falsy values
  React prints).\<close>

definition popup_child :: "jsval \<Rightarrow> child" where
  "popup_child v =
     (if truthy v then ChildPopup
      else case v of JNum _ \<Rightarrow> ChildText ''0'' | JStr s \<Rightarrow> ChildText s | _ \<Rightarrow> ChildNone)"

text \<open>\<open>render()\<close>: the class and the icon follow \<open>isAuthorized\<close> (\<open>True\<close> for the
  locked icon).\<close>

definition authorize_btn_render :: "btn_props \<Rightarrow> btn_out" where
  "authorize_btn_render p =
     AuthBtn (if truthy (bp_is_authorized p) then ''btn authorize locked'' else ''btn authorize unlocked'')
             (truthy (bp_is_authorized p)) (popup_child (bp_show_popup p))"

section \<open>Container\<close>

datatype section_out = Section jsobj

text \<open>\<open>let { fullscreen, full, ...rest } = this.props\<close>\<close>

definition rest_props :: "jsobj \<Rightarrow> jsobj" where
  "rest_props p = filter (\<lambda>(k, v). k \<noteq> ''fullscreen'' \<and> k \<noteq> ''full'') p"

text \<open>\<open>render()\<close>: a full-screen container passes the remaining props through; any other
  gets the class \<open>xclass(rest.className, "swagger-container" + (full ? "-full" : ""))\<close>,
  which replaces \<open>className\<close> in place as the later JSX attribute does.\<close>

definition container_render :: "(jsval list \<Rightarrow> string) \<Rightarrow> jsobj \<Rightarrow> section_out" where
  "container_render xclass p =
     (let rest = rest_props p
      in if truthy (get_prop p ''fullscreen'') then Section rest
         else
           (let container_class = ''swagger-container'' @ (if truthy (get_prop p ''full'') then ''-full'' else [])
            in Section (AList.update ''className''
                          (JStr (xclass [get_prop rest ''className'', JStr container_class])) rest)))"

text \<open>\<open>Container.propTypes\<close>: \<open>fullscreen\<close> and \<open>full\<close> booleans, \<open>className\<close> a
  string, none required.\<close>

definition container_prop_types :: "(string \<times> prop_type \<times> bool) list" where
  "container_prop_types =
     [(''fullscreen'', PTBool, False), (''full'', PTBool, False), (''className'', PTString, False)]"

section \<open>The OpenAPI 3 component registry\<close>

text \<open>The components \<open>index.js\<close> imports, one constructor per import.\<close>

datatype oas3_component =
    Callbacks | RequestBody | OperationLink | Servers | ServersWrapper
  | RequestBodyEditor | HttpAuth | OperationServers

text \<open>The exported object, in its order: each component under the name it is
  imported by, but \<open>OperationLink\<close>, registered as \<open>operationLink\<close>.\<close>

definition oas3_components :: "(string \<times> oas3_component) list" where
  "oas3_components =
     [(''Callbacks'', Callbacks), (''HttpAuth'', HttpAuth), (''RequestBody'', RequestBody),
      (''Servers'', Servers), (''ServersWrapper'', ServersWrapper),
      (''RequestBodyEditor'', RequestBodyEditor), (''OperationServers'', OperationServers),
      (''operationLink'', OperationLink)]"

section \<open>Lemmas\<close>

lemma map_of_filter_keys:
  "map_of (filter (\<lambda>(k, v). P k) xs) k = (if P k then map_of xs k else None)"
  by (induction xs) auto

section \<open>Properties\<close>

text \<open>C12: \<open>isFeatureEnabled(state, key)\<close> reads \<open>presets.<key>.enabled\<close> of the
  features state.\<close>

theorem is_feature_enabled_flag:
  "map_of st ''presets'' = Some (JObj p) \<Longrightarrow> map_of p key = Some (JObj f) \<Longrightarrow>
   is_feature_enabled (JObj st) key = Inr (get_prop f ''enabled'')"
  by (simp add: is_feature_enabled_def get_preview_features_def get_prop_def js_or_def)

theorem is_feature_enabled_flag_witness:
  "map_of [(''presets'', JObj [(''tryIt'', JObj [(''enabled'', JBool True)])])] ''presets'' =
     Some (JObj [(''tryIt'', JObj [(''enabled'', JBool True)])]) \<and>
   map_of [(''tryIt'', JObj [(''enabled'', JBool True)])] ''tryIt'' = Some (JObj [(''enabled'', JBool True)]) \<and>
   is_feature_enabled (JObj [(''presets'', JObj [(''tryIt'', JObj [(''enabled'', JBool True)])])]) ''tryIt'' =
     Inr (get_prop [(''enabled'', JBool True)] ''enabled'')"
proof -
  have h1: "map_of [(''presets'', JObj [(''tryIt'', JObj [(''enabled'', JBool True)])])] ''presets'' =
     Some (JObj [(''tryIt'', JObj [(''enabled'', JBool True)])])" by simp
  have h2: "map_of [(''tryIt'', JObj [(''enabled'', JBool True)])] ''tryIt'' = Some (JObj [(''enabled'', JBool True)])"
    by simp
  show ?thesis using h1 h2 is_feature_enabled_flag [OF h1 h2] by blast
qed

text \<open>C18: on a features map whose \<open>presets\<close> entry is missing or falsy the selector
  falls back to an empty map and answers \<open>undefined\<close> for every key, without
  throwing; on an \<open>undefined\<close> state it throws.\<close>

theorem is_feature_enabled_without_presets:
  "(\<not> truthy (get_prop st ''presets'') \<longrightarrow> is_feature_enabled (JObj st) key = Inr JUndef) \<and>
   (\<exists>err. is_feature_enabled JUndef key = Inl err)"
  by (simp add: is_feature_enabled_def get_preview_features_def js_or_def get_prop_def)

theorem is_feature_enabled_without_presets_witness:
  "\<not> truthy (get_prop [(''presets'', JNull)] ''presets'') \<and>
   is_feature_enabled (JObj [(''presets'', JNull)]) ''tryIt'' = Inr JUndef"
proof -
  have h: "\<not> truthy (get_prop [(''presets'', JNull)] ''presets'')" by (simp add: get_prop_def)
  show ?thesis using h is_feature_enabled_without_presets [of "[(''presets'', JNull)]" "''tryIt''"] by blast
qed

text \<open>C13: the authorize button shows the locked class and icon exactly when
  \<open>isAuthorized\<close> is truthy, and the popup exactly when \<open>showPopup\<close> is truthy.\<close>

theorem authorize_btn_popup:
  "authorize_btn_render p = AuthBtn cls locked ch \<Longrightarrow>
   (locked \<longleftrightarrow> truthy (bp_is_authorized p)) \<and>
   (cls = ''btn authorize locked'' \<longleftrightarrow> truthy (bp_is_authorized p)) \<and>
   (ch = ChildPopup \<longleftrightarrow> truthy (bp_show_popup p))"
  by (auto simp: authorize_btn_render_def popup_child_def split: jsval.splits if_splits)

theorem authorize_btn_popup_witness:
  "authorize_btn_render \<lparr>bp_is_authorized = JBool True, bp_show_popup = JNum 0\<rparr> =
     AuthBtn ''btn authorize locked'' True (ChildText ''0'') \<and>
   (True \<longleftrightarrow> truthy (bp_is_authorized \<lparr>bp_is_authorized = JBool True, bp_show_popup = JNum 0\<rparr>)) \<and>
   (''btn authorize locked'' = ''btn authorize locked'' \<longleftrightarrow>
      truthy (bp_is_authorized \<lparr>bp_is_authorized = JBool True, bp_show_popup = JNum 0\<rparr>)) \<and>
   (ChildText ''0'' = ChildPopup \<longleftrightarrow> truthy (bp_show_popup \<lparr>bp_is_authorized = JBool True, bp_show_popup = JNum 0\<rparr>))"
proof -
  have h: "authorize_btn_render \<lparr>bp_is_authorized = JBool True, bp_show_popup = JNum 0\<rparr> =
     AuthBtn ''btn authorize locked'' True (ChildText ''0'')"
    by (simp add: authorize_btn_render_def popup_child_def)
  show ?thesis using h authorize_btn_popup [OF h] by (rule conjI)
qed

text \<open>C14: a container that is not full screen drops the \<open>fullscreen\<close> and \<open>full\<close>
  props and gets the class \<open>xclass(className, "swagger-container")\<close>, or
  \<open>"swagger-container-full"\<close> when \<open>full\<close> is truthy; a full-screen one keeps its
  class.\<close>

theorem container_class:
  "container_render xclass p = Section r \<Longrightarrow>
   map_of r ''fullscreen'' = None \<and> map_of r ''full'' = None \<and>
   map_of r ''className'' =
     (if truthy (get_prop p ''fullscreen'') then map_of (rest_props p) ''className''
      else Some (JStr (xclass [get_prop (rest_props p) ''className'',
                               JStr (if truthy (get_prop p ''full'') then ''swagger-container-full''
                                     else ''swagger-container'')])))"
proof -
  have rest: "map_of (rest_props p) ''fullscreen'' = None \<and> map_of (rest_props p) ''full'' = None"
    by (simp add: rest_props_def map_of_filter_keys)
  assume r: "container_render xclass p = Section r"
  show ?thesis
  proof (cases "truthy (get_prop p ''fullscreen'')")
    case True
    with r rest show ?thesis by (simp add: container_render_def)
  next
    case False
    with r rest show ?thesis by (auto simp: container_render_def Let_def update_conv')
  qed
qed

theorem container_class_witness:
  "container_render (\<lambda>vs. join_with '' '' (List.map_filter (\<lambda>v. case v of JStr s \<Rightarrow> Some s | _ \<Rightarrow> None) vs))
     [(''full'', JBool True), (''className'', JStr ''wrapper'')] =
     Section [(''className'', JStr ''wrapper swagger-container-full'')] \<and>
   map_of [(''className'', JStr ''wrapper swagger-container-full'')] ''fullscreen'' = None \<and>
   map_of [(''className'', JStr ''wrapper swagger-container-full'')] ''full'' = None \<and>
   map_of [(''className'', JStr ''wrapper swagger-container-full'')] ''className'' =
     (if truthy (get_prop [(''full'', JBool True), (''className'', JStr ''wrapper'')] ''fullscreen'')
      then map_of (rest_props [(''full'', JBool True), (''className'', JStr ''wrapper'')]) ''className''
      else Some (JStr ((\<lambda>vs. join_with '' '' (List.map_filter (\<lambda>v. case v of JStr s \<Rightarrow> Some s | _ \<Rightarrow> None) vs))
             [get_prop (rest_props [(''full'', JBool True), (''className'', JStr ''wrapper'')]) ''className'',
              JStr (if truthy (get_prop [(''full'', JBool True), (''className'', JStr ''wrapper'')] ''full'')
                    then ''swagger-container-full'' else ''swagger-container'')])))"
proof -
  have h: "container_render (\<lambda>vs. join_with '' '' (List.map_filter (\<lambda>v. case v of JStr s \<Rightarrow> Some s | _ \<Rightarrow> None) vs))
     [(''full'', JBool True), (''className'', JStr ''wrapper'')] =
     Section [(''className'', JStr ''wrapper swagger-container-full'')]"
    by (simp add: container_render_def rest_props_def get_prop_def List.map_filter_def)
  show ?thesis using h container_class [OF h] by (rule conjI)
qed

end
