(* ===== verification/Spec2Isabelle.thy ===== *)
theory Spec2Isabelle
  imports Grants Pkce Dispatcher Harness Markdown Badge ValidatorImage Ui Store
begin

text \<open>
  \<^bold>\<open>A verification library for the API-documentation client's authorization engine
  and view components.\<close>

  \<^medskip>\<^bold>\<open>The program.\<close> The repository is an interactive API-documentation client. Its
  specification puts the weight on the OAuth2 / API-key authorization engine: a server
  resolver that finds the base URL of a legacy (Swagger 2) or multi-server (OpenAPI 3)
  description, a URL builder that resolves the authorization and token URLs against it
  and merges configured query parameters without overriding declared ones, one request
  builder per grant type, the PKCE code exchange, a store of granted credentials and its
  persistence. That engine (\<open>core/plugins/auth/actions.js\<close> and the libraries it calls)
  is not among the sources, only its tests are (\<open>test/unit/core/plugins/auth/actions.js\<close>,
  \<open>test/mocha/core/plugins/auth/actions.js\<close>); its theories follow the specification,
  and the tests' scenarios are data of the model, run on it. The sources proper are view
  components and selectors: the \<open>Markdown\<close> provider, the online validator badge and
  its image, the authorize button, the layout container and the preview-feature
  selectors. The view layer consumes the engine's state (the button shows whether a
  scheme is authorized; the badge and Markdown render descriptions of the loaded API).

  \<^medskip>\<^bold>\<open>The theories.\<close>
  \<^item> \<open>Prelude\<close>: JavaScript values (\<open>jsval\<close>), truthiness, \<open>||\<close>/\<open>&&\<close>,
    \<open>typeof\<close>, \<open>Object.keys\<close> with its TypeError, \<open>String(v)\<close>
    (\<open>js_to_string\<close>), the checks of \<open>PropTypes\<close> declarations
    (\<open>prop_types_ok\<close>), and the string operations (\<open>split\<close>/\<open>join\<close> with their
    round trip, \<open>indexOf\<close>); the collections \<open>js_simps\<close> and \<open>str_simps\<close>.
  \<^item> \<open>Regex\<close>: the ECMAScript semantics of the regular expressions the sources write
    as literals: patterns (\<open>regex\<close>), RegExp objects with flags and \<open>lastIndex\<close>
    (\<open>regexp\<close>), \<open>Canonicalize\<close> under \<open>i\<close>, the backtracking matcher as the list
    of match ends in the order they are tried (\<open>match_ends\<close>, with \<open>+\<close> as
    \<open>rep_ends\<close>), the scan of \<open>RegExpBuiltinExec\<close> (\<open>scan_match\<close>, terminating
    by the distance to the end of the string), \<open>exec\<close> and \<open>test\<close>. Lemmas: match
    ends lie within the string, \<open>lastIndex\<close> stays within it under \<open>g\<close>, a class
    under \<open>+\<close> and an anchored pattern are characterized, and the fuel of
    \<open>rep_ends\<close> is adequate (\<open>rep_ends_fuel\<close>).
  \<^item> \<open>Url\<close> (specification 4.2): \<open>parse_url\<close>/\<open>print_url\<close> over the record \<open>url\<close>,
    \<open>encode_component\<close> (\<open>encodeURIComponent\<close>), \<open>add_params\<close> (the
    non-overwrite merge), \<open>remove_dot_segments\<close>, \<open>resolve\<close> (RFC 3986 5.2) and
    \<open>build_url\<close>. Lemmas: print after parse is the identity (so parsing is
    lossless), every string parses to a well-formed reference (\<open>parse_url_wf\<close>) and
    parse after print is the identity on those (\<open>parse_print_url\<close>), so the two are
    inverse bijections; \<open>remove_dot_segments\<close> leaves no dot segment; the merge keeps every existing parameter in place and adds every configured
    key without creating a duplicate name, and it is idempotent.
  \<^item> \<open>Server\<close> (4.1): the record \<open>api_ctx\<close> of what \<open>authorizeRequest\<close> reads
    from the spec selectors, \<open>subst_vars\<close> (server-variable substitution, terminating
    by the length of the rest of the template), \<open>origin_of\<close> and
    \<open>resolve_base_url\<close>: for a multi-server description the selected server with
    its variables substituted, else the origin of the description's URL; for a legacy
    description the URL the description was fetched from (\<open>specSelectors.url()\<close>),
    against which a relative endpoint resolves, as the engine's tests require (the
    specification's 4.1 says \<open>scheme://host\<close> instead).
  \<^item> \<open>Authorize\<close>: \<open>authorize_request\<close>, the request handed to the injected
    \<open>fetch\<close>, and the tests' scenarios (\<open>resolve_endpoint_cases\<close>, the
    \<open>additionalQueryStringParams\<close> cases). Lemma: every row of the tests gives the URL
    the tests expect (\<open>authorize_request_test_rows\<close>). C2: for any legacy
    description an absolute endpoint path is resolved against the origin of the
    description's URL; C10: the tests' configured parameter supplements any query
    without overriding it.
  \<^item> \<open>Grants\<close> (4.3): the datatype \<open>grant\<close> with one constructor per grant type,
    \<open>build_authorization_request\<close>, \<open>build_token_request\<close> (the code exchange of
    \<open>authorizeAccessCodeWithFormParams\<close>), \<open>form_body\<close> and \<open>merge_form\<close>; the
    errors \<open>auth_error\<close>. Lemmas: the exchange carries \<open>code_verifier\<close> and
    \<open>grant_type=authorization_code\<close> (C5 on the tests' scheme); a grant fails exactly
    when its endpoint is missing, with \<open>InvalidGrantConfiguration\<close> naming the scheme
    (C19 on the tests' \<open>petstore_auth\<close>); scheme form parameters never replace a
    standard field.
  \<^item> \<open>Pkce\<close> (4.4, and \<open>GrantState\<close> of sections 3 and 5): bytes as \<open>8 word\<close>,
    \<open>b64url_encode\<close> (base64url without padding, by shifts and masks),
    \<open>generate_code_verifier\<close> on the drawn random bytes, \<open>utf8_encode\<close> and
    \<open>derive_code_challenge\<close> with the digest as a parameter; the record
    \<open>grant_state\<close>, attempts kept per scheme (\<open>start_attempt\<close>,
    \<open>finish_attempt\<close>) and runs of interleaved attempt events (\<open>attempt_run\<close>).
    Lemmas: decoding undoes the encoding (so the encoding is injective), its length is
    \<open>(4n + 2) div 3\<close> and its characters are unreserved; a 32-byte digest gives a
    43-character challenge that \<open>encodeURIComponent\<close> leaves unchanged; an event of
    another scheme does not touch a scheme's attempt; the PKCE binding
    (\<open>pkce_binding\<close>): the challenge an attempt sends is that of the verifier its
    exchange posts. C26: verifiers from 32 to 96 bytes
    have 43 to 128 characters and go on the wire unescaped; C27: the code exchange after any
    interleaving posts the attempt's own verifier and retains nothing of it.
  \<^item> \<open>Dispatcher\<close> (sections 5 to 7): the injected \<open>fetch\<close> as a parameter of type
    \<open>dispatcher\<close> (a rejection or a status and a body), the engine's state as the
    attempts, the credential store, the durable store and the dispatched requests, and
    \<open>exchange\<close>: the code exchange of an attempt, its request handed to the
    dispatcher, the answer turned into \<open>NetworkFailure\<close> or a stored and persisted
    credential. Lemmas: the outcomes of \<open>exchange\<close> for every configuration
    (\<open>exchange_result\<close>: a grant is one wrapped \<open>authorize\<close> step of the store), so
    it keeps the store's invariant and the persisted copy in sync
    (\<open>exchange_preserves\<close>). C29: the \<open>GrantState\<close> is discarded in every outcome, errors name the
    scheme and change no credential, a grant is filed by \<open>setAuthorization\<close> and
    persisted after exactly one request.
  \<^item> \<open>Harness\<close> (\<open>test/mocha/setup.js\<close>): \<open>copy_props\<close> (\<open>copyProps\<close>) and
    \<open>setup_globals\<close>, its two calls. Lemma: a property of the copy reads as on the
    target where defined, else as on the source. C28: the setup never overwrites a
    defined property of the window or the global object.
  \<^item> \<open>Json\<close>: \<open>JSON.stringify\<close> (\<open>json_text\<close>) and \<open>JSON.parse\<close>
    (\<open>json_parse\<close>, a recursive descent with fuel over strings, numbers, literals and
    objects, a duplicate key keeping its first position and its last value). Lemma: every
    printed value without \<open>undefined\<close> and with distinct keys parses back to itself,
    with the fuel \<open>json_parse\<close> gives.
  \<^item> \<open>Store\<close> (4.5, 4.6, and the wrapped actions of the tests): the record
    \<open>auth_store\<close>, \<open>set_authorization\<close> (a no-op on an equal entry),
    \<open>remove_authorization\<close>, \<open>clear_all\<close>, \<open>get_authorization\<close>; the
    serialization of the store and \<open>persist\<close> under the key \<open>"authorized"\<close>;
    \<open>restore\<close> with its decoders; \<open>store_run\<close> runs a sequence of
    \<open>wrappedAuthorize\<close> / \<open>wrappedLogout\<close> actions. The abstract specification is a
    finite map (\<open>list_authorized\<close>, \<open>abs_op\<close>). Lemmas: the refinement of the map by
    any run, the invariant (one entry per scheme, filed under its own name), the persisted
    copy in sync with the store when persistence is on, no write when it is off. C24:
    restoring after any non-empty run gives back the credentials.
  \<^item> \<open>Markdown\<close> (\<open>core/components/providers/markdown.jsx\<close>): \<open>is_plain_text\<close>
    (the regular expression \<open>/^[A-Z\s0-9!?\.]+$/gi\<close> read directly) and the literal
    as a RegExp object (\<open>plain_text_regexp\<close>), \<open>deeplink_fix\<close> (the callback given
    to \<open>manipHtmlStr\<close>), \<open>cx\<close>, \<open>markdown_render\<close> (the component on a string
    source) and \<open>markdown\<close> (the component on its props object, with its Remarkable
    options, \<open>sanitizer\<close> and \<open>propTypes\<close>); Remarkable, DOMPurify and
    \<open>manipHtmlStr\<close> are parameters. C1, C16, C17 cover the render paths, C6 and C7
    the callback (an anchor without \<open>href\<close> throws), C20 the literal's semantics
    (equal to the direct reading), C23 a missing \<open>source\<close> (an empty div, not
    \<open>null\<close>). The Remarkable options are handed to the Remarkable parameter and
    constrain no theorem.
  \<^item> \<open>Badge\<close> (\<open>core/components/online-validator-badge.jsx\<close>, lines 1-61): the
    props and state records, \<open>badge_init\<close> (constructor), \<open>badge_receive_props\<close>
    (\<open>componentWillReceiveProps\<close>), \<open>badge_render\<close>. The props carry the spec selectors, bound to the store,
    so the URL is read again at every render and every props update. C3, C9, C11.
  \<^item> \<open>ValidatorImage\<close> (the same file, lines 63-120): the image's state, its
    \<open>componentDidMount\<close> as the one-time \<open>image_mount\<close> after the constructor
    \<open>image_init\<close>, the later handlers as the step function \<open>image_step\<close> over the
    events load, error and new props, \<open>image_run\<close> over event lists, the reachable
    states \<open>image_reach\<close> (inductive, from the mounted state), \<open>image_render\<close>, and
    the abstract machine of the phases waiting, shown and failed. C4, C8 by induction
    over event runs, C15 that a new \<open>src\<close> is shown before its image has loaded, C21
    the refinement of the abstract machine, C22 an invariant by rule induction, C25 that
    a reachable component that has neither shown nor failed can still show its image.
  \<^item> \<open>Ui\<close>: the preview-feature selectors over an Immutable state (C12, C18),
    \<open>authorize_btn_render\<close> (C13), \<open>container_render\<close> and its \<open>propTypes\<close>
    (C14), and the OpenAPI 3 component registry \<open>oas3_components\<close>.
  \<^item> This theory: the access-code flow with PKCE from attempt to restored
    credential (\<open>pkce_flow_restored\<close>), across \<open>Pkce\<close>, \<open>Dispatcher\<close>
    and \<open>Store\<close>.

  \<^medskip>\<^bold>\<open>Bounds and termination.\<close> String scans recurse on a suffix
  (\<open>subst_vars\<close> with the measure \<open>length\<close>); the RegExp scan terminates by the
  distance from the start position to the end of the string; the iterations of \<open>+\<close>
  after the first must each consume a character, so the fuel \<open>length s\<close> given to
  \<open>rep_ends\<close> is enough (a match never ends beyond the string, lemma
  \<open>match_ends_bounds\<close>; with \<open>b - j\<close> fuel the result is final, lemma
  \<open>rep_ends_fuel\<close>); base64url of \<open>n\<close> bytes has
  \<open>(4n + 2) div 3\<close> characters, so 32 to 96 random bytes give the 43 to 128
  characters of RFC 7636 and a 32-byte digest gives 43; bytes are \<open>8 word\<close> values,
  read by \<open>unat\<close> below 64 after the mask \<open>AND 63\<close>; the store and image runs recurse on the list of actions or
  events; \<open>JSON.parse\<close> descends with the fuel \<open>length t + 1\<close>, enough since every
  call reads a character (lemma \<open>parse_json_text\<close> for printed text). Every definition
  is executable, so the scenarios evaluate by \<open>simp\<close> or
  \<open>code_simp\<close>.

  \<^medskip>\<^bold>\<open>Not modelled.\<close> The rendering of JSX beyond the values the components
  compute (class names, children, attributes); the libraries the sources call
  (Remarkable, DOMPurify, \<open>url-parse\<close>, \<open>sanitizeUrl\<close>, \<open>xclass\<close>), taken as
  parameters; SHA-256 (a parameter, a digest of 32 bytes) and the random source (the
  drawn bytes are an input of \<open>generate_code_verifier\<close>); the network call itself (the dispatcher is a parameter; only the engine's side of
  the boundary is modelled); the component
  components the OpenAPI 3 registry names (not in the sources); jsdom, node's global
  object and prototypes, the Cypress browser test and the enzyme rendering of
  \<open>SchemesWrapper\<close> (whose component is not in the sources); the Unicode and sticky flags of RegExp, JSON arrays and
  non-integer numbers (no value the store persists has them), and the ordering of
  integer-like keys in JavaScript objects. Strings are sequences of Latin-1 code units.
\<close>

section \<open>End to end\<close>

text \<open>The access-code flow with PKCE across the engine's parts: an attempt is started
  (\<open>Pkce\<close>), events of other schemes interleave, the code exchange goes through the
  dispatcher and grants a credential (\<open>Dispatcher\<close>), which is persisted, so that a
  reload restores it (\<open>Store\<close>); nothing of the attempt remains.\<close>

lemma pkce_flow_restored:
  assumes "start_attempt ctx cfg s cid ru sc (new_grant_state sha True rnd st0) atts = (Inr areq, atts1)"
    and "list_all (\<lambda>e. event_scheme e \<noteq> ss_name s) es"
    and "exchange fetch ctx cfg s cid sec code ru (attempt_run ctx cfg es atts1, st, kv, sent) =
           (Some (Inr g), atts', st', kv', sent')"
    and "persist_authorization cfg" and "store_inv st"
  shows "map_of (st_auths (restore kv')) (ss_name s) = Some g \<and>
         atts' = (attempt_run ctx cfg es atts)(ss_name s := None)"
proof -
  note r = exchange_result [OF assms(3)]
  then have g: "g_scheme g = ss_name s"
    and sk: "(st', kv') = store_step True (st, kv) (OpAuthorize g)"
    using assms(4) by simp_all
  then have "st' = set_authorization g st" "kv' = persist True st' kv"
    by (simp_all add: wrapped_authorize_def Let_def)
  then have "restore kv' = \<lparr>st_auths = st_auths st', st_events = []\<rparr>"
    using restore_persist set_authorization_inv assms(5) by simp
  moreover have "map_of (st_auths st') (ss_name s) = Some g"
    using list_authorized_set [of g st] g \<open>st' = set_authorization g st\<close>
    by (simp add: list_authorized_def)
  moreover have "atts1 = atts(ss_name s \<mapsto> new_grant_state sha True rnd st0)"
    using start_attempt_Inr [OF assms(1)] by simp
  then have "atts' = (attempt_run ctx cfg es atts)(ss_name s := None)"
    using r attempt_run_other [OF assms(2), of ctx cfg atts] by simp
  ultimately show ?thesis by simp
qed

end
